(* ===== verification/Prelude.thy ===== *)
theory Prelude
  imports Complex_Main "HOL-Library.State_Monad" "HOL-Library.Word" "HOL-Library.Sublist"
begin

text \<open>
  Shared vocabulary of the development. Python's \<open>str\<close> is a sequence of Unicode code
  points, so it is modelled as \<open>nat list\<close> (\<open>pystr\<close>) rather than as Isabelle's 8-bit
  \<open>string\<close>; ASCII literals of the source are written \<open>py ''...''\<close>. Raw HTTP bodies
  are byte strings (\<open>8 word list\<close>). Decimal rendering of naturals (used by error messages
  and by \<open>repr\<close> of numbers), a guarded decimal digit reader, and the rewriting facts on
  rational floors that let the simplifier evaluate the model on concrete inputs live here
  too. The collection \<open>py_simps\<close> gathers the evaluation rules of the Python runtime
  model that component proofs pass to \<open>simp\<close>.
\<close>

named_theorems py_simps "evaluation rules of the Python runtime model"

type_synonym pystr = "nat list"
type_synonym bytes = "8 word list"

definition py :: "string \<Rightarrow> pystr" where
  "py s = map of_char s"

text \<open>Decimal digits of a natural number, most significant first, as Python's \<open>str(n)\<close>.\<close>

fun digits10 :: "nat \<Rightarrow> nat list" where
  "digits10 n = (if n < 10 then [n] else digits10 (n div 10) @ [n mod 10])"

declare digits10.simps [simp del]

definition show_nat :: "nat \<Rightarrow> pystr" where
  "show_nat n = map (\<lambda>d. 48 + d) (digits10 n)"

definition show_int :: "int \<Rightarrow> pystr" where
  "show_int i = (if i < 0 then 45 # show_nat (nat (- i)) else show_nat (nat i))"

text \<open>A byte as Python prints it in codec errors (\<open>0xff\<close>), and a quoted string.\<close>

definition hex_digit :: "nat \<Rightarrow> nat" where
  "hex_digit d = (if d < 10 then 48 + d else 87 + d)"

definition show_hex_byte :: "nat \<Rightarrow> pystr" where
  "show_hex_byte b = py ''0x'' @ [hex_digit (b div 16 mod 16), hex_digit (b mod 16)]"

definition quoted :: "pystr \<Rightarrow> pystr" where
  "quoted s = 39 # s @ [39]"

text \<open>The value of a list of decimal digits, most significant first.\<close>

definition digits_value :: "nat list \<Rightarrow> nat" where
  "digits_value ds = foldl (\<lambda>acc d. 10 * acc + d) 0 ds"

definition is_digit :: "nat \<Rightarrow> bool" where
  "is_digit c \<longleftrightarrow> 48 \<le> c \<and> c \<le> 57"

subsection \<open>Literals\<close>

lemma py_Nil [simp]: "py [] = []"
  by (simp add: py_def)

lemma py_Cons [simp]: "py (c # s) = of_char c # py s"
  by (simp add: py_def)

lemma py_append [simp]: "py (a @ b) = py a @ py b"
  by (simp add: py_def)

lemma length_py [simp]: "length (py s) = length s"
  by (simp add: py_def)

lemma py_inject [simp]: "py a = py b \<longleftrightarrow> a = b"
proof -
  have "inj (of_char :: char \<Rightarrow> nat)"
    by (rule inj_of_char)
  then have "inj (map (of_char :: char \<Rightarrow> nat))"
    by (rule inj_mapI)
  then show ?thesis
    by (simp add: py_def inj_eq)
qed

subsection \<open>Decimal digits\<close>

lemma digits10_lt: "d \<in> set (digits10 n) \<Longrightarrow> d < 10"
proof (induction n rule: digits10.induct)
  case (1 n)
  then show ?case
    by (cases "n < 10") (auto simp: digits10.simps [of n])
qed

lemma digits10_ne [simp]: "digits10 n \<noteq> []"
  by (simp add: digits10.simps [of n])

lemma digits_value_snoc [simp]: "digits_value (ds @ [d]) = 10 * digits_value ds + d"
  by (simp add: digits_value_def)

lemma digits_value_digits10 [simp]: "digits_value (digits10 n) = n"
proof (induction n rule: digits10.induct)
  case (1 n)
  then show ?case
    by (cases "n < 10") (simp_all add: digits10.simps [of n] digits_value_def)
qed

lemma show_nat_ne [simp]: "show_nat n \<noteq> []"
  by (simp add: show_nat_def)

lemma show_nat_digits: "c \<in> set (show_nat n) \<Longrightarrow> is_digit c"
  by (auto simp: show_nat_def is_digit_def dest: digits10_lt)

lemma show_nat_ascii: "c \<in> set (show_nat n) \<Longrightarrow> c < 128"
  using show_nat_digits by (fastforce simp: is_digit_def)

lemma show_int_ascii: "c \<in> set (show_int i) \<Longrightarrow> c < 128"
  by (auto simp: show_int_def dest: show_nat_ascii split: if_splits)

lemma map_minus_48_show_nat [simp]: "map (\<lambda>c. c - 48) (show_nat n) = digits10 n"
  by (simp add: show_nat_def comp_def)

lemma digits_value_show_nat [simp]: "digits_value (map (\<lambda>c. c - 48) (show_nat n)) = n"
  by simp

lemma show_nat_hd_nonzero:
  "1 < length (show_nat n) \<Longrightarrow> hd (show_nat n) \<noteq> 48"
proof (induction n rule: digits10.induct)
  case (1 n)
  show ?case
  proof (cases "n < 10")
    case True
    with "1.prems" show ?thesis by (simp add: show_nat_def digits10.simps [of n])
  next
    case False
    show ?thesis
    proof (cases "n div 10 < 10")
      case True
      with False show ?thesis
        by (simp add: show_nat_def digits10.simps [of n] digits10.simps [of "n div 10"])
    next
      case False': False
      then have "1 < length (show_nat (n div 10))"
        by (simp add: show_nat_def digits10.simps [of "n div 10"])
      then have "hd (show_nat (n div 10)) \<noteq> 48"
        using "1.IH" False by blast
      with False show ?thesis
        by (simp add: show_nat_def digits10.simps [of n] hd_append)
    qed
  qed
qed

subsection \<open>Rational floors of numerals\<close>

text \<open>Rewriting facts so that \<open>simp\<close> evaluates floors of rational numeral fractions.\<close>

lemma floor_numeral_div_numeral [simp]:
  "\<lfloor>(numeral m / numeral n :: rat)\<rfloor> = numeral m div numeral n"
  using floor_divide_of_int_eq [of "numeral m" "numeral n", where 'a = rat] by simp

lemma floor_neg_numeral_div_numeral [simp]:
  "\<lfloor>(- numeral m / numeral n :: rat)\<rfloor> = - numeral m div numeral n"
  using floor_divide_of_int_eq [of "- numeral m" "numeral n", where 'a = rat] by simp

subsection \<open>Sums of results\<close>

text \<open>Python's exceptions are left injections; these facts evaluate case splits on them.\<close>

lemma sum_case_Inr_eq [simp]:
  "(case x of Inl e \<Rightarrow> Inl e | Inr v \<Rightarrow> Inr v) = x"
  by (cases x) simp_all

lemma upt_append: "a \<le> b \<Longrightarrow> b \<le> c \<Longrightarrow> [a..<b] @ [b..<c] = [a..<c]"
  by (metis le_add_diff_inverse upt_add_eq_append)

end
