(* ===== verification/PyRuntime.thy ===== *)
theory PyRuntime
  imports Prelude
begin

text \<open>
  The part of Python's semantics that the handler's expressions depend on. Exceptions are
  values of the record \<open>exn\<close>, their class is an \<open>exc_class\<close> whose method resolution
  order \<open>mro\<close> decides what an \<open>except C:\<close> clause catches (\<open>isinstance\<close>). The objects
  that \<open>json.loads\<close> produces are the datatype \<open>pyval\<close>; the operations the handler applies
  to them are truthiness (\<open>py_truthy\<close>, line 42's \<open>not req_body\<close>), the membership test
  (\<open>py_contains\<close>, line 42's \<open>'text' not in req_body\<close>) and \<open>dict.get\<close> (\<open>py_get\<close>,
  line 45). Each raises exactly where CPython raises: \<open>in\<close> on a number or a boolean is a
  \<open>TypeError\<close>, \<open>.get\<close> on a list or a string an \<open>AttributeError\<close>.
\<close>

section \<open>Exceptions\<close>

datatype exc_class =
    BaseException | Exception | ValueError | UnicodeError | UnicodeDecodeError
  | UnicodeEncodeError | JSONDecodeError | TypeError | AttributeError | RuntimeError
  | RecursionError | KeyboardInterrupt | SystemExit
  | UserClass string exc_class

text \<open>The method resolution order of each class, the class itself first.\<close>

primrec mro :: "exc_class \<Rightarrow> exc_class list" where
  "mro BaseException = [BaseException]"
| "mro Exception = [Exception, BaseException]"
| "mro ValueError = [ValueError, Exception, BaseException]"
| "mro UnicodeError = [UnicodeError, ValueError, Exception, BaseException]"
| "mro UnicodeDecodeError =
     [UnicodeDecodeError, UnicodeError, ValueError, Exception, BaseException]"
| "mro UnicodeEncodeError =
     [UnicodeEncodeError, UnicodeError, ValueError, Exception, BaseException]"
| "mro JSONDecodeError = [JSONDecodeError, ValueError, Exception, BaseException]"
| "mro TypeError = [TypeError, Exception, BaseException]"
| "mro AttributeError = [AttributeError, Exception, BaseException]"
| "mro RuntimeError = [RuntimeError, Exception, BaseException]"
| "mro RecursionError = [RecursionError, RuntimeError, Exception, BaseException]"
| "mro KeyboardInterrupt = [KeyboardInterrupt, BaseException]"
| "mro SystemExit = [SystemExit, BaseException]"
| "mro (UserClass n b) = UserClass n b # mro b"

record exn =
  exc_type :: exc_class
  exc_msg :: pystr

definition mk_exn :: "exc_class \<Rightarrow> pystr \<Rightarrow> exn" where
  "mk_exn c m = \<lparr>exc_type = c, exc_msg = m\<rparr>"

text \<open>\<open>except C\<close> catches \<open>e\<close> iff \<open>isinstance(e, C)\<close>; \<open>str(e)\<close> is its message.\<close>

definition isinstance :: "exn \<Rightarrow> exc_class \<Rightarrow> bool" where
  "isinstance e c \<longleftrightarrow> c \<in> set (mro (exc_type e))"

definition exn_str :: "exn \<Rightarrow> pystr" where
  "exn_str e = exc_msg e"

section \<open>Values produced by the JSON decoder\<close>

datatype pyfloat = Finite rat | PosInf | NegInf | NaN

datatype pyval =
    PNone
  | PBool bool
  | PInt int
  | PFloat pyfloat
  | PStr pystr
  | PList "pyval list"
  | PDict "(pystr \<times> pyval) list"

text \<open>\<open>type(x).__name__\<close>, as it appears in the runtime's error messages.\<close>

fun type_name :: "pyval \<Rightarrow> string" where
  "type_name PNone = ''NoneType''"
| "type_name (PBool _) = ''bool''"
| "type_name (PInt _) = ''int''"
| "type_name (PFloat _) = ''float''"
| "type_name (PStr _) = ''str''"
| "type_name (PList _) = ''list''"
| "type_name (PDict _) = ''dict''"

text \<open>\<open>bool(x)\<close>: zero, empty and \<open>None\<close> are false; NaN and the infinities are true.\<close>

fun py_truthy :: "pyval \<Rightarrow> bool" where
  "py_truthy PNone = False"
| "py_truthy (PBool b) = b"
| "py_truthy (PInt i) = (i \<noteq> 0)"
| "py_truthy (PFloat (Finite q)) = (q \<noteq> 0)"
| "py_truthy (PFloat _) = True"
| "py_truthy (PStr s) = (s \<noteq> [])"
| "py_truthy (PList xs) = (xs \<noteq> [])"
| "py_truthy (PDict d) = (d \<noteq> [])"

text \<open>
  \<open>k in x\<close> for a string \<open>k\<close>: substring test on \<open>str\<close>, element equality on
  \<open>list\<close> (a \<open>str\<close> equals only an equal \<open>str\<close>), key membership on \<open>dict\<close>; any other
  operand is not a container and raises \<open>TypeError\<close>.
\<close>

fun py_contains :: "pystr \<Rightarrow> pyval \<Rightarrow> exn + bool" where
  "py_contains k (PStr s) = Inr (sublist k s)"
| "py_contains k (PList xs) = Inr (PStr k \<in> set xs)"
| "py_contains k (PDict d) = Inr (k \<in> set (map fst d))"
| "py_contains k v =
     Inl (mk_exn TypeError
           (py (''argument of type '' @ [CHR 0x27] @ type_name v @ [CHR 0x27] @
                '' is not iterable'')))"

text \<open>\<open>x.get(k)\<close> with the default \<open>None\<close>; only \<open>dict\<close> has the method.\<close>

fun py_get :: "pyval \<Rightarrow> pystr \<Rightarrow> exn + pyval" where
  "py_get (PDict d) k = Inr (case map_of d k of None \<Rightarrow> PNone | Some v \<Rightarrow> v)"
| "py_get v k =
     Inl (mk_exn AttributeError
           (py ([CHR 0x27] @ type_name v @ [CHR 0x27] @
                '' object has no attribute '' @ [CHR 0x27] @ ''get'' @ [CHR 0x27])))"

text \<open>
  \<open>d[k] = v\<close> on a dictionary built from key/value pairs: an existing key keeps its
  position and takes the new value, a new key is appended (insertion order).
\<close>

fun dict_set :: "(pystr \<times> pyval) list \<Rightarrow> pystr \<Rightarrow> pyval \<Rightarrow> (pystr \<times> pyval) list" where
  "dict_set [] k v = [(k, v)]"
| "dict_set ((k', v') # d) k v =
     (if k' = k then (k, v) # d else (k', v') # dict_set d k v)"

text \<open>
  Well-formed values: every code point of every string is below \<open>0x110000\<close> and the
  keys of every dictionary are distinct (the dictionary invariant).
\<close>

definition valid_str :: "pystr \<Rightarrow> bool" where
  "valid_str s \<longleftrightarrow> (\<forall>c\<in>set s. c < 1114112)"

fun wf_pyval :: "pyval \<Rightarrow> bool" where
  "wf_pyval (PStr s) = valid_str s"
| "wf_pyval (PList xs) = (\<forall>x\<in>set xs. wf_pyval x)"
| "wf_pyval (PDict d) =
     (distinct (map fst d) \<and> (\<forall>kv\<in>set d. valid_str (fst kv) \<and> wf_pyval (snd kv)))"
| "wf_pyval _ = True"

section \<open>Lemmas\<close>

subsection \<open>Exception matching\<close>

lemma isinstance_mk_exn [simp]: "isinstance (mk_exn c m) d \<longleftrightarrow> d \<in> set (mro c)"
  by (simp add: isinstance_def mk_exn_def)

lemma exc_type_mk_exn [simp]: "exc_type (mk_exn c m) = c"
  and exn_str_mk_exn [simp]: "exn_str (mk_exn c m) = m"
  by (simp_all add: mk_exn_def exn_str_def)

lemma mro_ne [simp]: "mro c \<noteq> []"
  by (cases c) simp_all

lemma mro_last_base: "last (mro c) = BaseException"
  by (induction c) simp_all

text \<open>Every exception is a \<open>BaseException\<close>: an \<open>except BaseException\<close> catches all.\<close>

lemma isinstance_BaseException [simp]: "isinstance e BaseException"
proof -
  have "last (mro (exc_type e)) \<in> set (mro (exc_type e))"
    by simp
  then show ?thesis
    by (simp add: isinstance_def mro_last_base)
qed

text \<open>Everything caught as a \<open>ValueError\<close> is also an \<open>Exception\<close>.\<close>

lemma mro_ValueError_Exception: "ValueError \<in> set (mro c) \<Longrightarrow> Exception \<in> set (mro c)"
  by (induction c) auto

lemma isinstance_ValueError_Exception:
  "isinstance e ValueError \<Longrightarrow> isinstance e Exception"
  by (simp add: isinstance_def mro_ValueError_Exception)

lemmas exc_simps [py_simps] = isinstance_mk_exn exc_type_mk_exn exn_str_mk_exn

subsection \<open>Membership and lookup\<close>

lemma py_contains_container:
  "py_contains k v = Inl e \<Longrightarrow> exc_type e = TypeError"
  by (cases v) auto

lemma py_contains_dict [simp]: "py_contains k (PDict d) = Inr (map_of d k \<noteq> None)"
  by (auto simp: map_of_eq_None_iff)

lemma py_get_dict_present:
  "map_of d k = Some v \<Longrightarrow> py_get (PDict d) k = Inr v"
  by simp

lemma py_truthy_dict [simp]: "py_truthy (PDict d) \<longleftrightarrow> d \<noteq> []"
  by simp

subsection \<open>The dictionary invariant\<close>

lemma map_of_dict_set [simp]: "map_of (dict_set d k v) = (map_of d)(k \<mapsto> v)"
  by (induction d) (auto simp: fun_eq_iff)

lemma map_fst_dict_set:
  "map fst (dict_set d k v) = (if k \<in> set (map fst d) then map fst d else map fst d @ [k])"
  by (induction d) (fastforce simp: image_iff)+

lemma keys_dict_set [simp]: "set (map fst (dict_set d k v)) = insert k (set (map fst d))"
  by (auto simp: map_fst_dict_set simp del: set_map)

lemma distinct_dict_set: "distinct (map fst d) \<Longrightarrow> distinct (map fst (dict_set d k v))"
  by (simp add: map_fst_dict_set del: set_map)

lemma dict_set_values:
  "kv \<in> set (dict_set d k v) \<Longrightarrow> kv = (k, v) \<or> kv \<in> set d"
  by (induction d) (auto split: if_splits)

lemma wf_dict_set:
  assumes "wf_pyval (PDict d)" "valid_str k" "wf_pyval v"
  shows "wf_pyval (PDict (dict_set d k v))"
  using assms by (auto simp: distinct_dict_set dest: dict_set_values)

lemma dict_set_existing_length:
  "k \<in> set (map fst d) \<Longrightarrow> length (dict_set d k v) = length d"
proof -
  assume "k \<in> set (map fst d)"
  then have "map fst (dict_set d k v) = map fst d"
    by (simp add: map_fst_dict_set del: set_map)
  then show ?thesis
    by (metis length_map)
qed

end
