(* ===== verification/Utf8.thy ===== *)
theory Utf8
  imports PyRuntime
begin

text \<open>
  Python's strict UTF-8 codec: \<open>bytes.decode('utf-8')\<close>, which \<open>HttpRequest.get_json\<close>
  applies to the request body before \<open>json.loads\<close>, and \<open>str.encode('utf-8')\<close>, which
  \<open>HttpResponse\<close> applies to a \<open>str\<close> body. The decoder accepts exactly the well-formed
  sequences of the Unicode standard (no overlong forms, no surrogates, nothing above
  \<open>U+10FFFF\<close>) and raises \<open>UnicodeDecodeError\<close>, a subclass of \<open>ValueError\<close>, on the
  first ill-formed sequence; the encoder raises \<open>UnicodeEncodeError\<close> on a surrogate code
  point. The decoder works on the unsigned values of the bytes (\<open>unat\<close>).
  The lemmas show that encoding never fails on a well-formed string, that decoding inverts
  encoding (the round trip), and that ASCII decodes to itself.
\<close>

section \<open>Decoding\<close>

text \<open>Length of the sequence a lead byte announces; \<open>0\<close> for an invalid start byte.\<close>

definition utf8_seq_len :: "nat \<Rightarrow> nat" where
  "utf8_seq_len b =
     (if b < 128 then 1
      else if 194 \<le> b \<and> b \<le> 223 then 2
      else if 224 \<le> b \<and> b \<le> 239 then 3
      else if 240 \<le> b \<and> b \<le> 244 then 4
      else 0)"

text \<open>
  The admissible range of the \<open>i\<close>-th continuation byte after lead byte \<open>b\<close>: the first
  continuation after \<open>E0\<close>, \<open>ED\<close>, \<open>F0\<close>, \<open>F4\<close> is narrowed to exclude overlong forms,
  surrogates and code points above \<open>U+10FFFF\<close>.
\<close>

definition utf8_cont_ok :: "nat \<Rightarrow> nat \<Rightarrow> nat \<Rightarrow> bool" where
  "utf8_cont_ok b i c =
     (if i = 0 \<and> b = 224 then 160 \<le> c \<and> c \<le> 191
      else if i = 0 \<and> b = 237 then 128 \<le> c \<and> c \<le> 159
      else if i = 0 \<and> b = 240 then 144 \<le> c \<and> c \<le> 191
      else if i = 0 \<and> b = 244 then 128 \<le> c \<and> c \<le> 143
      else 128 \<le> c \<and> c \<le> 191)"

fun utf8_conts_ok :: "nat \<Rightarrow> nat \<Rightarrow> nat list \<Rightarrow> bool" where
  "utf8_conts_ok b i [] = True"
| "utf8_conts_ok b i (c # cs) = (utf8_cont_ok b i c \<and> utf8_conts_ok b (Suc i) cs)"

text \<open>The code point of a lead byte and its continuation bytes.\<close>

definition utf8_cp :: "nat \<Rightarrow> nat list \<Rightarrow> nat" where
  "utf8_cp b cs =
     foldl (\<lambda>acc c. 64 * acc + c mod 64) (b mod 2 ^ (if cs = [] then 7 else 6 - length cs)) cs"

definition decode_error :: "nat \<Rightarrow> nat \<Rightarrow> string \<Rightarrow> exn" where
  "decode_error pos b reason =
     mk_exn UnicodeDecodeError
       (quoted (py ''utf-8'') @ py '' codec can'' @ [39] @ py ''t decode byte '' @ show_hex_byte b @
        py '' in position '' @ show_nat pos @ py '': '' @ py reason)"

fun utf8_dec :: "nat \<Rightarrow> nat list \<Rightarrow> exn + pystr" where
  "utf8_dec pos [] = Inr []"
| "utf8_dec pos (b # bs) =
     (let n = utf8_seq_len b; cs = take (n - 1) bs in
      if n = 0 then Inl (decode_error pos b ''invalid start byte'')
      else if \<not> utf8_conts_ok b 0 cs then Inl (decode_error pos b ''invalid continuation byte'')
      else if length cs < n - 1 then Inl (decode_error pos b ''unexpected end of data'')
      else (case utf8_dec (pos + n) (drop (n - 1) bs) of
              Inl e \<Rightarrow> Inl e
            | Inr s \<Rightarrow> Inr (utf8_cp b cs # s)))"

definition utf8_decode :: "bytes \<Rightarrow> exn + pystr" where
  "utf8_decode bs = utf8_dec 0 (map unat bs)"

section \<open>Encoding\<close>

fun utf8_encode_cp :: "nat \<Rightarrow> nat list" where
  "utf8_encode_cp c =
     (if c < 128 then [c]
      else if c < 2048 then [192 + c div 64, 128 + c mod 64]
      else if c < 65536 then [224 + c div 4096, 128 + c div 64 mod 64, 128 + c mod 64]
      else [240 + c div 262144, 128 + c div 4096 mod 64, 128 + c div 64 mod 64,
            128 + c mod 64])"

definition is_surrogate :: "nat \<Rightarrow> bool" where
  "is_surrogate c \<longleftrightarrow> 55296 \<le> c \<and> c \<le> 57343"

definition utf8_encode :: "pystr \<Rightarrow> exn + bytes" where
  "utf8_encode s =
     (case find (\<lambda>i. is_surrogate (s ! i)) [0..<length s] of
        Some i \<Rightarrow> Inl (mk_exn UnicodeEncodeError
                    (quoted (py ''utf-8'') @ py '' codec can'' @ [39] @
                     py ''t encode character in position '' @
                     show_nat i @ py '': surrogates not allowed''))
      | None \<Rightarrow> Inr (map of_nat (concat (map utf8_encode_cp s))))"

definition is_ascii :: "pystr \<Rightarrow> bool" where
  "is_ascii s \<longleftrightarrow> (\<forall>c\<in>set s. c < 128)"

text \<open>The code points a UTF-8 encoder accepts: below \<open>U+110000\<close> and not a surrogate.\<close>

definition encodable :: "nat \<Rightarrow> bool" where
  "encodable c \<longleftrightarrow> c < 1114112 \<and> \<not> is_surrogate c"

section \<open>Lemmas\<close>

lemma unat_of_nat_byte [simp]: "n < 256 \<Longrightarrow> unat (of_nat n :: 8 word) = n"
  by (simp add: unat_of_nat)

lemmas utf8_eval = utf8_decode_def utf8_seq_len_def utf8_cp_def utf8_cont_ok_def

lemma is_ascii_append [simp]: "is_ascii (a @ b) \<longleftrightarrow> is_ascii a \<and> is_ascii b"
  by (auto simp: is_ascii_def)

lemma is_ascii_Cons [simp]: "is_ascii (c # s) \<longleftrightarrow> c < 128 \<and> is_ascii s"
  and is_ascii_Nil [simp]: "is_ascii []"
  by (auto simp: is_ascii_def)

lemma concat_map_encode_ascii: "is_ascii s \<Longrightarrow> concat (map utf8_encode_cp s) = s"
  by (induction s) simp_all

lemma utf8_encode_ascii: "is_ascii s \<Longrightarrow> utf8_encode s = Inr (map of_nat s)"
proof -
  assume a: "is_ascii s"
  then have "find (\<lambda>i. is_surrogate (s ! i)) [0..<length s] = None"
    by (fastforce simp: find_None_iff is_ascii_def is_surrogate_def dest: nth_mem)
  with a show ?thesis
    by (simp add: utf8_encode_def concat_map_encode_ascii)
qed

lemma is_ascii_replicate [simp]: "is_ascii (replicate n c) \<longleftrightarrow> n = 0 \<or> c < 128"
  by (auto simp: is_ascii_def)

text \<open>ASCII bytes decode to themselves.\<close>

lemma utf8_dec_ascii:
  "is_ascii s \<Longrightarrow> utf8_dec pos (map unat (map (of_nat :: nat \<Rightarrow> 8 word) s)) = Inr s"
  by (induction s arbitrary: pos) (simp_all add: utf8_seq_len_def utf8_cp_def)

lemma utf8_decode_ascii: "is_ascii s \<Longrightarrow> utf8_decode (map of_nat s) = Inr s"
  using utf8_dec_ascii [of s 0] by (simp add: utf8_decode_def)

text \<open>Every decoding failure is a \<open>UnicodeDecodeError\<close>, hence a \<open>ValueError\<close>.\<close>

lemma utf8_dec_error: "utf8_dec pos bs = Inl e \<Longrightarrow> exc_type e = UnicodeDecodeError"
  by (induction pos bs rule: utf8_dec.induct)
     (auto simp: Let_def decode_error_def split: if_splits sum.splits)

lemma utf8_decode_error: "utf8_decode bs = Inl e \<Longrightarrow> isinstance e ValueError"
  by (auto simp: utf8_decode_def isinstance_def dest!: utf8_dec_error)

lemma utf8_encode_error: "utf8_encode s = Inl e \<Longrightarrow> exc_type e = UnicodeEncodeError"
  by (auto simp: utf8_encode_def split: option.splits)

subsection \<open>The round trip\<close>

text \<open>
  Each code point encodes to a lead byte announcing the sequence's length followed by
  continuation bytes in the admissible ranges, from which the decoder reassembles it; the
  arithmetic works on the base-64 digits of the code point.
\<close>

lemma mod_offset: "(k * n + x) mod n = x mod (n::nat)"
  by simp

lemma cp_dec_2:
  assumes "128 \<le> c" "c < 2048"
  shows "utf8_seq_len (192 + c div 64) = 2 \<and> utf8_conts_ok (192 + c div 64) 0 [128 + c mod 64] \<and>
         utf8_cp (192 + c div 64) [128 + c mod 64] = c"
proof -
  have a: "2 \<le> c div 64"
    using div_le_mono [OF assms(1), of 64] by simp
  have b: "c div 64 < 32"
    using assms by (intro less_mult_imp_div_less) simp
  have "(192 + c div 64) mod 32 = c div 64"
    using mod_offset [of 6 32 "c div 64"] b by simp
  moreover have "(128 + c mod 64) mod 64 = c mod 64"
    using mod_offset [of 2 64 "c mod 64"] by simp
  ultimately show ?thesis
    using a b by (simp add: utf8_seq_len_def utf8_cont_ok_def utf8_cp_def mult_div_mod_eq)
qed


lemma split3:
  "(c::nat) = 4096 * (c div 4096) + 64 * (c div 64 mod 64) + c mod 64"
proof -
  have "c div 64 div 64 = c div 4096"
    by (simp add: div_mult2_eq [symmetric])
  then have b: "c div 64 = 64 * (c div 4096) + c div 64 mod 64"
    by (metis mult_div_mod_eq)
  have a: "c = 64 * (c div 64) + c mod 64"
    by simp
  from a b show ?thesis
    by linarith
qed

lemma cp_dec_3:
  assumes "2048 \<le> c" "c < 65536" "\<not> is_surrogate c"
  shows "utf8_seq_len (224 + c div 4096) = 3 \<and>
         utf8_conts_ok (224 + c div 4096) 0 [128 + c div 64 mod 64, 128 + c mod 64] \<and>
         utf8_cp (224 + c div 4096) [128 + c div 64 mod 64, 128 + c mod 64] = c"
proof -
  define q m l where "q = c div 4096" and "m = c div 64 mod 64" and "l = c mod 64"
  have c: "c = 4096 * q + 64 * m + l"
    unfolding q_def m_def l_def by (rule split3)
  have ml: "m < 64" "l < 64"
    by (simp_all add: m_def l_def)
  have q: "q < 16"
    using assms(2) by (simp add: q_def less_mult_imp_div_less)
  have mq: "(224 + q) mod 16 = q"
    using mod_offset [of 14 16 q] q by simp
  have mm: "(128 + m) mod 64 = m" "(128 + l) mod 64 = l"
    using mod_offset [of 2 64 m] mod_offset [of 2 64 l] ml by simp_all
  have lo: "q = 0 \<Longrightarrow> 32 \<le> m"
    using c ml assms(1) by linarith
  have hi: "q = 13 \<Longrightarrow> m \<le> 31"
    using c ml assms(3) by (auto simp: is_surrogate_def)
  have s1: "utf8_seq_len (224 + q) = 3"
    using q by (simp add: utf8_seq_len_def)
  have s2: "utf8_conts_ok (224 + q) 0 [128 + m, 128 + l]"
    using q ml lo hi by (auto simp: utf8_cont_ok_def)
  have s3: "utf8_cp (224 + q) [128 + m, 128 + l] = c"
    using mq mm c by (simp add: utf8_cp_def)
  from s1 s2 s3 show ?thesis
    unfolding q_def m_def l_def by simp
qed


lemma split4:
  "(c::nat) = 262144 * (c div 262144) + 4096 * (c div 4096 mod 64) + 64 * (c div 64 mod 64) + c mod 64"
proof -
  have "c div 4096 div 64 = c div 262144"
    by (simp add: div_mult2_eq [symmetric])
  then have b: "c div 4096 = 64 * (c div 262144) + c div 4096 mod 64"
    by (metis mult_div_mod_eq)
  have a: "c = 4096 * (c div 4096) + 64 * (c div 64 mod 64) + c mod 64"
    by (rule split3)
  from a b show ?thesis
    by linarith
qed

lemma cp_dec_4:
  assumes "65536 \<le> c" "c < 1114112"
  shows "utf8_seq_len (240 + c div 262144) = 4 \<and>
         utf8_conts_ok (240 + c div 262144) 0
           [128 + c div 4096 mod 64, 128 + c div 64 mod 64, 128 + c mod 64] \<and>
         utf8_cp (240 + c div 262144) [128 + c div 4096 mod 64, 128 + c div 64 mod 64, 128 + c mod 64] = c"
proof -
  define p q m l where "p = c div 262144" and "q = c div 4096 mod 64" and "m = c div 64 mod 64"
    and "l = c mod 64"
  have c: "c = 262144 * p + 4096 * q + 64 * m + l"
    unfolding p_def q_def m_def l_def by (rule split4)
  have qml: "q < 64" "m < 64" "l < 64"
    by (simp_all add: q_def m_def l_def)
  have p: "p < 5"
    using assms(2) by (simp add: p_def less_mult_imp_div_less)
  have mp: "(240 + p) mod 8 = p"
    using mod_offset [of 30 8 p] p by simp
  have mm: "(128 + q) mod 64 = q" "(128 + m) mod 64 = m" "(128 + l) mod 64 = l"
    using mod_offset [of 2 64 q] mod_offset [of 2 64 m] mod_offset [of 2 64 l] qml by simp_all
  have lo: "p = 0 \<Longrightarrow> 16 \<le> q"
    using c qml assms(1) by linarith
  have hi: "p = 4 \<Longrightarrow> q \<le> 15"
    using c qml assms(2) by linarith
  have s1: "utf8_seq_len (240 + p) = 4"
    using p by (simp add: utf8_seq_len_def)
  have s2: "utf8_conts_ok (240 + p) 0 [128 + q, 128 + m, 128 + l]"
    using p qml lo hi by (auto simp: utf8_cont_ok_def)
  have s3: "utf8_cp (240 + p) [128 + q, 128 + m, 128 + l] = c"
    using mp mm c by (simp add: utf8_cp_def)
  from s1 s2 s3 show ?thesis
    unfolding p_def q_def m_def l_def by simp
qed


lemma utf8_dec_prefix:
  assumes "utf8_seq_len b = Suc (length cs)" "utf8_conts_ok b 0 cs"
  shows "utf8_dec pos (b # cs @ rest) =
           (case utf8_dec (pos + Suc (length cs)) rest of Inl e \<Rightarrow> Inl e | Inr s \<Rightarrow> Inr (utf8_cp b cs # s))"
  using assms by (simp add: Let_def cong: sum.case_cong)

lemma utf8_dec_cp:
  assumes "encodable c"
  shows "utf8_dec pos (utf8_encode_cp c @ rest) =
           (case utf8_dec (pos + length (utf8_encode_cp c)) rest of
              Inl e \<Rightarrow> Inl e | Inr s \<Rightarrow> Inr (c # s))"
proof -
  consider "c < 128" | "128 \<le> c" "c < 2048" | "2048 \<le> c" "c < 65536" | "65536 \<le> c"
    by linarith
  then show ?thesis
  proof cases
    case 1
    then show ?thesis
      by (simp add: utf8_seq_len_def utf8_cp_def cong: sum.case_cong)
  next
    case 2
    then show ?thesis
      using cp_dec_2 [OF 2] utf8_dec_prefix [of "192 + c div 64" "[128 + c mod 64]" pos rest]
      by (simp cong: sum.case_cong)
  next
    case 3
    with assms have "\<not> is_surrogate c"
      by (simp add: encodable_def)
    with 3 show ?thesis
      using cp_dec_3 [of c] utf8_dec_prefix [of "224 + c div 4096" "[128 + c div 64 mod 64, 128 + c mod 64]" pos rest]
      by (simp cong: sum.case_cong)
  next
    case 4
    with assms have "c < 1114112"
      by (simp add: encodable_def)
    with 4 show ?thesis
      using cp_dec_4 [of c]
        utf8_dec_prefix [of "240 + c div 262144" "[128 + c div 4096 mod 64, 128 + c div 64 mod 64, 128 + c mod 64]" pos rest]
      by (simp cong: sum.case_cong)
  qed
qed

lemma utf8_encode_cp_byte:
  "encodable c \<Longrightarrow> x \<in> set (utf8_encode_cp c) \<Longrightarrow> x < 256"
proof -
  assume "encodable c" "x \<in> set (utf8_encode_cp c)"
  moreover have "c < 1114112 \<Longrightarrow> c div 262144 < 5"
    by (simp add: less_mult_imp_div_less)
  moreover have "c < 65536 \<Longrightarrow> c div 4096 < 16"
    by (simp add: less_mult_imp_div_less)
  moreover have "c < 2048 \<Longrightarrow> c div 64 < 32"
    by (simp add: less_mult_imp_div_less)
  ultimately show ?thesis
    by (auto simp: encodable_def split: if_splits)
qed

lemma utf8_dec_encoded:
  "\<forall>c\<in>set s. encodable c \<Longrightarrow> utf8_dec pos (concat (map utf8_encode_cp s)) = Inr s"
  by (induction s arbitrary: pos)
     (simp, simp add: utf8_dec_cp del: utf8_encode_cp.simps utf8_dec.simps)

lemma map_unat_of_nat_bytes:
  "\<forall>x\<in>set xs. x < 256 \<Longrightarrow> map unat (map (of_nat :: nat \<Rightarrow> 8 word) xs) = xs"
  by (induction xs) simp_all

lemma utf8_encode_encodable:
  "\<forall>c\<in>set s. encodable c \<Longrightarrow> utf8_encode s = Inr (map of_nat (concat (map utf8_encode_cp s)))"
proof -
  assume a: "\<forall>c\<in>set s. encodable c"
  then have "find (\<lambda>i. is_surrogate (s ! i)) [0..<length s] = None"
    by (fastforce simp: find_None_iff encodable_def dest: nth_mem)
  then show ?thesis
    by (simp add: utf8_encode_def)
qed

text \<open>
  Encoding a string of encodable code points (below U+110000, no surrogate) with
  \<open>str.encode('utf-8')\<close> succeeds, and \<open>bytes.decode('utf-8')\<close> gives the string back: the
  codecs of \<open>HttpResponse\<close> and \<open>get_json\<close> are inverse on well-formed text.
\<close>

lemma utf8_encode_decode:
  assumes "\<forall>c\<in>set s. encodable c"
  shows "\<exists>bs. utf8_encode s = Inr bs \<and> utf8_decode bs = Inr s"
proof -
  have "\<forall>x\<in>set (concat (map utf8_encode_cp s)). x < 256"
    using assms utf8_encode_cp_byte by (auto simp del: utf8_encode_cp.simps)
  then have "map unat (map (of_nat :: nat \<Rightarrow> 8 word) (concat (map utf8_encode_cp s))) =
               concat (map utf8_encode_cp s)"
    by (rule map_unat_of_nat_bytes)
  then have "utf8_decode (map of_nat (concat (map utf8_encode_cp s))) = Inr s"
    unfolding utf8_decode_def using utf8_dec_encoded [OF assms, of 0] by (simp only:)
  with utf8_encode_encodable [OF assms] show ?thesis
    by blast
qed

end
