(* ===== verification/JsonLoads.thy ===== *)
theory JsonLoads
  imports Utf8
begin

text \<open>
  \<open>json.loads\<close> of CPython 3.12 (\<open>json/decoder.py\<close> with the C scanner of
  \<open>Modules/_json.c\<close>), the second half of \<open>HttpRequest.get_json\<close>. The scanner's mutual
  recursion (\<open>scan_once\<close>, \<open>JSONObject\<close>, \<open>JSONArray\<close>) is written as a loop over an
  explicit stack of open containers (\<open>frame\<close>): each iteration skips whitespace and
  dispatches on one character exactly as the corresponding Python branch does, so the
  values produced and the class of every error are those of CPython. Errors inside the
  scanner are \<open>jerr\<close>: a \<open>JSONDecodeError\<close> message with its position, or an exception
  raised by the conversions (\<open>int()\<close> beyond 4300 digits raises \<open>ValueError\<close>) or by the
  interpreter (\<open>RecursionError\<close> when the nesting exceeds the remaining recursion budget
  \<open>dl\<close>). Floats are exact rationals, except that a literal too small for a double reads
  as \<open>0.0\<close> and one too large as an infinity.
\<close>

section \<open>Lexical level\<close>

datatype jerr = Decode string nat | Raised exn

definition is_ws :: "nat \<Rightarrow> bool" where
  "is_ws c \<longleftrightarrow> c = 32 \<or> c = 9 \<or> c = 10 \<or> c = 13"

definition hex_val :: "nat \<Rightarrow> nat option" where
  "hex_val c =
     (if 48 \<le> c \<and> c \<le> 57 then Some (c - 48)
      else if 97 \<le> c \<and> c \<le> 102 then Some (c - 87)
      else if 65 \<le> c \<and> c \<le> 70 then Some (c - 55)
      else None)"

text \<open>Four hex digits of a \<open>\\uXXXX\<close> escape.\<close>

definition hex4 :: "pystr \<Rightarrow> nat option" where
  "hex4 s =
     (if length s < 4 then None
      else (case those (map hex_val (take 4 s)) of
              None \<Rightarrow> None
            | Some ds \<Rightarrow> Some (foldl (\<lambda>acc d. 16 * acc + d) 0 ds)))"

definition simple_escape :: "nat \<Rightarrow> nat option" where
  "simple_escape e =
     (if e = 34 then Some 34 else if e = 92 then Some 92 else if e = 47 then Some 47
      else if e = 98 then Some 8 else if e = 102 then Some 12 else if e = 110 then Some 10
      else if e = 114 then Some 13 else if e = 116 then Some 9 else None)"

text \<open>
  The body of a string literal after its opening quote at \<open>st\<close>, accumulating the code
  points in reverse (\<open>scanstring\<close>, strict mode). A high surrogate escape directly
  followed by a low surrogate escape is joined into one code point.
\<close>

fun lex_str :: "nat \<Rightarrow> pystr \<Rightarrow> pystr \<Rightarrow> nat \<Rightarrow> jerr + (pystr \<times> pystr \<times> nat)" where
  "lex_str st acc [] p = Inl (Decode ''Unterminated string starting at'' st)"
| "lex_str st acc (c # s) p =
     (if c = 34 then Inr (rev acc, s, Suc p)
      else if c = 92 then
        (case s of
           [] \<Rightarrow> Inl (Decode ''Unterminated string starting at'' st)
         | e # s' \<Rightarrow>
             (if e = 117 then
                (case hex4 s' of
                   None \<Rightarrow> Inl (Decode (''Invalid '' @ [CHR 0x5C] @ ''uXXXX escape'') (Suc p))
                 | Some u \<Rightarrow>
                     (if 55296 \<le> u \<and> u \<le> 56319 \<and> take 2 (drop 4 s') = [92, 117] then
                        (case hex4 (drop 6 s') of
                           None \<Rightarrow> Inl (Decode (''Invalid '' @ [CHR 0x5C] @ ''uXXXX escape'') (p + 7))
                         | Some u2 \<Rightarrow>
                             (if 56320 \<le> u2 \<and> u2 \<le> 57343 then
                                lex_str st ((65536 + (u - 55296) * 1024 + (u2 - 56320)) # acc)
                                  (drop 10 s') (p + 12)
                              else lex_str st (u # acc) (drop 4 s') (p + 6)))
                      else lex_str st (u # acc) (drop 4 s') (p + 6)))
              else (case simple_escape e of
                      None \<Rightarrow> Inl (Decode (''Invalid '' @ [CHR 0x5C] @ ''escape'') p)
                    | Some x \<Rightarrow> lex_str st (x # acc) s' (p + 2))))
      else if c < 32 then Inl (Decode ''Invalid control character at'' p)
      else lex_str st (c # acc) s (Suc p))"

text \<open>
  Numbers: the regular expression \<open>(-?(?:0|[1-9]\d*))(\.\d+)?([eE][-+]?\d+)?\<close>. Without
  fraction or exponent the literal is an \<open>int\<close> (at most 4300 digits, else
  \<open>ValueError\<close>); otherwise it is \<open>float(...)\<close>.
\<close>

definition int_max_str_digits :: nat where
  "int_max_str_digits = 4300"

definition py_float_of_rat :: "rat \<Rightarrow> pyfloat" where
  "py_float_of_rat q =
     (if \<bar>q\<bar> \<le> 1 / 2 ^ 1075 then Finite 0
      else if 2 ^ 1024 - 2 ^ 970 \<le> \<bar>q\<bar> then (if 0 < q then PosInf else NegInf)
      else Finite q)"

definition digits_of :: "pystr \<Rightarrow> nat list" where
  "digits_of s = map (\<lambda>c. c - 48) s"

text \<open>The integer part after the optional sign: \<open>0\<close> or a digit run not starting with \<open>0\<close>.\<close>

definition num_int_part :: "pystr \<Rightarrow> (pystr \<times> pystr) option" where
  "num_int_part s =
     (case s of
        [] \<Rightarrow> None
      | c # r \<Rightarrow> (if c = 48 then Some ([48], r)
                 else if is_digit c then Some (takeWhile is_digit s, dropWhile is_digit s)
                 else None))"

definition num_frac_part :: "pystr \<Rightarrow> pystr \<times> pystr" where
  "num_frac_part s =
     (case s of
        c # d # r \<Rightarrow>
          (if c = 46 \<and> is_digit d
           then (takeWhile is_digit (d # r), dropWhile is_digit (d # r)) else ([], s))
      | _ \<Rightarrow> ([], s))"

text \<open>The exponent: its sign, its digits and the rest; no digits means no exponent.\<close>

definition num_exp_part :: "pystr \<Rightarrow> (bool \<times> pystr) option \<times> pystr" where
  "num_exp_part s =
     (case s of
        e # r \<Rightarrow>
          (if e = 101 \<or> e = 69 then
             (let neg = (r \<noteq> [] \<and> hd r = 45);
                  r' = (if r \<noteq> [] \<and> (hd r = 43 \<or> hd r = 45) then tl r else r)
              in if r' \<noteq> [] \<and> is_digit (hd r')
                 then (Some (neg, takeWhile is_digit r'), dropWhile is_digit r')
                 else (None, s))
           else (None, s))
      | [] \<Rightarrow> (None, s))"

definition num_value :: "bool \<Rightarrow> pystr \<Rightarrow> pystr \<Rightarrow> (bool \<times> pystr) option \<Rightarrow> jerr + pyval" where
  "num_value neg ip fp ex =
     (if fp = [] \<and> ex = None then
        (if int_max_str_digits < length ip then
           Inl (Raised (mk_exn ValueError
                 (py ''Exceeds the limit (4300 digits) for integer string conversion'')))
         else Inr (PInt ((if neg then -1 else 1) * int (digits_value (digits_of ip)))))
      else
        (let m = rat_of_nat (digits_value (digits_of (ip @ fp))) / 10 ^ length fp;
             e = (case ex of None \<Rightarrow> 0
                  | Some (eneg, ds) \<Rightarrow> (if eneg then - int (digits_value (digits_of ds))
                                       else int (digits_value (digits_of ds))));
             q = (if 0 \<le> e then m * 10 ^ nat e else m / 10 ^ nat (- e))
         in Inr (PFloat (py_float_of_rat (if neg then - q else q)))))"

text \<open>\<open>None\<close> when no number starts here (the scanner then tries the named constants).\<close>

definition lex_number :: "pystr \<Rightarrow> nat \<Rightarrow> (jerr + (pyval \<times> pystr \<times> nat)) option" where
  "lex_number s p =
     (let neg = (s \<noteq> [] \<and> hd s = 45); s1 = (if neg then tl s else s) in
      case num_int_part s1 of
        None \<Rightarrow> None
      | Some (ip, r1) \<Rightarrow>
          (let (fp, r2) = num_frac_part r1;
               (ex, r3) = num_exp_part r2
           in Some (case num_value neg ip fp ex of
                      Inl e \<Rightarrow> Inl e
                    | Inr v \<Rightarrow> Inr (v, r3, p + (length s - length r3)))))"

section \<open>The scanner loop\<close>

datatype frame =
    FArr "pyval list"
  | FObj "(pystr \<times> pyval) list"
  | FKey "(pystr \<times> pyval) list" pystr

text \<open>
  What the scanner expects next: a value (\<open>MValue\<close>), a value or \<open>]\<close> right after
  \<open>[\<close>, a key or \<open>}\<close> right after \<open>{\<close>, a key after a comma, the colon after a key,
  or a comma or closing bracket after a member.
\<close>

datatype mode = MValue | MArrFirst | MObjFirst | MKey | MColon | MAfter

datatype step = Continue mode "frame list" pystr nat | Finished pyval pystr nat

definition eof_msg :: "mode \<Rightarrow> string" where
  "eof_msg m =
     (case m of
        MValue \<Rightarrow> ''Expecting value''
      | MArrFirst \<Rightarrow> ''Expecting value''
      | MObjFirst \<Rightarrow> ''Expecting property name enclosed in double quotes''
      | MKey \<Rightarrow> ''Expecting property name enclosed in double quotes''
      | MColon \<Rightarrow> ''Expecting '' @ [CHR 0x27, CHR '':'', CHR 0x27] @ '' delimiter''
      | MAfter \<Rightarrow> ''Expecting '' @ [CHR 0x27, CHR '','', CHR 0x27] @ '' delimiter'')"

text \<open>A completed value goes into the enclosing container, or ends the scan.\<close>

fun reduce :: "pyval \<Rightarrow> frame list \<Rightarrow> pystr \<Rightarrow> nat \<Rightarrow> jerr + step" where
  "reduce v [] r q = Inr (Finished v r q)"
| "reduce v (FArr xs # st) r q = Inr (Continue MAfter (FArr (xs @ [v]) # st) r q)"
| "reduce v (FKey d k # st) r q = Inr (Continue MAfter (FObj (dict_set d k v) # st) r q)"
| "reduce v (FObj d # st) r q = Inl (Decode (eof_msg MColon) q)"

text \<open>
  Entering a container is a recursive call of the C scanner (\<open>_Py_EnterRecursiveCall\<close>),
  which raises \<open>RecursionError\<close> once the nesting reaches the remaining budget.
\<close>

definition depth_error :: "frame \<Rightarrow> exn" where
  "depth_error f =
     mk_exn RecursionError
       (py (''maximum recursion depth exceeded while decoding a JSON '' @
            (case f of FArr _ \<Rightarrow> ''array'' | _ \<Rightarrow> ''object'') @ '' from a unicode string''))"

definition push :: "nat \<Rightarrow> frame \<Rightarrow> mode \<Rightarrow> frame list \<Rightarrow> pystr \<Rightarrow> nat \<Rightarrow> jerr + step" where
  "push dl f m st r q =
     (if dl \<le> length st then Inl (Raised (depth_error f))
      else Inr (Continue m (f # st) r q))"

text \<open>\<open>scan_once\<close>: a value starting with character \<open>c\<close> at position \<open>p\<close>.\<close>

definition value_start :: "nat \<Rightarrow> frame list \<Rightarrow> nat \<Rightarrow> pystr \<Rightarrow> nat \<Rightarrow> jerr + step" where
  "value_start dl st c r p =
     (if c = 34 then
        (case lex_str p [] r (Suc p) of
           Inl e \<Rightarrow> Inl e
         | Inr (s, r', p') \<Rightarrow> reduce (PStr s) st r' p')
      else if c = 123 then push dl (FObj []) MObjFirst st r (Suc p)
      else if c = 91 then push dl (FArr []) MArrFirst st r (Suc p)
      else if c = 110 \<and> take 3 r = py ''ull'' then reduce PNone st (drop 3 r) (p + 4)
      else if c = 116 \<and> take 3 r = py ''rue'' then reduce (PBool True) st (drop 3 r) (p + 4)
      else if c = 102 \<and> take 4 r = py ''alse'' then reduce (PBool False) st (drop 4 r) (p + 5)
      else (case lex_number (c # r) p of
              Some (Inl e) \<Rightarrow> Inl e
            | Some (Inr (v, r', p')) \<Rightarrow> reduce v st r' p'
            | None \<Rightarrow>
                (if c = 78 \<and> take 2 r = py ''aN'' then reduce (PFloat NaN) st (drop 2 r) (p + 3)
                 else if c = 73 \<and> take 7 r = py ''nfinity''
                 then reduce (PFloat PosInf) st (drop 7 r) (p + 8)
                 else if c = 45 \<and> take 8 r = py ''Infinity''
                 then reduce (PFloat NegInf) st (drop 8 r) (p + 9)
                 else Inl (Decode ''Expecting value'' p))))"

text \<open>A key string starting at \<open>p\<close>; it replaces the object frame by a key frame.\<close>

definition key_start :: "(pystr \<times> pyval) list \<Rightarrow> frame list \<Rightarrow> pystr \<Rightarrow> nat \<Rightarrow> jerr + step" where
  "key_start d st r p =
     (case lex_str p [] r (Suc p) of
        Inl e \<Rightarrow> Inl e
      | Inr (k, r', p') \<Rightarrow> Inr (Continue MColon (FKey d k # st) r' p'))"

definition key_msg :: string where
  "key_msg = ''Expecting property name enclosed in double quotes''"

fun dispatch :: "nat \<Rightarrow> mode \<Rightarrow> frame list \<Rightarrow> nat \<Rightarrow> pystr \<Rightarrow> nat \<Rightarrow> jerr + step" where
  "dispatch dl MValue st c r p = value_start dl st c r p"
| "dispatch dl MArrFirst st c r p =
     (case st of
        FArr xs # st' \<Rightarrow> (if c = 93 then reduce (PList xs) st' r (Suc p)
                          else value_start dl st c r p)
      | _ \<Rightarrow> value_start dl st c r p)"
| "dispatch dl MObjFirst st c r p =
     (case st of
        FObj d # st' \<Rightarrow> (if c = 125 then reduce (PDict d) st' r (Suc p)
                         else if c = 34 then key_start d st' r p
                         else Inl (Decode key_msg p))
      | _ \<Rightarrow> Inl (Decode key_msg p))"
| "dispatch dl MKey st c r p =
     (case st of
        FObj d # st' \<Rightarrow> (if c = 34 then key_start d st' r p else Inl (Decode key_msg p))
      | _ \<Rightarrow> Inl (Decode key_msg p))"
| "dispatch dl MColon st c r p =
     (if c = 58 then Inr (Continue MValue st r (Suc p)) else Inl (Decode (eof_msg MColon) p))"
| "dispatch dl MAfter st c r p =
     (case st of
        FArr xs # st' \<Rightarrow> (if c = 44 then Inr (Continue MValue st r (Suc p))
                          else if c = 93 then reduce (PList xs) st' r (Suc p)
                          else Inl (Decode (eof_msg MAfter) p))
      | FObj d # st' \<Rightarrow> (if c = 44 then Inr (Continue MKey st r (Suc p))
                         else if c = 125 then reduce (PDict d) st' r (Suc p)
                         else Inl (Decode (eof_msg MAfter) p))
      | _ \<Rightarrow> Inl (Decode (eof_msg MAfter) p))"

text \<open>One iteration: skip whitespace, then dispatch on the next character.\<close>

definition json_step :: "nat \<Rightarrow> mode \<Rightarrow> frame list \<Rightarrow> pystr \<Rightarrow> nat \<Rightarrow> jerr + step" where
  "json_step dl m st s p =
     (let s1 = dropWhile is_ws s; p1 = p + (length s - length s1) in
      case s1 of
        [] \<Rightarrow> Inl (Decode (eof_msg m) p1)
      | c # r \<Rightarrow> dispatch dl m st c r p1)"


section \<open>The loop terminates\<close>

text \<open>
  Every iteration that continues consumes at least the character it dispatched on, so the
  length of the remaining input is a termination measure for the scanner loop.
\<close>

lemma lex_str_shorter: "lex_str st acc s p = Inr (x, r, q) \<Longrightarrow> length r < length s"
proof (induction st acc s p arbitrary: x r q rule: lex_str.induct)
  case (1 st acc p)
  then show ?case by simp
next
  case (2 st acc c s p)
  show ?case
    using "2.prems" "2.IH"
    by (fastforce split: if_splits list.splits option.splits)
qed

lemma length_dropWhile_lt_Suc [simp]: "length (dropWhile P xs) < Suc (length xs)"
  using length_dropWhile_le [of P xs] by simp

lemma length_dropWhile_le_Suc [simp]: "length (dropWhile P xs) \<le> Suc (length xs)"
  using length_dropWhile_le [of P xs] by simp

lemma length_dropWhile_tl [simp]: "length (dropWhile P (tl xs)) \<le> length xs"
  using length_dropWhile_le [of P "tl xs"] by simp

lemma num_int_part_shorter: "num_int_part s = Some (ip, r) \<Longrightarrow> length r < length s \<and> ip \<noteq> []"
  by (auto simp: num_int_part_def is_digit_def split: list.splits if_splits)

lemma num_frac_part_le: "num_frac_part s = (fp, r) \<Longrightarrow> length r \<le> length s"
  using length_dropWhile_le [of is_digit]
  by (auto simp: num_frac_part_def split: list.splits if_splits intro: le_SucI)

lemma num_exp_part_le: "num_exp_part s = (ex, r) \<Longrightarrow> length r \<le> length s"
  using length_dropWhile_le [of is_digit]
  by (auto simp: num_exp_part_def Let_def split: list.splits if_splits
           intro: le_SucI order_trans)

lemma lex_number_shorter:
  "lex_number s p = Some (Inr (v, r, q)) \<Longrightarrow> length r < length s"
proof -
  assume a: "lex_number s p = Some (Inr (v, r, q))"
  define neg where "neg = (s \<noteq> [] \<and> hd s = 45)"
  define s1 where "s1 = (if neg then tl s else s)"
  have s1: "length s1 \<le> length s"
    by (simp add: s1_def)
  from a obtain ip r1 where ip: "num_int_part s1 = Some (ip, r1)"
    by (auto simp: lex_number_def Let_def neg_def s1_def split: option.splits)
  obtain fp r2 where fp: "num_frac_part r1 = (fp, r2)"
    by fastforce
  obtain ex r3 where ex: "num_exp_part r2 = (ex, r3)"
    by fastforce
  from a ip fp ex have "r = r3"
    by (auto simp: lex_number_def Let_def neg_def s1_def split: sum.splits)
  moreover have "length r1 < length s1"
    using num_int_part_shorter [OF ip] by simp
  moreover have "length r2 \<le> length r1"
    by (rule num_frac_part_le [OF fp])
  moreover have "length r3 \<le> length r2"
    by (rule num_exp_part_le [OF ex])
  ultimately show ?thesis
    using s1 by simp
qed

lemma reduce_rest: "reduce v st r q = Inr (Continue m st' r' q') \<Longrightarrow> r' = r"
  by (cases "(v, st, r, q)" rule: reduce.cases) auto

lemma push_rest: "push dl f m st r q = Inr (Continue m' st' r' q') \<Longrightarrow> r' = r"
  by (auto simp: push_def split: if_splits)

lemma value_start_shorter:
  "value_start dl st c r p = Inr (Continue m st' r' q) \<Longrightarrow> length r' \<le> length r"
  by (auto simp: value_start_def dest!: reduce_rest push_rest lex_str_shorter lex_number_shorter
           split: if_splits sum.splits option.splits prod.splits)

lemma dispatch_shorter:
  "dispatch dl m st c r p = Inr (Continue m' st' r' q) \<Longrightarrow> length r' \<le> length r"
  by (cases "(dl, m, st, c, r, p)" rule: dispatch.cases)
     (auto simp: key_start_def dest!: value_start_shorter reduce_rest lex_str_shorter
           split: if_splits sum.splits list.splits frame.splits prod.splits)

lemma json_step_shorter:
  "json_step dl m st s p = Inr (Continue m' st' r q) \<Longrightarrow> length r < length s"
proof -
  assume a: "json_step dl m st s p = Inr (Continue m' st' r q)"
  then obtain c r0 where s1: "dropWhile is_ws s = c # r0"
    by (auto simp: json_step_def Let_def split: list.splits)
  with a have "dispatch dl m st c r0 (p + (length s - length (c # r0))) = Inr (Continue m' st' r q)"
    by (simp add: json_step_def)
  then have "length r \<le> length r0"
    by (rule dispatch_shorter)
  moreover have "length (c # r0) \<le> length s"
    using length_dropWhile_le [of is_ws s] s1 by simp
  ultimately show ?thesis
    by simp
qed

function json_run :: "nat \<Rightarrow> mode \<Rightarrow> frame list \<Rightarrow> pystr \<Rightarrow> nat \<Rightarrow> jerr + (pyval \<times> pystr \<times> nat)" where
  "json_run dl m st s p =
     (case json_step dl m st s p of
        Inl e \<Rightarrow> Inl e
      | Inr (Finished v r q) \<Rightarrow> Inr (v, r, q)
      | Inr (Continue m' st' r q) \<Rightarrow> json_run dl m' st' r q)"
  by pat_completeness auto
termination
  by (relation "measure (\<lambda>(dl, m, st, s, p). length s)") (auto dest: json_step_shorter)


definition jerr_exn :: "pystr \<Rightarrow> jerr \<Rightarrow> exn" where
  "jerr_exn doc e =
     (case e of
        Raised x \<Rightarrow> x
      | Decode msg pos \<Rightarrow>
          (let pre = take pos doc;
               lineno = count_list pre 10 + 1;
               colno = length (takeWhile (\<lambda>c. c \<noteq> 10) (rev pre)) + 1
           in mk_exn JSONDecodeError
                (py msg @ py '': line '' @ show_nat lineno @ py '' column '' @ show_nat colno @
                 py '' (char '' @ show_nat pos @ py '')'')))"

text \<open>
  \<open>json.loads(doc)\<close>: a leading byte order mark is refused, the value is scanned from the
  first non-blank character, and only whitespace may follow it (\<open>"Extra data"\<close>).
\<close>

definition json_loads :: "nat \<Rightarrow> pystr \<Rightarrow> exn + pyval" where
  "json_loads dl doc =
     (if doc \<noteq> [] \<and> hd doc = 65279 then
        Inl (jerr_exn doc (Decode ''Unexpected UTF-8 BOM (decode using utf-8-sig)'' 0))
      else (case json_run dl MValue [] doc 0 of
              Inl e \<Rightarrow> Inl (jerr_exn doc e)
            | Inr (v, r, q) \<Rightarrow>
                (let r' = dropWhile is_ws r in
                 if r' = [] then Inr v
                 else Inl (jerr_exn doc (Decode ''Extra data'' (q + (length r - length r')))))))"

text \<open>
  The exceptions the scanner can raise: a \<open>JSONDecodeError\<close> (a \<open>ValueError\<close>), the
  \<open>ValueError\<close> of an over-long integer, or the \<open>RecursionError\<close> of too deep a nesting.
\<close>

definition jerr_class_ok :: "jerr \<Rightarrow> bool" where
  "jerr_class_ok e \<longleftrightarrow>
     (case e of Decode m q \<Rightarrow> True
      | Raised x \<Rightarrow> isinstance x ValueError \<or> exc_type x = RecursionError)"

declare json_run.simps [simp del]

text \<open>The rules that evaluate the decoder on a concrete document by rewriting.\<close>

lemmas json_eval =
  json_loads_def json_run.simps json_step_def is_ws_def value_start_def lex_number_def
  num_int_part_def num_frac_part_def num_exp_part_def num_value_def push_def depth_error_def key_start_def
  hex4_def simple_escape_def Let_def eof_msg_def key_msg_def jerr_exn_def is_digit_def
  digits_of_def digits_value_def int_max_str_digits_def hex_val_def


section \<open>Which exceptions \<open>json.loads\<close> raises\<close>

lemma num_value_error: "num_value neg ip fp ex = Inl e \<Longrightarrow> jerr_class_ok e"
  by (auto simp: num_value_def Let_def jerr_class_ok_def split: if_splits)

lemma lex_number_Inl:
  assumes "lex_number s p = Some (Inl e)"
  shows "\<exists>neg ip fp ex. num_value neg ip fp ex = Inl e"
proof -
  define neg where "neg = (s \<noteq> [] \<and> hd s = 45)"
  define s1 where "s1 = (if neg then tl s else s)"
  from assms obtain ip r1 where ip: "num_int_part s1 = Some (ip, r1)"
    by (auto simp: lex_number_def Let_def neg_def s1_def split: option.splits)
  obtain fp r2 where fp: "num_frac_part r1 = (fp, r2)"
    by fastforce
  obtain ex r3 where ex: "num_exp_part r2 = (ex, r3)"
    by fastforce
  from assms ip fp ex have "num_value neg ip fp ex = Inl e"
    by (auto simp: lex_number_def Let_def neg_def s1_def split: sum.splits)
  then show ?thesis
    by blast
qed

lemma lex_number_error: "lex_number s p = Some (Inl e) \<Longrightarrow> jerr_class_ok e"
  using lex_number_Inl num_value_error by blast

lemma jerr_class_ok_Decode [simp]: "jerr_class_ok (Decode m q)"
  by (simp add: jerr_class_ok_def)

lemma lex_str_error: "lex_str st acc s p = Inl e \<Longrightarrow> jerr_class_ok e"
proof (induction st acc s p rule: lex_str.induct)
  case (1 st acc p)
  then show ?case by auto
next
  case (2 st acc c s p)
  note IH = "2.IH" and P = "2.prems"
  show ?case
  proof (cases "c = 92")
    case False
    then show ?thesis
      using P IH(5) by (auto split: if_splits)
  next
    case bs: True
    show ?thesis
    proof (cases s)
      case Nil
      then show ?thesis using P bs by auto
    next
      case (Cons x s')
      show ?thesis
      proof (cases "x = 117")
        case False
        then show ?thesis
          using P IH(4) bs Cons by (auto split: option.splits)
      next
        case u: True
        show ?thesis
        proof (cases "hex4 s'")
          case None
          then show ?thesis using P bs Cons u by auto
        next
          case (Some v)
          show ?thesis
          proof (cases "55296 \<le> v \<and> v \<le> 56319 \<and> take 2 (drop 4 s') = [92, 117]")
            case False
            then show ?thesis
              using P IH(3) bs Cons u Some by auto
          next
            case hi: True
            show ?thesis
            proof (cases "hex4 (drop 6 s')")
              case None
              then show ?thesis using P bs Cons u Some hi by auto
            next
              case (Some v2)
              then show ?thesis
                using P IH(1,2) bs Cons u \<open>hex4 s' = Some v\<close> hi by (auto split: if_splits)
            qed
          qed
        qed
      qed
    qed
  qed
qed

lemma reduce_error: "reduce v st r q = Inl e \<Longrightarrow> jerr_class_ok e"
  by (cases "(v, st, r, q)" rule: reduce.cases) (auto simp: jerr_class_ok_def)

lemma push_error: "push dl f m st r q = Inl e \<Longrightarrow> jerr_class_ok e"
  by (auto simp: push_def depth_error_def jerr_class_ok_def split: if_splits)

lemma value_start_error: "value_start dl st c r p = Inl e \<Longrightarrow> jerr_class_ok e"
  unfolding value_start_def
  by (auto simp: jerr_class_ok_def split: if_split_asm sum.split_asm option.split_asm prod.split_asm
           dest: lex_str_error reduce_error push_error lex_number_error)
lemma dispatch_error: "dispatch dl m st c r p = Inl e \<Longrightarrow> jerr_class_ok e"
  by (cases "(dl, m, st, c, r, p)" rule: dispatch.cases)
     (auto simp: key_start_def dest: value_start_error reduce_error lex_str_error
           split: if_split_asm sum.split_asm list.split_asm frame.split_asm prod.split_asm)

lemma json_step_error: "json_step dl m st s p = Inl e \<Longrightarrow> jerr_class_ok e"
  by (auto simp: json_step_def Let_def dest: dispatch_error split: list.split_asm)

lemma json_run_error: "json_run dl m st s p = Inl e \<Longrightarrow> jerr_class_ok e"
proof (induction dl m st s p rule: json_run.induct)
  case (1 dl m st s p)
  then show ?case
    by (subst (asm) json_run.simps)
       (auto dest: json_step_error split: sum.splits step.splits)
qed

text \<open>Opening brackets beyond the budget: each \<open>[\<close> pushes one frame until the budget is spent.\<close>

lemma json_run_nested:
  "dl \<le> length st + n \<Longrightarrow> m = MValue \<or> m = MArrFirst \<Longrightarrow>
   json_run dl m st (replicate (Suc n) 91 @ rest) p = Inl (Raised (depth_error (FArr [])))"
proof (induction n arbitrary: m st p)
  case 0
  then show ?case
    by (subst json_run.simps)
       (auto simp: json_step_def is_ws_def value_start_def push_def split: list.splits frame.splits)
next
  case (Suc n)
  show ?case
  proof (cases "dl \<le> length st")
    case True
    with Suc.prems show ?thesis
      by (subst json_run.simps)
         (auto simp: json_step_def is_ws_def value_start_def push_def split: list.splits frame.splits)
  next
    case False
    have "json_run dl MArrFirst (FArr [] # st) (replicate (Suc n) 91 @ rest) (Suc p) =
            Inl (Raised (depth_error (FArr [])))"
      using Suc.prems by (intro Suc.IH) auto
    with False Suc.prems show ?thesis
      by (subst json_run.simps)
         (auto simp: json_step_def is_ws_def value_start_def push_def split: list.splits frame.splits)
  qed
qed

lemma json_loads_error:
  "json_loads dl doc = Inl e \<Longrightarrow> isinstance e ValueError \<or> exc_type e = RecursionError"
  by (auto simp: json_loads_def jerr_exn_def Let_def jerr_class_ok_def
           dest!: json_run_error split: if_splits sum.splits prod.splits jerr.splits)

lemma json_loads_nested:
  "dl \<le> n \<Longrightarrow> json_loads dl (replicate (Suc n) 91) = Inl (depth_error (FArr []))"
  using json_run_nested [of dl "[]" n MValue "[]" 0]
  by (simp add: json_loads_def jerr_exn_def)

end
