(* ===== verification/SpeechSdk.thy ===== *)
theory SpeechSdk
  imports PyRuntime
begin

text \<open>
  The objects of the Azure Speech SDK (\<open>azure.cognitiveservices.speech\<close>) that
  \<open>function_app.py\<close> constructs and inspects. The SDK is a native library outside the
  repository: its constructors are modelled by what they return (an object holding the
  arguments it was given) and by an oracle \<open>sdk\<close> that says whether they raise, since the
  SDK validates credentials and regions in native code the model cannot see. The
  synthesis call itself is the per-request service behaviour held by the world
  (theory \<open>World\<close>). \<open>ResultReason\<close> is the SDK's enumeration; \<open>str()\<close> of a member
  is \<open>ResultReason.<Name>\<close>, which the handler embeds in its error message.
\<close>

record speech_config =
  subscription :: "pystr option"
  region :: "pystr option"
  speech_synthesis_voice_name :: "pystr option"

record audio_output_config =
  use_default_speaker :: bool
  filename :: "pystr option"

record speech_synthesizer =
  synth_config :: speech_config
  synth_audio :: audio_output_config

datatype result_reason =
    NoMatch | Canceled | RecognizingSpeech | RecognizedSpeech | RecognizingIntent
  | RecognizedIntent | TranslatingSpeech | TranslatedSpeech | SynthesizingAudio
  | SynthesizingAudioCompleted | RecognizingKeyword | RecognizedKeyword
  | SynthesizingAudioStarted

text \<open>The result of \<open>speak_text_async(text).get()\<close>: its reason and the audio it produced.\<close>

record synthesis_result =
  reason :: result_reason
  audio_data :: bytes

fun reason_name :: "result_reason \<Rightarrow> string" where
  "reason_name NoMatch = ''NoMatch''"
| "reason_name Canceled = ''Canceled''"
| "reason_name RecognizingSpeech = ''RecognizingSpeech''"
| "reason_name RecognizedSpeech = ''RecognizedSpeech''"
| "reason_name RecognizingIntent = ''RecognizingIntent''"
| "reason_name RecognizedIntent = ''RecognizedIntent''"
| "reason_name TranslatingSpeech = ''TranslatingSpeech''"
| "reason_name TranslatedSpeech = ''TranslatedSpeech''"
| "reason_name SynthesizingAudio = ''SynthesizingAudio''"
| "reason_name SynthesizingAudioCompleted = ''SynthesizingAudioCompleted''"
| "reason_name RecognizingKeyword = ''RecognizingKeyword''"
| "reason_name RecognizedKeyword = ''RecognizedKeyword''"
| "reason_name SynthesizingAudioStarted = ''SynthesizingAudioStarted''"

text \<open>\<open>f"{reason}"\<close> of an \<open>Enum\<close> member: \<open>ResultReason.<Name>\<close>.\<close>

definition reason_str :: "result_reason \<Rightarrow> pystr" where
  "reason_str r = py (''ResultReason.'' @ reason_name r)"

text \<open>Which constructor calls raise: the part of the SDK's behaviour the model leaves open.\<close>

record sdk =
  config_raises :: "pystr option \<Rightarrow> pystr option \<Rightarrow> exn option"
  audio_raises :: "bool \<Rightarrow> pystr option \<Rightarrow> exn option"
  synthesizer_raises :: "speech_config \<Rightarrow> audio_output_config \<Rightarrow> exn option"

definition SpeechConfig :: "sdk \<Rightarrow> pystr option \<Rightarrow> pystr option \<Rightarrow> exn + speech_config" where
  "SpeechConfig k key reg =
     (case config_raises k key reg of
        Some e \<Rightarrow> Inl e
      | None \<Rightarrow> Inr \<lparr>subscription = key, region = reg, speech_synthesis_voice_name = None\<rparr>)"

definition AudioOutputConfig :: "sdk \<Rightarrow> bool \<Rightarrow> pystr option \<Rightarrow> exn + audio_output_config" where
  "AudioOutputConfig k spk fn =
     (case audio_raises k spk fn of
        Some e \<Rightarrow> Inl e
      | None \<Rightarrow> Inr \<lparr>use_default_speaker = spk, filename = fn\<rparr>)"

definition SpeechSynthesizer ::
  "sdk \<Rightarrow> speech_config \<Rightarrow> audio_output_config \<Rightarrow> exn + speech_synthesizer" where
  "SpeechSynthesizer k c a =
     (case synthesizer_raises k c a of
        Some e \<Rightarrow> Inl e
      | None \<Rightarrow> Inr \<lparr>synth_config = c, synth_audio = a\<rparr>)"

text \<open>An output configuration that neither plays on a device nor writes a file.\<close>

definition discards_audio :: "audio_output_config \<Rightarrow> bool" where
  "discards_audio a \<longleftrightarrow> \<not> use_default_speaker a \<and> filename a = None"

lemma reason_str_completed_iff:
  "reason_str r = reason_str SynthesizingAudioCompleted \<longleftrightarrow> r = SynthesizingAudioCompleted"
  by (cases r) (simp_all add: reason_str_def)

end
