(* ===== verification/World.thy ===== *)
theory World
  imports SpeechSdk
begin

text \<open>
  The world outside the Python code, threaded through the program with
  \<open>HOL-Library.State_Monad\<close>: the host's monotonic clock read by \<open>time.perf_counter()\<close>
  (the \<open>n\<close>-th reading of a process is \<open>clock w n\<close>), the speech service answering
  \<open>speak_text_async(text).get()\<close>, the interpreter's remaining recursion budget (which bounds
  the nesting \<open>json.loads\<close> accepts), and the trace of observable effects in the order
  they happen: clock readings, calls to the speech service and lines printed on standard
  output. The trace is what the ordering properties of the handler talk about.
\<close>

datatype event = ClockRead rat | SpeakCall pyval | Stdout pystr

record world =
  clock :: "nat \<Rightarrow> rat"
  reads :: nat
  service :: "speech_synthesizer \<Rightarrow> pyval \<Rightarrow> exn + synthesis_result"
  recursion_budget :: nat
  events :: "event list"

type_synonym 'a io = "(world, 'a) state"

definition perf_counter :: "rat io" where
  "perf_counter =
     State (\<lambda>w. (clock w (reads w),
                 w\<lparr>reads := Suc (reads w), events := events w @ [ClockRead (clock w (reads w))]\<rparr>))"

definition speak_text :: "speech_synthesizer \<Rightarrow> pyval \<Rightarrow> (exn + synthesis_result) io" where
  "speak_text s t = State (\<lambda>w. (service w s t, w\<lparr>events := events w @ [SpeakCall t]\<rparr>))"

definition print_line :: "pystr \<Rightarrow> unit io" where
  "print_line m = State (\<lambda>w. ((), w\<lparr>events := events w @ [Stdout m]\<rparr>))"

definition get_budget :: "nat io" where
  "get_budget = State (\<lambda>w. (recursion_budget w, w))"

text \<open>\<open>time.perf_counter\<close> is monotonic: no reading is smaller than an earlier one.\<close>

definition monotone_clock :: "world \<Rightarrow> bool" where
  "monotone_clock w \<longleftrightarrow> mono (clock w)"

lemma run_perf_counter [simp]:
  "run_state perf_counter w =
     (clock w (reads w),
      w\<lparr>reads := Suc (reads w), events := events w @ [ClockRead (clock w (reads w))]\<rparr>)"
  by (simp add: perf_counter_def)

lemma run_speak_text [simp]:
  "run_state (speak_text s t) w = (service w s t, w\<lparr>events := events w @ [SpeakCall t]\<rparr>)"
  by (simp add: speak_text_def)

lemma run_print_line [simp]:
  "run_state (print_line m) w = ((), w\<lparr>events := events w @ [Stdout m]\<rparr>)"
  by (simp add: print_line_def)

lemma run_get_budget [simp]: "run_state get_budget w = (recursion_budget w, w)"
  by (simp add: get_budget_def)

lemmas world_simps [py_simps] = run_perf_counter run_speak_text run_print_line run_get_budget

text \<open>No effect changes the clock, the service or the budget; readings only advance.\<close>

lemma monotone_clock_reading:
  "monotone_clock w \<Longrightarrow> i \<le> j \<Longrightarrow> clock w i \<le> clock w j"
  by (simp add: monotone_clock_def monoD)

text \<open>The clock readings recorded in a trace, in order.\<close>

fun readings :: "event list \<Rightarrow> rat list" where
  "readings [] = []"
| "readings (ClockRead c # es) = c # readings es"
| "readings (_ # es) = readings es"

lemma readings_append [simp]: "readings (xs @ ys) = readings xs @ readings ys"
  by (induction xs rule: readings.induct) simp_all

end
