(* ===== verification/AzureHttp.thy ===== *)
theory AzureHttp
  imports JsonLoads World
begin

text \<open>
  The two classes of \<open>azure.functions\<close> the handler uses. \<open>HttpRequest.get_json()\<close> is
  \<open>json.loads(body.decode('utf-8'))\<close>; \<open>HttpResponse(body, status_code=..., mimetype=...)\<close>
  defaults the media type to \<open>text/plain\<close> and the charset to \<open>utf-8\<close> and encodes a
  \<open>str\<close> body with that charset, which raises \<open>UnicodeEncodeError\<close> on a lone surrogate.
  Both are library code outside the repository, modelled from their documented behaviour.
\<close>

record http_request =
  req_body :: bytes

record http_response =
  resp_body :: bytes
  status_code :: int
  mimetype :: pystr
  charset :: pystr

definition get_json :: "nat \<Rightarrow> http_request \<Rightarrow> exn + pyval" where
  "get_json dl req =
     (case utf8_decode (req_body req) of
        Inl e \<Rightarrow> Inl e
      | Inr s \<Rightarrow> json_loads dl s)"

definition HttpResponse :: "pystr \<Rightarrow> int \<Rightarrow> pystr \<Rightarrow> exn + http_response" where
  "HttpResponse body st mt =
     (case utf8_encode body of
        Inl e \<Rightarrow> Inl e
      | Inr bs \<Rightarrow> Inr \<lparr>resp_body = bs, status_code = st, mimetype = mt, charset = py ''utf-8''\<rparr>)"

text \<open>\<open>HttpResponse(body, status_code=st)\<close>, with the default media type.\<close>

definition text_response :: "pystr \<Rightarrow> int \<Rightarrow> exn + http_response" where
  "text_response body st = HttpResponse body st (py ''text/plain'')"

end
