(* ===== verification/Init.thy ===== *)
theory Init
  imports AzureHttp
begin

text \<open>
  Module initialisation of \<open>function_app.py\<close> (lines 7--25), run once when the host
  imports the module. It reads two settings from \<open>os.environ\<close> (\<open>load_settings\<close>),
  then, inside \<open>try\<close>, builds the speech configuration with the fixed voice, an audio
  configuration that neither plays nor writes, and the synthesizer
  (\<open>build_synthesizer\<close>, which records how far it got before a constructor raised).
  \<open>except Exception\<close> turns a failure into \<open>speech_synthesizer = None\<close> and one line on
  standard output (\<open>module_init\<close>); an exception outside \<open>Exception\<close> (such as
  \<open>KeyboardInterrupt\<close>) escapes and the import fails. The module's globals are the record
  \<open>module_state\<close>; the handler reads only \<open>speech_synthesizer\<close>.
  The lemmas characterise the two outcomes and prove the invariant of the warm singleton:
  whenever it exists it carries the configured key and region, the fixed voice, and an
  output that discards the audio.
\<close>

type_synonym environ = "pystr \<rightharpoonup> pystr"

record module_state =
  SPEECH_KEY :: "pystr option"
  SPEECH_REGION :: "pystr option"
  g_speech_config :: "speech_config option"
  g_audio_config :: "audio_output_config option"
  speech_synthesizer :: "speech_synthesizer option"

text \<open>Lines 8--9: \<open>os.environ.get\<close> returns \<open>None\<close> for an unset variable.\<close>

definition load_settings :: "environ \<Rightarrow> module_state" where
  "load_settings env =
     \<lparr>SPEECH_KEY = env (py ''SPEECH_KEY''), SPEECH_REGION = env (py ''SPEECH_REGION''),
      g_speech_config = None, g_audio_config = None, speech_synthesizer = None\<rparr>"

definition voice_name :: pystr where
  "voice_name = py ''pt-BR-FranciscaNeural''"

text \<open>Lines 12--22, the body of the \<open>try\<close>: the globals bound so far and the exception.\<close>

definition build_synthesizer :: "sdk \<Rightarrow> module_state \<Rightarrow> module_state \<times> exn option" where
  "build_synthesizer k ms =
     (case SpeechConfig k (SPEECH_KEY ms) (SPEECH_REGION ms) of
        Inl e \<Rightarrow> (ms, Some e)
      | Inr c0 \<Rightarrow>
          (let c = c0\<lparr>speech_synthesis_voice_name := Some voice_name\<rparr>;
               ms1 = ms\<lparr>g_speech_config := Some c\<rparr>
           in case AudioOutputConfig k False None of
                Inl e \<Rightarrow> (ms1, Some e)
              | Inr a \<Rightarrow>
                  (let ms2 = ms1\<lparr>g_audio_config := Some a\<rparr>
                   in case SpeechSynthesizer k c a of
                        Inl e \<Rightarrow> (ms2, Some e)
                      | Inr s \<Rightarrow> (ms2\<lparr>speech_synthesizer := Some s\<rparr>, None))))"

definition init_error_message :: "exn \<Rightarrow> pystr" where
  "init_error_message e =
     py ''Erro CR'' @ [205] @ py ''TICO ao inicializar o SpeechSynthesizer: '' @ exn_str e"

text \<open>Lines 7--25: the whole module body, with the \<open>except Exception\<close> of lines 23--25.\<close>

definition module_init :: "sdk \<Rightarrow> environ \<Rightarrow> (exn + module_state) io" where
  "module_init k env =
     (case build_synthesizer k (load_settings env) of
        (ms, None) \<Rightarrow> State_Monad.return (Inr ms)
      | (ms, Some e) \<Rightarrow>
          (if isinstance e Exception then
             do {
               print_line (init_error_message e);
               State_Monad.return (Inr (ms\<lparr>speech_synthesizer := None\<rparr>))
             }
           else State_Monad.return (Inl e)))"

text \<open>The warm singleton's invariant: the configured credentials, voice and sink.\<close>

definition synthesizer_ok :: "environ \<Rightarrow> speech_synthesizer \<Rightarrow> bool" where
  "synthesizer_ok env s \<longleftrightarrow>
     subscription (synth_config s) = env (py ''SPEECH_KEY'') \<and>
     region (synth_config s) = env (py ''SPEECH_REGION'') \<and>
     speech_synthesis_voice_name (synth_config s) = Some voice_name \<and>
     discards_audio (synth_audio s)"

text \<open>Examples: an SDK whose constructors all succeed, one interrupted by a signal, one that
  refuses a missing region, and an environment with both settings.\<close>

definition never_raises :: sdk where
  "never_raises = \<lparr>config_raises = (\<lambda>_ _. None), audio_raises = (\<lambda>_ _. None),
                   synthesizer_raises = (\<lambda>_ _. None)\<rparr>"

definition interrupted :: sdk where
  "interrupted = never_raises\<lparr>config_raises := (\<lambda>_ _. Some (mk_exn KeyboardInterrupt []))\<rparr>"

definition bad_region :: sdk where
  "bad_region = never_raises\<lparr>config_raises := (\<lambda>k r. if r = None then Some (mk_exn ValueError (py ''invalid region'')) else None)\<rparr>"

definition start_world :: world where
  "start_world =
     \<lparr>clock = (\<lambda>n. of_nat n), reads = 0, service = (\<lambda>_ _. Inl (mk_exn RuntimeError [])),
      recursion_budget = 1000, events = []\<rparr>"

definition example_env :: environ where
  "example_env = [py ''SPEECH_KEY'' \<mapsto> py ''key'', py ''SPEECH_REGION'' \<mapsto> py ''brazilsouth'']"

section \<open>Lemmas\<close>

lemma build_synthesizer_keeps_settings:
  "build_synthesizer k ms = (ms', err) \<Longrightarrow>
     SPEECH_KEY ms' = SPEECH_KEY ms \<and> SPEECH_REGION ms' = SPEECH_REGION ms"
  by (auto simp: build_synthesizer_def Let_def split: sum.splits)

lemma build_synthesizer_Some:
  "build_synthesizer k ms = (ms', err) \<Longrightarrow> speech_synthesizer ms' = Some s \<Longrightarrow>
     speech_synthesizer ms = None \<Longrightarrow> err = None"
  by (auto simp: build_synthesizer_def Let_def split: sum.splits)

lemma build_synthesizer_ok:
  assumes "build_synthesizer k (load_settings env) = (ms', None)"
  shows "\<exists>s. speech_synthesizer ms' = Some s \<and> synthesizer_ok env s"
  using assms
  by (auto simp: build_synthesizer_def Let_def load_settings_def synthesizer_ok_def
        SpeechConfig_def AudioOutputConfig_def SpeechSynthesizer_def discards_audio_def
        split: sum.splits option.splits)

lemma build_synthesizer_error:
  "build_synthesizer k (load_settings env) = (ms', Some e) \<Longrightarrow> speech_synthesizer ms' = None"
  by (auto simp: build_synthesizer_def Let_def load_settings_def split: sum.splits)

lemma module_init_cases:
  "run_state (module_init k env) w =
     (case build_synthesizer k (load_settings env) of
        (ms, None) \<Rightarrow> (Inr ms, w)
      | (ms, Some e) \<Rightarrow>
          (if isinstance e Exception
           then (Inr (ms\<lparr>speech_synthesizer := None\<rparr>), w\<lparr>events := events w @ [Stdout (init_error_message e)]\<rparr>)
           else (Inl e, w)))"
  by (simp add: module_init_def split: prod.splits option.splits)

lemma module_init_synthesizer_ok:
  "fst (run_state (module_init k env) w) = Inr ms \<Longrightarrow> speech_synthesizer ms = Some s \<Longrightarrow>
   synthesizer_ok env s"
  using build_synthesizer_ok [of k env]
  by (auto simp: module_init_cases split: prod.splits option.splits if_splits)

text \<open>Initialisation touches the world only by printing at most one line.\<close>

lemma module_init_effect:
  "run_state (module_init k env) w = (x, w') \<Longrightarrow>
   w' = w \<or> (\<exists>m. w' = w\<lparr>events := events w @ [Stdout m]\<rparr>)"
  by (auto simp: module_init_cases split: prod.splits option.splits if_splits)

text \<open>
  C12. Module initialisation lets no Exception escape: the only exceptions the import can
  raise are those outside Exception (such as KeyboardInterrupt), which except Exception of
  line 23 does not catch.
\<close>

theorem module_init_contains_exceptions:
  "fst (run_state (module_init k env) w) = Inl e \<Longrightarrow> \<not> isinstance e Exception"
  by (auto simp: module_init_cases split: prod.splits option.splits if_splits)

theorem module_init_contains_exceptions_witness:
  "fst (run_state (module_init interrupted example_env) start_world) = Inl (mk_exn KeyboardInterrupt []) \<and>
   \<not> isinstance (mk_exn KeyboardInterrupt []) Exception"
proof -
  have r: "fst (run_state (module_init interrupted example_env) start_world) = Inl (mk_exn KeyboardInterrupt [])"
    by (simp add: module_init_cases build_synthesizer_def interrupted_def never_raises_def SpeechConfig_def)
  show ?thesis
    using module_init_contains_exceptions [OF r] r by simp
qed

text \<open>
  C13. When initialisation succeeds with a synthesizer, the synthesizer carries the key and
  the region read from the environment, the voice pt-BR-FranciscaNeural and an audio
  output that neither plays nor writes a file, and initialisation printed nothing.
\<close>

theorem module_init_ready:
  assumes "fst (run_state (module_init k env) w) = Inr ms" and "speech_synthesizer ms = Some s"
  shows "synthesizer_ok env s \<and> snd (run_state (module_init k env) w) = w"
  using assms module_init_synthesizer_ok [OF assms]
  by (auto simp: module_init_cases split: prod.splits option.splits if_splits)

theorem module_init_ready_witness:
  "fst (run_state (module_init never_raises example_env) start_world) =
     Inr (fst (build_synthesizer never_raises (load_settings example_env))) \<and>
   speech_synthesizer (fst (build_synthesizer never_raises (load_settings example_env))) =
     Some \<lparr>synth_config = \<lparr>subscription = Some (py ''key''), region = Some (py ''brazilsouth''),
                      speech_synthesis_voice_name = Some voice_name\<rparr>,
           synth_audio = \<lparr>use_default_speaker = False, filename = None\<rparr>\<rparr> \<and>
   synthesizer_ok example_env \<lparr>synth_config = \<lparr>subscription = Some (py ''key''), region = Some (py ''brazilsouth''),
                      speech_synthesis_voice_name = Some voice_name\<rparr>,
           synth_audio = \<lparr>use_default_speaker = False, filename = None\<rparr>\<rparr> \<and>
   snd (run_state (module_init never_raises example_env) start_world) = start_world"
proof -
  have b: "build_synthesizer never_raises (load_settings example_env) =
     (fst (build_synthesizer never_raises (load_settings example_env)), None)"
    by (simp add: build_synthesizer_def never_raises_def SpeechConfig_def AudioOutputConfig_def
          SpeechSynthesizer_def Let_def)
  have r: "fst (run_state (module_init never_raises example_env) start_world) =
     Inr (fst (build_synthesizer never_raises (load_settings example_env)))"
    by (subst module_init_cases, subst b) simp
  have s: "speech_synthesizer (fst (build_synthesizer never_raises (load_settings example_env))) =
     Some \<lparr>synth_config = \<lparr>subscription = Some (py ''key''), region = Some (py ''brazilsouth''),
                      speech_synthesis_voice_name = Some voice_name\<rparr>,
           synth_audio = \<lparr>use_default_speaker = False, filename = None\<rparr>\<rparr>"
    by (simp add: build_synthesizer_def never_raises_def SpeechConfig_def AudioOutputConfig_def
          SpeechSynthesizer_def Let_def load_settings_def example_env_def)
  show ?thesis
    using module_init_ready [OF r s] r s by simp
qed

text \<open>
  C14. When a constructor raises an Exception, initialisation completes with no synthesizer
  (speech_synthesizer = None), keeps the settings read from the environment, and prints
  exactly one line: the critical-error text followed by str(e).
\<close>

theorem module_init_failure:
  assumes "build_synthesizer k (load_settings env) = (ms, Some e)" and "isinstance e Exception"
  shows "run_state (module_init k env) w =
           (Inr (ms\<lparr>speech_synthesizer := None\<rparr>),
            w\<lparr>events := events w @ [Stdout (init_error_message e)]\<rparr>) \<and>
         SPEECH_KEY ms = env (py ''SPEECH_KEY'') \<and> SPEECH_REGION ms = env (py ''SPEECH_REGION'')"
  using assms build_synthesizer_keeps_settings [OF assms(1)]
  by (simp add: module_init_cases load_settings_def)

theorem module_init_failure_witness:
  "build_synthesizer bad_region (load_settings Map.empty) =
     (load_settings Map.empty, Some (mk_exn ValueError (py ''invalid region''))) \<and>
   isinstance (mk_exn ValueError (py ''invalid region'')) Exception \<and>
   run_state (module_init bad_region Map.empty) start_world =
     (Inr ((load_settings Map.empty)\<lparr>speech_synthesizer := None\<rparr>),
      start_world\<lparr>events := events start_world @ [Stdout (init_error_message (mk_exn ValueError (py ''invalid region'')))]\<rparr>) \<and>
   SPEECH_KEY (load_settings Map.empty) = Map.empty (py ''SPEECH_KEY'') \<and>
   SPEECH_REGION (load_settings Map.empty) = Map.empty (py ''SPEECH_REGION'')"
proof -
  have b: "build_synthesizer bad_region (load_settings Map.empty) =
     (load_settings Map.empty, Some (mk_exn ValueError (py ''invalid region'')))"
    by (simp add: build_synthesizer_def bad_region_def never_raises_def SpeechConfig_def load_settings_def)
  show ?thesis
    using module_init_failure [OF b, of start_world] b by simp
qed

end
