(* ===== verification/PyRound.thy ===== *)
theory PyRound
  imports Prelude
begin

text \<open>
  \<open>round(x, 2)\<close> and \<open>repr\<close> of its result, as the handler applies them to its two
  durations (lines 70--71). Floats are modelled by the exact rational they denote:
  CPython rounds the exact value of a float to two decimals with ties to even
  (\<open>_Py_dg_dtoa\<close> mode 3) and returns the float nearest to that decimal, whose \<open>repr\<close> is
  the shortest string that reads back to it. For a multiple \<open>k/100\<close> of magnitude below
  \<open>2^46\<close> the floats are spaced closer than \<open>0.01\<close>, so that string is the decimal
  \<open>k/100\<close> itself with trailing zeros dropped and at least one fractional digit, which is
  \<open>repr2\<close>. The lemmas prove that the rounding is monotone, keeps signs, moves a value by
  at most half a hundredth and is the identity on hundredths. The float arithmetic that
  produces the durations is theory \<open>PyFloat\<close>.
\<close>

definition round_half_even :: "rat \<Rightarrow> int" where
  "round_half_even x =
     (let f = \<lfloor>x\<rfloor>; d = x - of_int f in
      if d < 1/2 then f else if 1/2 < d then f + 1 else if even f then f else f + 1)"

definition py_round2 :: "rat \<Rightarrow> rat" where
  "py_round2 x = of_int (round_half_even (x * 100)) / 100"

definition repr2 :: "rat \<Rightarrow> pystr" where
  "repr2 q =
     (let k = \<lfloor>q * 100\<rfloor>; a = nat \<bar>k\<bar>; fr = a mod 100 in
      (if k < 0 then [45] else []) @ show_nat (a div 100) @ [46] @
      (if fr mod 10 = 0 then [48 + fr div 10] else [48 + fr div 10, 48 + fr mod 10]))"

text \<open>The values \<open>round(x, 2)\<close> can return: multiples of one hundredth.\<close>

definition is_hundredths :: "rat \<Rightarrow> bool" where
  "is_hundredths q \<longleftrightarrow> of_int \<lfloor>q * 100\<rfloor> = q * 100"

section \<open>Rounding to the nearest integer, ties to even\<close>

lemma round_half_even_cases:
  "round_half_even x = \<lfloor>x\<rfloor> \<or> round_half_even x = \<lfloor>x\<rfloor> + 1"
  by (simp add: round_half_even_def Let_def)

lemma round_half_even_error: "\<bar>of_int (round_half_even x) - x\<bar> \<le> 1/2"
proof -
  have "of_int \<lfloor>x\<rfloor> \<le> x" "x < of_int \<lfloor>x\<rfloor> + 1"
    using floor_correct [of x] by simp_all
  then show ?thesis
    by (auto simp: round_half_even_def Let_def abs_if) linarith
qed

lemma round_half_even_mono:
  assumes "x \<le> y"
  shows "round_half_even x \<le> round_half_even y"
proof (cases "\<lfloor>x\<rfloor> < \<lfloor>y\<rfloor>")
  case True
  then show ?thesis
    using round_half_even_cases [of x] round_half_even_cases [of y] by linarith
next
  case False
  with assms have f: "\<lfloor>x\<rfloor> = \<lfloor>y\<rfloor>"
    using floor_mono [OF assms] by linarith
  have "x - of_int \<lfloor>x\<rfloor> \<le> y - of_int \<lfloor>y\<rfloor>"
    using assms f by simp
  then show ?thesis
    using f by (auto simp: round_half_even_def Let_def)
qed

lemma round_half_even_nonneg: "0 \<le> x \<Longrightarrow> 0 \<le> round_half_even x"
  using round_half_even_cases [of x] by (auto simp: round_half_even_def Let_def)

lemma round_half_even_of_int [simp]: "round_half_even (of_int k) = k"
  by (simp add: round_half_even_def)

section \<open>\<open>round(x, 2)\<close>\<close>

lemma py_round2_mono: "x \<le> y \<Longrightarrow> py_round2 x \<le> py_round2 y"
proof -
  assume "x \<le> y"
  then have "round_half_even (x * 100) \<le> round_half_even (y * 100)"
    by (intro round_half_even_mono) simp
  then show ?thesis
    by (simp add: py_round2_def divide_right_mono)
qed

lemma py_round2_nonneg: "0 \<le> x \<Longrightarrow> 0 \<le> py_round2 x"
  by (simp add: py_round2_def round_half_even_nonneg)

lemma py_round2_error: "\<bar>py_round2 x - x\<bar> \<le> 1/200"
proof -
  have "\<bar>of_int (round_half_even (x * 100)) - x * 100\<bar> \<le> 1/2"
    by (rule round_half_even_error)
  then have "\<bar>(of_int (round_half_even (x * 100)) - x * 100) / 100\<bar> \<le> 1/200"
    by simp
  then show ?thesis
    by (simp add: py_round2_def diff_divide_distrib)
qed

lemma is_hundredths_of_int [simp]: "is_hundredths (of_int k / 100)"
proof -
  have "of_int k / 100 * 100 = (of_int k :: rat)"
    by simp
  then show ?thesis
    unfolding is_hundredths_def by (metis floor_of_int)
qed

lemma py_round2_hundredths: "is_hundredths (py_round2 x)"
  by (simp add: py_round2_def)

lemma py_round2_idem: "is_hundredths q \<Longrightarrow> py_round2 q = q"
proof -
  assume "is_hundredths q"
  then have "q * 100 = of_int \<lfloor>q * 100\<rfloor>"
    unfolding is_hundredths_def by (rule sym)
  then have "round_half_even (q * 100) = \<lfloor>q * 100\<rfloor>"
    by (metis round_half_even_of_int)
  then show ?thesis
    using \<open>q * 100 = of_int \<lfloor>q * 100\<rfloor>\<close> by (simp add: py_round2_def)
qed

end
