(* ===== verification/JsonDumps.thy ===== *)
theory JsonDumps
  imports PyRuntime PyRound Utf8
begin

text \<open>
  \<open>json.dumps(obj)\<close> with its default arguments (\<open>ensure_ascii=True\<close>, separators
  \<open>', '\<close> and \<open>': '\<close>, no indentation, \<open>allow_nan=True\<close>), the serialiser of the
  handler's success body (line 75). Strings are quoted with the escapes of
  \<open>py_encode_basestring_ascii\<close>: the short escapes, \<open>\\u00XX\<close> for the other control
  characters and for everything outside printable ASCII, and a surrogate pair for code
  points beyond the basic plane. A finite float prints as \<open>repr2\<close>, \<open>repr\<close> of a
  multiple of one hundredth (theory \<open>PyRound\<close>), which are the floats the handler
  serialises.
\<close>

fun join_with :: "pystr \<Rightarrow> pystr list \<Rightarrow> pystr" where
  "join_with sep [] = []"
| "join_with sep [x] = x"
| "join_with sep (x # y # xs) = x @ sep @ join_with sep (y # xs)"

definition hex4_digits :: "nat \<Rightarrow> pystr" where
  "hex4_digits n =
     [hex_digit (n div 4096 mod 16), hex_digit (n div 256 mod 16), hex_digit (n div 16 mod 16),
      hex_digit (n mod 16)]"

definition u_escape :: "nat \<Rightarrow> pystr" where
  "u_escape n = 92 # 117 # hex4_digits n"

definition json_escape :: "nat \<Rightarrow> pystr" where
  "json_escape c =
     (if c = 92 then [92, 92] else if c = 34 then [92, 34]
      else if c = 8 then [92, 98] else if c = 12 then [92, 102] else if c = 10 then [92, 110]
      else if c = 13 then [92, 114] else if c = 9 then [92, 116]
      else if 32 \<le> c \<and> c \<le> 126 then [c]
      else if c < 65536 then u_escape c
      else u_escape (55296 + (c - 65536) div 1024) @ u_escape (56320 + (c - 65536) mod 1024))"

definition json_str :: "pystr \<Rightarrow> pystr" where
  "json_str s = 34 # concat (map json_escape s) @ [34]"

fun float_repr :: "pyfloat \<Rightarrow> pystr" where
  "float_repr (Finite q) = repr2 q"
| "float_repr PosInf = py ''Infinity''"
| "float_repr NegInf = py ''-Infinity''"
| "float_repr NaN = py ''NaN''"

fun json_dumps :: "pyval \<Rightarrow> pystr" where
  "json_dumps PNone = py ''null''"
| "json_dumps (PBool b) = (if b then py ''true'' else py ''false'')"
| "json_dumps (PInt i) = show_int i"
| "json_dumps (PFloat f) = float_repr f"
| "json_dumps (PStr s) = json_str s"
| "json_dumps (PList xs) = 91 # join_with (py '', '') (map json_dumps xs) @ [93]"
| "json_dumps (PDict d) =
     123 # join_with (py '', '') (map (\<lambda>kv. json_str (fst kv) @ py '': '' @ json_dumps (snd kv)) d)
       @ [125]"

section \<open>Lemmas\<close>

text \<open>With \<open>ensure_ascii\<close> the output of \<open>json.dumps\<close> is ASCII whatever the value.\<close>

lemma repr2_ascii: "is_ascii (repr2 q)"
proof -
  have "is_ascii (show_nat n)" for n
    using show_nat_ascii by (auto simp: is_ascii_def)
  moreover have "(48::nat) + fr div 10 < 128" "(48::nat) + fr mod 10 < 128"
    if "fr < 100" for fr :: nat
    using that by simp_all
  ultimately show ?thesis
    by (simp add: repr2_def Let_def)
qed

lemma hex_digit_ascii: "d < 16 \<Longrightarrow> hex_digit d < 128"
  by (simp add: hex_digit_def)

lemma u_escape_ascii: "is_ascii (u_escape n)"
  by (simp add: u_escape_def hex4_digits_def hex_digit_ascii)

lemma json_str_ascii: "is_ascii (json_str s)"
proof -
  have "is_ascii (json_escape c)" for c
    by (simp add: json_escape_def u_escape_ascii)
  then show ?thesis
    by (simp add: json_str_def is_ascii_def)
qed

lemma join_with_ascii:
  "is_ascii sep \<Longrightarrow> \<forall>x\<in>set xs. is_ascii x \<Longrightarrow> is_ascii (join_with sep xs)"
  by (induction sep xs rule: join_with.induct) simp_all

lemma json_dumps_ascii: "is_ascii (json_dumps v)"
proof (induction v)
  case (PInt i)
  then show ?case
    using show_int_ascii by (simp add: is_ascii_def)
next
  case (PFloat f)
  then show ?case
    by (cases f) (simp_all add: repr2_ascii)
next
  case (PList xs)
  then show ?case
    by (simp add: join_with_ascii)
next
  case (PDict d)
  then show ?case
    by (auto simp: json_str_ascii Basic_BNFs.snds.simps intro!: join_with_ascii)
qed (simp_all add: json_str_ascii)

end
