(* ===== verification/PyFloat.thy ===== *)
theory PyFloat
  imports PyRound
begin

text \<open>
  Python's \<open>float\<close> arithmetic on the durations (lines 57 and 64): every subtraction and
  multiplication returns the IEEE 754 binary64 value nearest to the exact result, ties to an
  even significand. \<open>dbl\<close> is that rounding on the exact rational: in units of the smallest
  subnormal \<open>2^-1074\<close> a double is an integer with at most 53 significant bits, so a value is
  rounded (\<open>round_half_even\<close>) to the grid \<open>2^e\<close> where \<open>e\<close> drops all but its 53 leading
  bits (\<open>grid_round\<close>); below \<open>2^-1022\<close> the grid is the subnormal unit itself. Overflow to
  infinity (beyond \<open>2^1024\<close>) and the sign of zero are not represented: a duration in
  milliseconds is far from either. The lemmas show that the rounding is monotone, keeps
  signs and fixes every double, which is all the properties of the handler use.
\<close>

text \<open>\<open>\<lfloor>log2 n\<rfloor>\<close> for a positive natural, \<open>0\<close> for \<open>0\<close>.\<close>

fun ilog2 :: "nat \<Rightarrow> nat" where
  "ilog2 n = (if n < 2 then 0 else Suc (ilog2 (n div 2)))"

declare ilog2.simps [simp del]

text \<open>The grid exponent of a non-negative value counted in subnormal units.\<close>

definition grid_exp :: "rat \<Rightarrow> nat" where
  "grid_exp x = ilog2 (nat \<lfloor>x\<rfloor>) - 52"

definition grid_round :: "rat \<Rightarrow> rat" where
  "grid_round x = of_int (round_half_even (x / 2 ^ grid_exp x)) * 2 ^ grid_exp x"

text \<open>The number of subnormal units in one: \<open>2^1074\<close>.\<close>

definition sub_scale :: rat where
  "sub_scale = 2 ^ 1074"

definition dbl :: "rat \<Rightarrow> rat" where
  "dbl x =
     (if x < 0 then - (grid_round (- x * sub_scale) / sub_scale)
      else grid_round (x * sub_scale) / sub_scale)"

section \<open>Lemmas\<close>

lemma ilog2_bounds: "0 < n \<Longrightarrow> 2 ^ ilog2 n \<le> n \<and> n < 2 ^ Suc (ilog2 n)"
proof (induction n rule: ilog2.induct)
  case (1 n)
  show ?case
  proof (cases "n < 2")
    case True
    with "1.prems" show ?thesis
      by (simp add: ilog2.simps [of n])
  next
    case False
    then have "2 ^ ilog2 (n div 2) \<le> n div 2 \<and> n div 2 < 2 ^ Suc (ilog2 (n div 2))"
      using "1.IH" by simp
    with False show ?thesis
      by (auto simp: ilog2.simps [of n])
  qed
qed

lemma ilog2_mono: "m \<le> n \<Longrightarrow> ilog2 m \<le> ilog2 n"
proof (induction n arbitrary: m rule: ilog2.induct)
  case (1 n)
  show ?case
  proof (cases "m < 2")
    case True
    then show ?thesis
      by (simp add: ilog2.simps [of m])
  next
    case False
    with "1.prems" have "ilog2 (m div 2) \<le> ilog2 (n div 2)"
      by (intro "1.IH") (simp_all add: div_le_mono)
    with False "1.prems" show ?thesis
      by (simp add: ilog2.simps [of m] ilog2.simps [of n])
  qed
qed

lemma ilog2_less: "n < 2 ^ t \<Longrightarrow> 0 < t \<Longrightarrow> ilog2 n < t"
proof (cases "n = 0")
  case False
  assume "n < 2 ^ t"
  have "2 ^ ilog2 n \<le> n"
    using ilog2_bounds [of n] False by simp
  with \<open>n < 2 ^ t\<close> have "(2::nat) ^ ilog2 n < 2 ^ t"
    by linarith
  then show ?thesis
    by (rule nat_power_less_imp_less [rotated]) simp
qed (simp add: ilog2.simps)

text \<open>A non-negative value lies below \<open>2^(e+53)\<close> and, when \<open>e > 0\<close>, at or above \<open>2^(e+52)\<close>.\<close>

lemma grid_exp_upper:
  assumes "0 \<le> x"
  shows "x < 2 ^ (grid_exp x + 53)"
proof -
  define n where "n = nat \<lfloor>x\<rfloor>"
  have xn: "x < of_nat n + 1"
    using assms by (simp add: n_def) linarith
  show ?thesis
  proof (cases "n = 0")
    case True
    with xn have "x < 1" by simp
    also have "(1::rat) \<le> 2 ^ (grid_exp x + 53)"
      by simp
    finally show ?thesis .
  next
    case False
    then have "n < 2 ^ Suc (ilog2 n)"
      using ilog2_bounds [of n] by simp
    then have "Suc n \<le> 2 ^ Suc (ilog2 n)"
      by simp
    moreover have "Suc (ilog2 n) \<le> grid_exp x + 53"
      by (simp add: grid_exp_def n_def)
    ultimately have "Suc n \<le> (2::nat) ^ (grid_exp x + 53)"
      by (meson order_trans one_le_numeral power_increasing)
    then have "of_nat (Suc n) \<le> (of_nat (2 ^ (grid_exp x + 53)) :: rat)"
      by (simp only: of_nat_le_iff)
    with xn show ?thesis
      by simp
  qed
qed

lemma grid_exp_lower:
  assumes "0 < grid_exp x"
  shows "2 ^ (grid_exp x + 52) \<le> x"
proof -
  define n where "n = nat \<lfloor>x\<rfloor>"
  have e: "ilog2 n = grid_exp x + 52"
    using assms by (simp add: grid_exp_def n_def)
  have "\<not> n < 2"
  proof
    assume "n < 2"
    then have "ilog2 n = 0"
      by (simp add: ilog2.simps)
    with e show False
      by simp
  qed
  then have "0 < n"
    by simp
  then have "2 ^ (grid_exp x + 52) \<le> n"
    using ilog2_bounds [of n] e by simp
  then have "(2 ^ (grid_exp x + 52) :: rat) \<le> of_nat n"
    by (metis of_nat_le_iff of_nat_numeral of_nat_power)
  moreover have "of_nat n \<le> x"
    using \<open>0 < n\<close> by (simp add: n_def)
  ultimately show ?thesis
    by (rule order_trans)
qed

lemma grid_exp_mono: "x \<le> y \<Longrightarrow> grid_exp x \<le> grid_exp y"
  unfolding grid_exp_def by (intro diff_le_mono ilog2_mono nat_mono floor_mono)

lemma grid_round_nonneg: "0 \<le> x \<Longrightarrow> 0 \<le> grid_round x"
  by (simp add: grid_round_def round_half_even_nonneg)

lemma round_half_even_numeral [simp]: "round_half_even (numeral n) = numeral n"
  using round_half_even_of_int [of "numeral n"] by simp

lemma sub_scale_pos [simp]: "0 < sub_scale"
  by (simp add: sub_scale_def)

lemma sub_scale_nonzero [simp]: "sub_scale \<noteq> 0"
  by (simp add: sub_scale_def)

lemma grid_round_upper:
  assumes "0 \<le> x"
  shows "grid_round x \<le> 2 ^ (grid_exp x + 53)"
proof -
  have "x / 2 ^ grid_exp x < 2 ^ 53"
    using grid_exp_upper [OF assms] by (simp add: divide_less_eq power_add)
  then have "round_half_even (x / 2 ^ grid_exp x) \<le> round_half_even (2 ^ 53)"
    by (intro round_half_even_mono) simp
  then have "rat_of_int (round_half_even (x / 2 ^ grid_exp x)) \<le> 2 ^ 53"
    by simp
  then show ?thesis
    unfolding grid_round_def by (simp add: power_add mult_right_mono)
qed

lemma grid_round_lower:
  assumes "0 < grid_exp x"
  shows "2 ^ (grid_exp x + 52) \<le> grid_round x"
proof -
  have "2 ^ 52 \<le> x / 2 ^ grid_exp x"
    using grid_exp_lower [OF assms] by (simp add: le_divide_eq power_add)
  then have "round_half_even (2 ^ 52) \<le> round_half_even (x / 2 ^ grid_exp x)"
    by (intro round_half_even_mono)
  then have "2 ^ 52 \<le> rat_of_int (round_half_even (x / 2 ^ grid_exp x))"
    by simp
  then show ?thesis
    unfolding grid_round_def by (simp add: power_add mult_right_mono)
qed

lemma grid_round_mono:
  assumes "0 \<le> x" "x \<le> y"
  shows "grid_round x \<le> grid_round y"
proof (cases "grid_exp x = grid_exp y")
  case True
  have "x / 2 ^ grid_exp x \<le> y / 2 ^ grid_exp x"
    using assms(2) by (simp add: divide_right_mono)
  then have "round_half_even (x / 2 ^ grid_exp x) \<le> round_half_even (y / 2 ^ grid_exp y)"
    using True by (intro round_half_even_mono) simp
  then show ?thesis
    unfolding grid_round_def using True by (simp add: mult_right_mono)
next
  case False
  then have lt: "grid_exp x < grid_exp y"
    using grid_exp_mono [OF assms(2)] by simp
  have "grid_round x \<le> 2 ^ (grid_exp x + 53)"
    by (rule grid_round_upper [OF assms(1)])
  also have "(2::rat) ^ (grid_exp x + 53) \<le> 2 ^ (grid_exp y + 52)"
    using lt by (intro power_increasing) simp_all
  also have "\<dots> \<le> grid_round y"
    using lt by (intro grid_round_lower) simp
  finally show ?thesis .
qed

lemma dbl_nonneg: "0 \<le> x \<Longrightarrow> 0 \<le> dbl x"
  using grid_round_nonneg [of "x * sub_scale"] sub_scale_pos
  by (simp add: dbl_def less_imp_le divide_nonneg_pos)

lemma dbl_mono: "x \<le> y \<Longrightarrow> dbl x \<le> dbl y"
proof -
  assume xy: "x \<le> y"
  consider "0 \<le> x" | "y < 0" | "x < 0" "0 \<le> y"
    by linarith
  then show "dbl x \<le> dbl y"
  proof cases
    case 1
    then have "grid_round (x * sub_scale) \<le> grid_round (y * sub_scale)"
      using xy by (intro grid_round_mono mult_right_mono) (simp_all add: less_imp_le)
    with 1 xy show ?thesis
      using sub_scale_pos by (simp add: dbl_def divide_right_mono less_imp_le)
  next
    case 2
    then have "grid_round (- y * sub_scale) \<le> grid_round (- x * sub_scale)"
      using xy 2 sub_scale_pos
      by (intro grid_round_mono mult_right_mono) (simp_all add: less_imp_le mult_nonpos_nonneg)
    with 2 xy show ?thesis
      using sub_scale_pos by (simp add: dbl_def divide_right_mono less_imp_le)
  next
    case 3
    have "0 \<le> grid_round (- x * sub_scale) / sub_scale"
      using 3 sub_scale_pos
      by (intro divide_nonneg_pos grid_round_nonneg) (simp_all add: mult_nonpos_nonneg less_imp_le)
    moreover have "0 \<le> grid_round (y * sub_scale) / sub_scale"
      using 3 sub_scale_pos by (intro divide_nonneg_pos grid_round_nonneg) (simp_all add: less_imp_le)
    ultimately show ?thesis
      using 3 by (simp add: dbl_def)
  qed
qed

text \<open>Every double is its own rounding: an integer below \<open>2^53\<close> over a power of two.\<close>

lemma grid_round_exact:
  assumes "m < 2 ^ 53" and "j \<le> 1074"
  shows "grid_round (of_nat m * 2 ^ (1074 - j)) = of_nat m * 2 ^ (1074 - j)"
proof -
  define x :: rat where "x = of_nat m * 2 ^ (1074 - j)"
  have n: "nat \<lfloor>x\<rfloor> = m * 2 ^ (1074 - j)"
  proof -
    have "x = of_int (int (m * 2 ^ (1074 - j)))"
      by (simp add: x_def)
    then show ?thesis
      by (metis floor_of_int nat_int)
  qed
  have "m * 2 ^ (1074 - j) < 2 ^ 53 * 2 ^ (1074 - j)"
    using assms(1) by simp
  then have "ilog2 (m * 2 ^ (1074 - j)) < 53 + (1074 - j)"
    by (intro ilog2_less) (simp_all add: power_add)
  then have e: "grid_exp x \<le> 1074 - j"
    by (simp add: grid_exp_def n)
  obtain g where g: "grid_exp x = g"
    by simp
  define d where "d = 1074 - j - g"
  have split: "(2::rat) ^ (1074 - j) = 2 ^ d * 2 ^ g"
    using e g by (simp add: d_def flip: power_add)
  have "x / 2 ^ g = of_int (int m * 2 ^ d)"
    unfolding x_def split by simp
  then have "round_half_even (x / 2 ^ g) = int m * 2 ^ d"
    by (simp only: round_half_even_of_int)
  then have "grid_round x = of_int (int m * 2 ^ d) * 2 ^ g"
    by (simp add: grid_round_def g)
  also have "\<dots> = x"
    by (simp add: x_def split)
  finally show ?thesis
    by (simp add: x_def)
qed

lemma sub_scale_split: "j \<le> 1074 \<Longrightarrow> sub_scale = 2 ^ (1074 - j) * 2 ^ j"
  by (simp add: sub_scale_def flip: power_add)

lemma dbl_exact:
  assumes "\<bar>k\<bar> < 2 ^ 53" and "j \<le> 1074"
  shows "dbl (of_int k / 2 ^ j) = of_int k / 2 ^ j"
proof -
  define m where "m = nat \<bar>k\<bar>"
  have m: "m < 2 ^ 53"
    using assms(1) by (simp add: m_def nat_less_iff)
  have scale: "\<bar>of_int k / 2 ^ j\<bar> * sub_scale = of_nat m * (2::rat) ^ (1074 - j)"
    by (simp add: sub_scale_split [OF assms(2)] m_def abs_divide)
  have unscale: "of_nat m * (2::rat) ^ (1074 - j) / sub_scale = \<bar>of_int k / 2 ^ j\<bar>"
    by (simp add: sub_scale_split [OF assms(2)] m_def abs_divide)
  show ?thesis
  proof (cases "k < 0")
    case True
    then have "of_int k / 2 ^ j < (0::rat)"
      by (simp add: divide_neg_pos)
    with scale unscale show ?thesis
      using grid_round_exact [OF m assms(2)] by (simp add: dbl_def abs_if)
  next
    case False
    then have "\<not> of_int k / 2 ^ j < (0::rat)"
      by (simp add: not_less zero_le_divide_iff)
    with scale unscale show ?thesis
      using grid_round_exact [OF m assms(2)] by (simp add: dbl_def abs_if)
  qed
qed

text \<open>
  In the normal range a double is a 53-bit significand times a power of two: when
  \<open>x * 2^q\<close> has 53 integer bits, \<open>dbl x\<close> rounds it to an integer.
\<close>

lemma ilog2_eq:
  assumes "2 ^ k \<le> n" and "n < 2 ^ Suc k"
  shows "ilog2 n = k"
proof -
  have "0 < (2::nat) ^ k"
    by simp
  with assms(1) have n: "0 < n"
    by linarith
  have "\<not> ilog2 n < k"
  proof
    assume "ilog2 n < k"
    then have "(2::nat) ^ Suc (ilog2 n) \<le> 2 ^ k"
      by (intro power_increasing) simp_all
    with ilog2_bounds [OF n] assms(1) show False
      by linarith
  qed
  moreover have "\<not> k < ilog2 n"
  proof
    assume "k < ilog2 n"
    then have "(2::nat) ^ Suc k \<le> 2 ^ ilog2 n"
      by (intro power_increasing) simp_all
    with ilog2_bounds [OF n] assms(2) show False
      by linarith
  qed
  ultimately show ?thesis
    by simp
qed

lemma grid_exp_eq:
  assumes "2 ^ (e + 52) \<le> x" and "x < 2 ^ (e + 53)"
  shows "grid_exp x = e"
proof -
  define n where "n = nat \<lfloor>x\<rfloor>"
  have "of_int (2 ^ (e + 52)) \<le> x"
    using assms(1) by simp
  then have "2 ^ (e + 52) \<le> \<lfloor>x\<rfloor>"
    by (simp only: le_floor_iff)
  then have lo: "2 ^ (e + 52) \<le> n"
    by (simp add: n_def le_nat_iff)
  have "x < of_int (2 ^ (e + 53))"
    using assms(2) by simp
  then have "\<lfloor>x\<rfloor> < 2 ^ (e + 53)"
    by (simp only: floor_less_iff)
  then have hi: "n < 2 ^ Suc (e + 52)"
    using lo by (simp add: n_def nat_less_iff add.commute)
  show ?thesis
    using ilog2_eq [OF lo hi] by (simp add: grid_exp_def n_def)
qed

lemma dbl_normal:
  assumes "q \<le> 1074" and "2 ^ 52 \<le> x * 2 ^ q" and "x * 2 ^ q < 2 ^ 53"
  shows "dbl x = of_int (round_half_even (x * 2 ^ q)) / 2 ^ q"
proof -
  define y where "y = x * 2 ^ q"
  define u :: rat where "u = 2 ^ (1074 - q)"
  have u: "0 < u"
    by (simp add: u_def)
  have xs: "x * sub_scale = y * u"
    using sub_scale_split [OF assms(1)] by (simp add: y_def u_def mult.commute)
  have "(2::rat) ^ (1074 - q + 52) = 2 ^ 52 * u" "(2::rat) ^ (1074 - q + 53) = 2 ^ 53 * u"
    by (simp_all add: u_def power_add)
  moreover have "2 ^ 52 * u \<le> y * u" "y * u < 2 ^ 53 * u"
    using assms(2,3) u by (simp_all add: y_def)
  ultimately have e: "grid_exp (x * sub_scale) = 1074 - q"
    unfolding xs by (intro grid_exp_eq) simp_all
  have "0 \<le> y"
    using assms(2) y_def by (metis order_trans zero_le_numeral zero_le_power)
  then have "\<not> x < 0"
    by (simp add: y_def zero_le_mult_iff not_less) (metis not_less power_eq_0_iff zero_less_power zero_neq_numeral zero_less_numeral order.strict_trans2)
  have su: "sub_scale = 2 ^ q * u"
    using sub_scale_split [OF assms(1)] by (simp add: u_def mult.commute)
  have "x * sub_scale / u = y"
    using u unfolding xs by simp
  then have "dbl x = of_int (round_half_even y) * u / sub_scale"
    unfolding dbl_def grid_round_def e u_def [symmetric] using \<open>\<not> x < 0\<close> by simp
  also have "\<dots> = of_int (round_half_even y) / 2 ^ q"
    using u unfolding su by simp
  finally show ?thesis
    by (simp add: y_def)
qed
end
