(* ===== verification/Handler.thy ===== *)
theory Handler
  imports Init JsonDumps PyFloat
begin

text \<open>
  The HTTP handler \<open>main(req)\<close> of \<open>function_app.py\<close> (lines 28--81). Python's
  statement-level control flow inside a \<open>try\<close> block is the datatype \<open>flow\<close>: the block
  raised, executed a \<open>return\<close>, or fell through binding a value. The handler is the
  composition of its steps in the source's order:
  \<^item> the readiness check of line 33 (\<open>main\<close>, first case);
  \<^item> the clock reading of line 37;
  \<^item> the first \<open>try\<close> (lines 39--48, \<open>parse_body\<close>): \<open>get_json\<close>, the test of line 42
    (\<open>extract_text\<close>) and \<open>req_body.get('text')\<close>, with \<open>except ValueError\<close>;
  \<^item> the clock reading of line 51 and the second \<open>try\<close> (lines 53--81, \<open>synthesize\<close>):
    the blocking SDK call, the duration of the call, the reason check, the duration of the
    whole handler, the metrics payload and the JSON response, with \<open>except Exception\<close>.
  The result is \<open>Inr\<close> of the response returned to the host, or \<open>Inl\<close> of an exception
  that escapes \<open>main\<close> (the host then answers with its own error).
\<close>

datatype 'a flow = Raise exn | Return http_response | Next 'a

definition resp_flow :: "exn + http_response \<Rightarrow> 'a flow" where
  "resp_flow r = (case r of Inl e \<Rightarrow> Raise e | Inr x \<Rightarrow> Return x)"

section \<open>Messages of the handler\<close>

definition msg_not_initialized :: pystr where
  "msg_not_initialized = py ''Erro critico: Sintetizador de fala nao inicializado.''"

definition msg_text_missing :: pystr where
  "msg_text_missing = [34] @ py ''text'' @ [34] @ py '' nao encontrado no JSON.''"

definition msg_invalid_json :: pystr where
  "msg_invalid_json = py ''Corpo da requisicao JSON invalido.''"

definition msg_synthesis_error :: "result_reason \<Rightarrow> pystr" where
  "msg_synthesis_error r = py ''Erro na sintese: '' @ reason_str r"

definition msg_api_error :: "exn \<Rightarrow> pystr" where
  "msg_api_error e = py ''Erro na API do Azure Speech: '' @ exn_str e"

definition msg_success :: pystr where
  "msg_success = py ''Audio gerado com sucesso.''"

section \<open>The first \<open>try\<close>: reading the text\<close>

text \<open>Lines 42--45 after \<open>req.get_json()\<close> returned \<open>b\<close>.\<close>

definition extract_text :: "pyval \<Rightarrow> pyval flow" where
  "extract_text b =
     (if \<not> py_truthy b then resp_flow (text_response msg_text_missing 400)
      else (case py_contains (py ''text'') b of
              Inl e \<Rightarrow> Raise e
            | Inr False \<Rightarrow> resp_flow (text_response msg_text_missing 400)
            | Inr True \<Rightarrow> (case py_get b (py ''text'') of Inl e \<Rightarrow> Raise e | Inr t \<Rightarrow> Next t)))"

text \<open>Lines 39--48: the block and its \<open>except ValueError\<close>.\<close>

definition parse_body :: "nat \<Rightarrow> http_request \<Rightarrow> pyval flow" where
  "parse_body dl req =
     (let r = (case get_json dl req of Inl e \<Rightarrow> Raise e | Inr b \<Rightarrow> extract_text b) in
      case r of
        Raise e \<Rightarrow> (if isinstance e ValueError then resp_flow (text_response msg_invalid_json 400)
                   else Raise e)
      | _ \<Rightarrow> r)"

section \<open>The second \<open>try\<close>: calling the service\<close>

text \<open>Lines 67--73: the metrics payload, durations rounded to two decimals.\<close>

definition metrics_payload :: "rat \<Rightarrow> rat \<Rightarrow> pyval" where
  "metrics_payload api fn =
     PDict [(py ''message'', PStr msg_success),
            (py ''metrics_internal'',
             PDict [(py ''api_call_duration_ms'', PFloat (Finite (py_round2 api))),
                    (py ''function_code_duration_ms'', PFloat (Finite (py_round2 fn)))])]"

text \<open>Lines 74--78.\<close>

definition success_response :: "rat \<Rightarrow> rat \<Rightarrow> exn + http_response" where
  "success_response api fn =
     HttpResponse (json_dumps (metrics_payload api fn)) 200 (py ''application/json'')"

text \<open>Lines 80--81: \<open>except Exception as e\<close>; anything else propagates.\<close>

definition api_error :: "exn \<Rightarrow> exn + http_response" where
  "api_error e = (if isinstance e Exception then text_response (msg_api_error e) 500 else Inl e)"

definition catch_api :: "exn + http_response \<Rightarrow> exn + http_response" where
  "catch_api r = (case r of Inl e \<Rightarrow> api_error e | Inr x \<Rightarrow> Inr x)"

text \<open>
  Lines 57 and 64: \<open>(time.perf_counter() - start) * 1000\<close>, two float operations, each
  rounded to the nearest double (\<open>dbl\<close>); the readings are doubles themselves.
\<close>

definition ms_duration :: "rat \<Rightarrow> rat \<Rightarrow> rat" where
  "ms_duration t_end t_start = dbl (dbl (t_end - t_start) * 1000)"

text \<open>Lines 51--81, given the start time \<open>t0\<close> of line 37 and the text.\<close>

definition synthesize :: "speech_synthesizer \<Rightarrow> rat \<Rightarrow> pyval \<Rightarrow> (exn + http_response) io" where
  "synthesize s t0 text =
     do {
       t1 \<leftarrow> perf_counter;
       r \<leftarrow> speak_text s text;
       (case r of
          Inl e \<Rightarrow> State_Monad.return (api_error e)
        | Inr res \<Rightarrow>
            do {
              t2 \<leftarrow> perf_counter;
              (if reason res \<noteq> SynthesizingAudioCompleted then
                 State_Monad.return (catch_api (text_response (msg_synthesis_error (reason res)) 500))
               else
                 do {
                   t3 \<leftarrow> perf_counter;
                   State_Monad.return (catch_api (success_response (ms_duration t2 t1) (ms_duration t3 t0)))
                 })
            })
     }"

text \<open>A plain-text response with an ASCII body, as \<open>HttpResponse\<close> builds it.\<close>

definition plain_response :: "pystr \<Rightarrow> int \<Rightarrow> http_response" where
  "plain_response body st =
     \<lparr>resp_body = map of_nat body, status_code = st, mimetype = py ''text/plain'',
      charset = py ''utf-8''\<rparr>"

section \<open>The handler\<close>

definition main :: "module_state \<Rightarrow> http_request \<Rightarrow> (exn + http_response) io" where
  "main ms req =
     (case speech_synthesizer ms of
        None \<Rightarrow> State_Monad.return (text_response msg_not_initialized 500)
      | Some s \<Rightarrow>
          do {
            t0 \<leftarrow> perf_counter;
            dl \<leftarrow> get_budget;
            (case parse_body dl req of
               Raise e \<Rightarrow> State_Monad.return (Inl e)
             | Return r \<Rightarrow> State_Monad.return (Inr r)
             | Next text \<Rightarrow> synthesize s t0 text)
          })"

text \<open>
  The two durations a run of \<open>main\<close> from \<open>w\<close> measures when it reaches line 64: the
  readings of lines 37, 51, 57 and 64 are the clock's next four.
\<close>

definition api_ms :: "world \<Rightarrow> rat" where
  "api_ms w = ms_duration (clock w (Suc (Suc (reads w)))) (clock w (Suc (reads w)))"

definition function_ms :: "world \<Rightarrow> rat" where
  "function_ms w = ms_duration (clock w (Suc (Suc (Suc (reads w))))) (clock w (reads w))"

text \<open>A JSON response with an ASCII body, as lines 74--78 build it.\<close>

definition json_response :: "pystr \<Rightarrow> http_response" where
  "json_response body =
     \<lparr>resp_body = map of_nat body, status_code = 200, mimetype = py ''application/json'',
      charset = py ''utf-8''\<rparr>"

text \<open>A body that \<open>get_json\<close> refuses with a \<open>ValueError\<close> (bad UTF-8 or bad JSON).\<close>

definition malformed_body :: "nat \<Rightarrow> http_request \<Rightarrow> bool" where
  "malformed_body dl req \<longleftrightarrow>
     (case get_json dl req of Inl e \<Rightarrow> isinstance e ValueError | Inr _ \<Rightarrow> False)"

text \<open>
  The shapes of the effect trace one invocation can leave: nothing, the start reading, or
  the two readings around the start of the call, the call, and up to two more readings.
\<close>

fun after_call :: "event list \<Rightarrow> bool" where
  "after_call [] = True"
| "after_call [ClockRead c] = True"
| "after_call [ClockRead c, ClockRead d] = True"
| "after_call _ = False"

fun handler_trace :: "event list \<Rightarrow> bool" where
  "handler_trace [] = True"
| "handler_trace [ClockRead a] = True"
| "handler_trace (ClockRead a # ClockRead b # SpeakCall t # rest) = after_call rest"
| "handler_trace _ = False"

text \<open>Examples: a clock advancing by 125 ms per reading, and a ready module.\<close>

definition example_world :: "(speech_synthesizer \<Rightarrow> pyval \<Rightarrow> exn + synthesis_result) \<Rightarrow> world" where
  "example_world f =
     \<lparr>clock = (\<lambda>n. of_nat n / 8), reads = 0, service = f, recursion_budget = 900,
      events = []\<rparr>"

definition example_synth :: speech_synthesizer where
  "example_synth =
     \<lparr>synth_config = \<lparr>subscription = Some (py ''key''), region = Some (py ''brazilsouth''),
                      speech_synthesis_voice_name = Some voice_name\<rparr>,
      synth_audio = \<lparr>use_default_speaker = False, filename = None\<rparr>\<rparr>"

definition example_module :: module_state where
  "example_module =
     \<lparr>SPEECH_KEY = Some (py ''key''), SPEECH_REGION = Some (py ''brazilsouth''),
      g_speech_config = Some (synth_config example_synth),
      g_audio_config = Some (synth_audio example_synth),
      speech_synthesizer = Some example_synth\<rparr>"

definition body_of :: "string \<Rightarrow> http_request" where
  "body_of s = \<lparr>req_body = map of_nat (py s)\<rparr>"

definition completed_service :: "speech_synthesizer \<Rightarrow> pyval \<Rightarrow> exn + synthesis_result" where
  "completed_service s t = Inr \<lparr>reason = SynthesizingAudioCompleted, audio_data = []\<rparr>"

definition failing_service :: "speech_synthesizer \<Rightarrow> pyval \<Rightarrow> exn + synthesis_result" where
  "failing_service s t = Inl (mk_exn RuntimeError (py ''connection refused''))"

definition canceled_service :: "speech_synthesizer \<Rightarrow> pyval \<Rightarrow> exn + synthesis_result" where
  "canceled_service s t = Inr \<lparr>reason = Canceled, audio_data = []\<rparr>"

text \<open>JSON values that are neither strings nor containers: \<open>in\<close> raises \<open>TypeError\<close> on them.\<close>

definition scalar :: "pyval \<Rightarrow> bool" where
  "scalar v \<longleftrightarrow> (case v of PStr _ \<Rightarrow> False | PList _ \<Rightarrow> False | PDict _ \<Rightarrow> False | _ \<Rightarrow> True)"

section \<open>Lemmas\<close>

subsection \<open>Responses\<close>

lemma text_response_ascii:
  "is_ascii body \<Longrightarrow> text_response body st = Inr (plain_response body st)"
  by (simp add: text_response_def HttpResponse_def utf8_encode_ascii plain_response_def)

lemma text_response_status: "text_response body st = Inr r \<Longrightarrow> status_code r = st"
  by (auto simp: text_response_def HttpResponse_def split: sum.splits)

lemma messages_ascii:
  "is_ascii msg_not_initialized" "is_ascii msg_text_missing" "is_ascii msg_invalid_json"
  "is_ascii msg_success"
  by (simp_all add: msg_not_initialized_def msg_text_missing_def msg_invalid_json_def
        msg_success_def)

lemma msg_synthesis_error_ascii: "is_ascii (msg_synthesis_error r)"
  by (cases r) (simp_all add: msg_synthesis_error_def reason_str_def)

lemmas fixed_responses [simp] =
  text_response_ascii [OF messages_ascii(1)] text_response_ascii [OF messages_ascii(2)]
  text_response_ascii [OF messages_ascii(3)] text_response_ascii [OF msg_synthesis_error_ascii]

lemma metrics_body:
  \<open>json_dumps (metrics_payload a f) =
     py ''{"message": "Audio gerado com sucesso.", "metrics_internal": {"api_call_duration_ms": '' @
     repr2 (py_round2 a) @ py '', "function_code_duration_ms": '' @ repr2 (py_round2 f) @ py ''}}''\<close>
  by (simp add: metrics_payload_def msg_success_def json_str_def json_escape_def)

lemma success_response_ok:
  "success_response a f = Inr (json_response (json_dumps (metrics_payload a f)))"
  using utf8_encode_ascii [OF json_dumps_ascii]
  by (simp add: success_response_def HttpResponse_def json_response_def)

lemma text_response_error: "text_response body st = Inl e \<Longrightarrow> exc_type e = UnicodeEncodeError"
  by (auto simp: text_response_def HttpResponse_def dest: utf8_encode_error split: sum.splits)

lemma api_error_status: "api_error e = Inr r \<Longrightarrow> status_code r = 500"
  by (auto simp: api_error_def split: if_splits dest: text_response_status)

subsection \<open>The first \<open>try\<close>\<close>

lemma extract_text_dict_missing:
  "map_of d (py ''text'') = None \<Longrightarrow>
   extract_text (PDict d) = Return (plain_response msg_text_missing 400)"
  by (auto simp: extract_text_def resp_flow_def map_of_eq_None_iff split: bool.split)

lemma extract_text_dict_text:
  assumes "map_of d (py ''text'') = Some t"
  shows "extract_text (PDict d) = Next t"
proof -
  from assms have "py ''text'' \<in> fst ` set d"
    by (metis map_of_eq_None_iff option.distinct(1))
  moreover from this have "d \<noteq> []"
    by auto
  ultimately show ?thesis
    using assms by (simp add: extract_text_def)
qed

lemma extract_text_scalar:
  "py_truthy b \<Longrightarrow> scalar b \<Longrightarrow>
   extract_text b = Raise (mk_exn TypeError
     (py (''argument of type '' @ [CHR 0x27] @ type_name b @ [CHR 0x27] @ '' is not iterable'')))"
  by (cases b) (simp_all add: extract_text_def scalar_def)

lemma extract_text_no_get:
  "py_contains (py ''text'') b = Inr True \<Longrightarrow> (\<forall>d. b \<noteq> PDict d) \<Longrightarrow>
   extract_text b = Raise (mk_exn AttributeError
     (py ([CHR 0x27] @ type_name b @ [CHR 0x27] @ '' object has no attribute '' @ [CHR 0x27] @ ''get'' @ [CHR 0x27])))"
  by (cases b) (auto simp: extract_text_def)

lemma extract_text_raise:
  "extract_text b = Raise e \<Longrightarrow> exc_type e = TypeError \<or> exc_type e = AttributeError"
  by (cases b) (auto simp: extract_text_def resp_flow_def dest: py_contains_container
                    split: sum.splits bool.splits if_splits)

lemma parse_body_raise:
  "parse_body dl req = Raise e \<Longrightarrow>
   exc_type e \<in> {RecursionError, TypeError, AttributeError}"
  by (auto simp: parse_body_def get_json_def resp_flow_def Let_def
           dest: utf8_decode_error json_loads_error extract_text_raise
           split: sum.splits flow.splits if_splits)

lemma parse_body_malformed:
  "malformed_body dl req \<Longrightarrow> parse_body dl req = Return (plain_response msg_invalid_json 400)"
  by (auto simp: malformed_body_def parse_body_def resp_flow_def split: sum.splits)

lemma parse_body_value:
  "get_json dl req = Inr b \<Longrightarrow>
   parse_body dl req =
     (case extract_text b of
        Raise e \<Rightarrow> (if isinstance e ValueError then Return (plain_response msg_invalid_json 400)
                   else Raise e)
      | r \<Rightarrow> r)"
  by (simp add: parse_body_def resp_flow_def split: flow.splits)

lemma parse_body_return_status:
  "parse_body dl req = Return r \<Longrightarrow> status_code r = 400"
  by (auto simp: parse_body_def extract_text_def resp_flow_def plain_response_def
        split: sum.splits if_splits flow.splits bool.splits)

subsection \<open>The second \<open>try\<close>\<close>

lemma synthesize_raises:
  "service w s t = Inl e \<Longrightarrow>
   run_state (synthesize s t0 t) w =
     (api_error e,
      w\<lparr>reads := Suc (reads w), events := events w @ [ClockRead (clock w (reads w)), SpeakCall t]\<rparr>)"
  by (simp add: synthesize_def)

lemma synthesize_reason:
  "service w s t = Inr res \<Longrightarrow> reason res \<noteq> SynthesizingAudioCompleted \<Longrightarrow>
   run_state (synthesize s t0 t) w =
     (Inr (plain_response (msg_synthesis_error (reason res)) 500),
      w\<lparr>reads := Suc (Suc (reads w)),
        events := events w @ [ClockRead (clock w (reads w)), SpeakCall t,
                              ClockRead (clock w (Suc (reads w)))]\<rparr>)"
  by (simp add: synthesize_def catch_api_def)

lemma synthesize_completed:
  "service w s t = Inr res \<Longrightarrow> reason res = SynthesizingAudioCompleted \<Longrightarrow>
   run_state (synthesize s t0 t) w =
     (Inr (json_response (json_dumps (metrics_payload
             (ms_duration (clock w (Suc (reads w))) (clock w (reads w)))
             (ms_duration (clock w (Suc (Suc (reads w)))) t0)))),
      w\<lparr>reads := Suc (Suc (Suc (reads w))),
        events := events w @ [ClockRead (clock w (reads w)), SpeakCall t,
                              ClockRead (clock w (Suc (reads w))),
                              ClockRead (clock w (Suc (Suc (reads w))))]\<rparr>)"
  by (simp add: synthesize_def catch_api_def success_response_ok)

lemma synthesize_cases:
  obtains (raises) e where "service w s t = Inl e"
  | (reason) res where "service w s t = Inr res" "reason res \<noteq> SynthesizingAudioCompleted"
  | (completed) res where "service w s t = Inr res" "reason res = SynthesizingAudioCompleted"
  by (cases "service w s t") auto

lemma synthesize_error:
  "fst (run_state (synthesize s t0 t) w) = Inl e \<Longrightarrow>
   exc_type e = UnicodeEncodeError \<or> \<not> isinstance e Exception"
  by (cases w s t rule: synthesize_cases)
     (auto simp: synthesize_raises synthesize_reason synthesize_completed api_error_def
           dest: text_response_error split: if_splits)

subsection \<open>The handler\<close>

lemma main_ready:
  "speech_synthesizer ms = Some s \<Longrightarrow>
   run_state (main ms req) w =
     (case parse_body (recursion_budget w) req of
        Raise e \<Rightarrow> (Inl e, w\<lparr>reads := Suc (reads w), events := events w @ [ClockRead (clock w (reads w))]\<rparr>)
      | Return r \<Rightarrow> (Inr r, w\<lparr>reads := Suc (reads w), events := events w @ [ClockRead (clock w (reads w))]\<rparr>)
      | Next t \<Rightarrow> run_state (synthesize s (clock w (reads w)) t)
                   (w\<lparr>reads := Suc (reads w), events := events w @ [ClockRead (clock w (reads w))]\<rparr>))"
  by (simp add: main_def split: flow.splits)

lemma synthesize_200:
  assumes "run_state (synthesize s t0 t) w = (Inr r, w')" and "status_code r = 200"
  shows "r = json_response (json_dumps (metrics_payload
                (ms_duration (clock w (Suc (reads w))) (clock w (reads w)))
                (ms_duration (clock w (Suc (Suc (reads w)))) t0)))"
proof (cases w s t rule: synthesize_cases)
  case (raises e)
  with assms show ?thesis
    by (auto simp: synthesize_raises dest: api_error_status)
next
  case (reason res)
  with assms show ?thesis
    by (auto simp: synthesize_reason plain_response_def)
next
  case (completed res)
  with assms show ?thesis
    by (simp add: synthesize_completed)
qed

lemma main_ready_200:
  assumes "speech_synthesizer ms = Some s" "run_state (main ms req) w = (Inr r, w')"
    and "status_code r = 200"
  shows "r = json_response (json_dumps (metrics_payload (api_ms w) (function_ms w)))"
proof (cases "parse_body (recursion_budget w) req")
  case (Raise e)
  with assms show ?thesis
    by (simp add: main_ready)
next
  case (Return x)
  with assms show ?thesis
    by (auto simp: main_ready dest: parse_body_return_status)
next
  case (Next t)
  with assms show ?thesis
    by (auto simp: main_ready api_ms_def function_ms_def dest: synthesize_200)
qed

lemma main_200_shape:
  assumes "run_state (main ms req) w = (Inr r, w')" and "status_code r = 200"
  shows "r = json_response (json_dumps (metrics_payload (api_ms w) (function_ms w)))"
proof (cases "speech_synthesizer ms")
  case None
  with assms show ?thesis
    by (auto simp: main_def plain_response_def)
next
  case (Some s)
  then show ?thesis
    using assms by (rule main_ready_200)
qed

text \<open>Float durations keep the order of the exact ones: \<open>dbl\<close> is monotone.\<close>

lemma ms_duration_nonneg: "b \<le> a \<Longrightarrow> 0 \<le> ms_duration a b"
  by (simp add: ms_duration_def dbl_nonneg)

lemma ms_duration_mono: "a - b \<le> c - d \<Longrightarrow> ms_duration a b \<le> ms_duration c d"
  unfolding ms_duration_def by (intro dbl_mono mult_right_mono) simp_all

text \<open>Monotone readings give ordered, non-negative durations, and rounding keeps the order.\<close>

lemma durations_ordered:
  assumes "monotone_clock w"
  shows "0 \<le> py_round2 (api_ms w) \<and> py_round2 (api_ms w) \<le> py_round2 (function_ms w)"
proof -
  let ?n = "reads w"
  have c: "clock w ?n \<le> clock w (Suc ?n)" "clock w (Suc ?n) \<le> clock w (Suc (Suc ?n))"
          "clock w (Suc (Suc ?n)) \<le> clock w (Suc (Suc (Suc ?n)))"
    using assms by (simp_all add: monotone_clock_reading)
  then have "0 \<le> api_ms w"
    by (simp add: api_ms_def ms_duration_nonneg)
  moreover have "api_ms w \<le> function_ms w"
    using c unfolding api_ms_def function_ms_def by (intro ms_duration_mono) simp
  ultimately show ?thesis
    using py_round2_nonneg py_round2_mono by blast
qed

subsection \<open>The examples\<close>

lemma example_ready: "speech_synthesizer example_module = Some example_synth"
  by (simp add: example_module_def)

lemma example_world_monotone: "monotone_clock (example_world f)"
  by (auto simp: monotone_clock_def example_world_def mono_def)

lemma get_json_text_ab:
  \<open>get_json 900 (body_of ''{"text": "ab"}'') = Inr (PDict [(py ''text'', PStr (py ''ab''))])\<close>
  by (simp add: get_json_def body_of_def utf8_eval json_eval)

lemma get_json_five: "get_json 900 (body_of ''5'') = Inr (PInt 5)"
  by (simp add: get_json_def body_of_def utf8_eval json_eval)

lemma get_json_list: \<open>get_json 900 (body_of ''["text"]'') = Inr (PList [PStr (py ''text'')])\<close>
  by (simp add: get_json_def body_of_def utf8_eval json_eval)

lemma metrics_body_example:
  \<open>json_dumps (metrics_payload 125 375) =
     py ''{"message": "Audio gerado com sucesso.", "metrics_internal": {"api_call_duration_ms": 125.0, "function_code_duration_ms": 375.0}}''\<close>
  by (simp add: metrics_body py_round2_def round_half_even_def repr2_def show_nat_def digits10.simps)

text \<open>The example's readings and durations are doubles, so no float operation rounds.\<close>

lemma example_dbl: "dbl (1/8) = 1/8" "dbl (3/8) = 3/8" "dbl 125 = 125" "dbl 375 = 375"
  using dbl_exact [of 1 3] dbl_exact [of 3 3] dbl_exact [of 125 0] dbl_exact [of 375 0]
  by simp_all

lemma example_durations: "ms_duration (1/4) (1/8) = 125" "ms_duration (3/8) 0 = 375"
  by (simp_all add: ms_duration_def example_dbl)

lemma example_world_fields: "recursion_budget (example_world f) = 900" "service (example_world f) = f"
  by (simp_all add: example_world_def)

lemma example_api_ms: "api_ms (example_world f) = 125"
  by (simp add: api_ms_def example_world_def example_durations)

lemma example_function_ms: "function_ms (example_world f) = 375"
  by (simp add: function_ms_def example_world_def example_durations)

text \<open>
  Float arithmetic shows in the report: with readings \<open>3.5\<close> and \<open>3.539215\<close> (the double
  \<open>7969603677592035 / 2^51\<close>) the product of line 57 rounds to a double just above
  \<open>39.215\<close>, reported as \<open>39.22\<close> as CPython does; the exact difference would give \<open>39.21\<close>.
\<close>

lemma float_duration_example:
  "ms_duration (7969603677592035 / 2251799813685248) (7/2) = 1379755151463547 / 35184372088832"
  "py_round2 (ms_duration (7969603677592035 / 2251799813685248) (7/2)) = 3922 / 100"
  "py_round2 ((7969603677592035 / 2251799813685248 - 7/2) * 1000) = 3921 / 100"
proof -
  have d: "dbl (7969603677592035 / 2251799813685248 - 7/2) = 88304329693667 / 2251799813685248"
    using dbl_exact [of 88304329693667 51] by simp
  have m: "dbl (88304329693667 / 2251799813685248 * 1000) = 1379755151463547 / 35184372088832"
    using dbl_normal [of 47 "88304329693667 / 2251799813685248 * 1000"]
    by (simp add: round_half_even_def)
  show v: "ms_duration (7969603677592035 / 2251799813685248) (7/2) = 1379755151463547 / 35184372088832"
    unfolding ms_duration_def d by (fact m)
  show "py_round2 (ms_duration (7969603677592035 / 2251799813685248) (7/2)) = 3922 / 100"
    unfolding v by (simp add: py_round2_def round_half_even_def)
  show "py_round2 ((7969603677592035 / 2251799813685248 - 7/2) * 1000) = 3921 / 100"
    by (simp add: py_round2_def round_half_even_def)
qed

lemma example_success_run:
  \<open>run_state (main example_module (body_of ''{"text": "ab"}'')) (example_world completed_service) =
     (Inr (json_response (json_dumps (metrics_payload 125 375))),
      snd (run_state (main example_module (body_of ''{"text": "ab"}'')) (example_world completed_service)))\<close>
  by (simp add: main_ready [OF example_ready] parse_body_value get_json_text_ab extract_text_dict_text
        synthesize_completed example_world_def completed_service_def example_durations)

text \<open>
  C1. While the synthesizer is absent (initialisation failed), every request, whatever its
  body, is answered 500 with the fixed critical-error text, and the handler has no
  effect at all: no clock reading and no call to the speech service.
\<close>

theorem main_not_ready:
  assumes "speech_synthesizer ms = None"
  shows "run_state (main ms req) w = (Inr (plain_response msg_not_initialized 500), w)"
  using assms by (simp add: main_def)

theorem main_not_ready_witness:
  "speech_synthesizer (load_settings Map.empty) = None \<and>
   run_state (main (load_settings Map.empty) (body_of ''{}'')) (example_world (\<lambda>_ _. Inl (mk_exn RuntimeError [])))
     = (Inr (plain_response msg_not_initialized 500), example_world (\<lambda>_ _. Inl (mk_exn RuntimeError [])))"
  using main_not_ready [of "load_settings Map.empty"] by (simp add: load_settings_def)

text \<open>
  C2. When the synthesizer is ready, the body is a JSON object with a "text" key and the
  service completes the synthesis, the handler answers 200 with the JSON metrics document:
  the call's duration is the float difference of the readings around the call, the
  handler's duration runs from the first reading to the last, both scaled to milliseconds
  in float arithmetic and rounded to two decimals; the trace is four readings with the one
  service call between the second and the third. The durations are below \<open>2^45\<close> ms,
  where \<open>repr\<close> of a float rounded to two decimals prints those two decimals.
\<close>

theorem main_success:
  assumes "speech_synthesizer ms = Some s"
    and "get_json (recursion_budget w) req = Inr (PDict d)" and "map_of d (py ''text'') = Some t"
    and "service w s t = Inr res" and "reason res = SynthesizingAudioCompleted"
    and "\<bar>api_ms w\<bar> < 2 ^ 45" and "\<bar>function_ms w\<bar> < 2 ^ 45"
  shows "run_state (main ms req) w =
           (Inr (json_response (json_dumps (metrics_payload (api_ms w) (function_ms w)))),
            w\<lparr>reads := Suc (Suc (Suc (Suc (reads w)))),
              events := events w @ [ClockRead (clock w (reads w)), ClockRead (clock w (Suc (reads w))),
                 SpeakCall t, ClockRead (clock w (Suc (Suc (reads w)))),
                 ClockRead (clock w (Suc (Suc (Suc (reads w)))))]\<rparr>)"
  using assms
  by (simp add: main_ready parse_body_value extract_text_dict_text synthesize_completed
      api_ms_def function_ms_def)

theorem main_success_witness:
  \<open>speech_synthesizer example_module = Some example_synth \<and>
   get_json 900 (body_of ''{"text": "ab"}'') = Inr (PDict [(py ''text'', PStr (py ''ab''))]) \<and>
   map_of [(py ''text'', PStr (py ''ab''))] (py ''text'') = Some (PStr (py ''ab'')) \<and>
   service (example_world completed_service) example_synth (PStr (py ''ab'')) =
     Inr \<lparr>reason = SynthesizingAudioCompleted, audio_data = []\<rparr> \<and>
   \<bar>api_ms (example_world completed_service)\<bar> < 2 ^ 45 \<and>
   \<bar>function_ms (example_world completed_service)\<bar> < 2 ^ 45 \<and>
   fst (run_state (main example_module (body_of ''{"text": "ab"}'')) (example_world completed_service)) =
     Inr (json_response (py ''{"message": "Audio gerado com sucesso.", "metrics_internal": {"api_call_duration_ms": 125.0, "function_code_duration_ms": 375.0}}''))\<close>
  using main_success [OF example_ready, of "example_world completed_service"]
    get_json_text_ab example_ready metrics_body_example example_api_ms example_function_ms
  by (simp add: completed_service_def example_world_fields)

text \<open>
  C3. A body that is not UTF-8 or not JSON (any ValueError of get_json) is answered 400
  with the invalid-JSON text after exactly one clock reading, without calling the service.
\<close>

theorem main_malformed_body:
  assumes "speech_synthesizer ms = Some s" "malformed_body (recursion_budget w) req"
  shows "run_state (main ms req) w =
           (Inr (plain_response msg_invalid_json 400),
            w\<lparr>reads := Suc (reads w), events := events w @ [ClockRead (clock w (reads w))]\<rparr>)"
  using assms by (simp add: main_ready parse_body_malformed)

theorem main_malformed_body_witness:
  "speech_synthesizer example_module = Some example_synth \<and>
   malformed_body 900 (body_of ''not json'') \<and>
   run_state (main example_module (body_of ''not json'')) (example_world (\<lambda>_ _. Inl (mk_exn RuntimeError []))) =
     (Inr (plain_response msg_invalid_json 400),
      (example_world (\<lambda>_ _. Inl (mk_exn RuntimeError [])))\<lparr>reads := 1, events := [ClockRead 0]\<rparr>)"
proof -
  have m: "malformed_body 900 (body_of ''not json'')"
    by (simp add: malformed_body_def get_json_def body_of_def utf8_eval json_eval)
  show ?thesis
    using main_malformed_body [OF example_ready, of "example_world (\<lambda>_ _. Inl (mk_exn RuntimeError []))"] m example_ready
    by (simp add: example_world_def)
qed

text \<open>
  C4. A JSON object without the key "text" is answered 400 with the missing-text message
  after one clock reading, without calling the service.
\<close>

theorem main_text_missing:
  assumes "speech_synthesizer ms = Some s"
    and "get_json (recursion_budget w) req = Inr (PDict d)" and "map_of d (py ''text'') = None"
  shows "run_state (main ms req) w =
           (Inr (plain_response msg_text_missing 400),
            w\<lparr>reads := Suc (reads w), events := events w @ [ClockRead (clock w (reads w))]\<rparr>)"
  using assms by (simp add: main_ready parse_body_value extract_text_dict_missing)

theorem main_text_missing_witness:
  "speech_synthesizer example_module = Some example_synth \<and>
   get_json 900 (body_of ''{}'') = Inr (PDict []) \<and> map_of [] (py ''text'') = (None :: pyval option) \<and>
   run_state (main example_module (body_of ''{}'')) (example_world (\<lambda>_ _. Inl (mk_exn RuntimeError []))) =
     (Inr (plain_response msg_text_missing 400),
      (example_world (\<lambda>_ _. Inl (mk_exn RuntimeError [])))\<lparr>reads := 1, events := [ClockRead 0]\<rparr>)"
proof -
  have g: "get_json 900 (body_of ''{}'') = Inr (PDict [])"
    by (simp add: get_json_def body_of_def utf8_eval json_eval)
  show ?thesis
    using main_text_missing [OF example_ready, of "example_world (\<lambda>_ _. Inl (mk_exn RuntimeError []))"] g example_ready
    by (simp add: example_world_def)
qed

text \<open>
  C5. When the service call raises an Exception whose text is ASCII, the handler answers 500
  with the API-error text followed by str(e).
\<close>

theorem main_service_raises:
  assumes "speech_synthesizer ms = Some s"
    and "get_json (recursion_budget w) req = Inr (PDict d)" and "map_of d (py ''text'') = Some t"
    and "service w s t = Inl e" and "isinstance e Exception" and "is_ascii (exn_str e)"
  shows "fst (run_state (main ms req) w) = Inr (plain_response (msg_api_error e) 500)"
proof -
  have "is_ascii (msg_api_error e)"
    using assms(6) by (simp add: msg_api_error_def)
  then show ?thesis
    using assms by (simp add: main_ready parse_body_value extract_text_dict_text synthesize_raises
                     api_error_def text_response_ascii)
qed

theorem main_service_raises_witness:
  \<open>speech_synthesizer example_module = Some example_synth \<and>
   get_json 900 (body_of ''{"text": "ab"}'') = Inr (PDict [(py ''text'', PStr (py ''ab''))]) \<and>
   map_of [(py ''text'', PStr (py ''ab''))] (py ''text'') = Some (PStr (py ''ab'')) \<and>
   service (example_world failing_service) example_synth (PStr (py ''ab'')) =
     Inl (mk_exn RuntimeError (py ''connection refused'')) \<and>
   isinstance (mk_exn RuntimeError (py ''connection refused'')) Exception \<and>
   is_ascii (exn_str (mk_exn RuntimeError (py ''connection refused''))) \<and>
   fst (run_state (main example_module (body_of ''{"text": "ab"}'')) (example_world failing_service)) =
     Inr (plain_response (py ''Erro na API do Azure Speech: connection refused'') 500)\<close>
  using main_service_raises [OF example_ready, of "example_world failing_service"]
    get_json_text_ab example_ready
  by (simp add: example_world_def failing_service_def msg_api_error_def)

text \<open>
  C6. When the service returns a result whose reason is not SynthesizingAudioCompleted, the
  handler answers 500 with the synthesis-error text naming the reason.
\<close>

theorem main_reason_failure:
  assumes "speech_synthesizer ms = Some s"
    and "get_json (recursion_budget w) req = Inr (PDict d)" and "map_of d (py ''text'') = Some t"
    and "service w s t = Inr res" and "reason res \<noteq> SynthesizingAudioCompleted"
  shows "fst (run_state (main ms req) w) = Inr (plain_response (msg_synthesis_error (reason res)) 500)"
  using assms by (simp add: main_ready parse_body_value extract_text_dict_text synthesize_reason)

theorem main_reason_failure_witness:
  \<open>speech_synthesizer example_module = Some example_synth \<and>
   get_json 900 (body_of ''{"text": "ab"}'') = Inr (PDict [(py ''text'', PStr (py ''ab''))]) \<and>
   map_of [(py ''text'', PStr (py ''ab''))] (py ''text'') = Some (PStr (py ''ab'')) \<and>
   service (example_world canceled_service) example_synth (PStr (py ''ab'')) =
     Inr \<lparr>reason = Canceled, audio_data = []\<rparr> \<and>
   Canceled \<noteq> SynthesizingAudioCompleted \<and>
   fst (run_state (main example_module (body_of ''{"text": "ab"}'')) (example_world canceled_service)) =
     Inr (plain_response (py ''Erro na sintese: ResultReason.Canceled'') 500)\<close>
  using main_reason_failure [OF example_ready, of "example_world canceled_service"]
    get_json_text_ab example_ready
  by (simp add: example_world_def canceled_service_def msg_synthesis_error_def reason_str_def)

text \<open>
  C7. Under a monotonic clock every 200 answer of the handler, whatever the request and
  module state, is the metrics document of two durations whose rounded values are
  non-negative and ordered: the service call never takes longer than the whole handler.
\<close>

theorem main_200_metrics:
  assumes "monotone_clock w" and "run_state (main ms req) w = (Inr r, w')"
    and "status_code r = 200"
  shows "\<exists>a f. resp_body r = map of_nat (json_dumps (metrics_payload a f)) \<and>
               0 \<le> py_round2 a \<and> py_round2 a \<le> py_round2 f"
  using main_200_shape [OF assms(2,3)] durations_ordered [OF assms(1)]
  by (auto simp: json_response_def)

theorem main_200_metrics_witness:
  \<open>monotone_clock (example_world completed_service) \<and>
   run_state (main example_module (body_of ''{"text": "ab"}'')) (example_world completed_service) =
     (Inr (json_response (json_dumps (metrics_payload 125 375))),
      snd (run_state (main example_module (body_of ''{"text": "ab"}'')) (example_world completed_service))) \<and>
   status_code (json_response (json_dumps (metrics_payload 125 375))) = 200 \<and>
   (\<exists>a f. resp_body (json_response (json_dumps (metrics_payload 125 375))) =
            map of_nat (json_dumps (metrics_payload a f)) \<and>
          0 \<le> py_round2 a \<and> py_round2 a \<le> py_round2 f)\<close>
proof -
  have st: "status_code (json_response (json_dumps (metrics_payload 125 375))) = 200"
    by (simp add: json_response_def)
  show ?thesis
    using main_200_metrics [OF example_world_monotone example_success_run st]
      example_world_monotone example_success_run st
    by blast
qed

text \<open>
  C8. The only exceptions that escape the handler are the RecursionError of a too deeply
  nested body, the TypeError and AttributeError of a JSON body that is not an object,
  the UnicodeEncodeError of an error text that is not encodable, and exceptions outside
  Exception raised by the service call; every other failure becomes a response.
\<close>

theorem main_escapes:
  assumes "fst (run_state (main ms req) w) = Inl e"
  shows "exc_type e \<in> {RecursionError, TypeError, AttributeError, UnicodeEncodeError} \<or>
         \<not> isinstance e Exception"
proof (cases "speech_synthesizer ms")
  case None
  with assms show ?thesis
    by (simp add: main_def)
next
  case (Some s)
  show ?thesis
  proof (cases "parse_body (recursion_budget w) req")
    case (Raise x)
    with assms Some show ?thesis
      by (auto simp: main_ready dest: parse_body_raise)
  next
    case (Return r)
    with assms Some show ?thesis
      by (simp add: main_ready)
  next
    case (Next t)
    with assms Some show ?thesis
      by (auto simp: main_ready dest: synthesize_error)
  qed
qed

theorem main_escapes_witness:
  "fst (run_state (main example_module (body_of ''5'')) (example_world completed_service)) =
     Inl (mk_exn TypeError (py (''argument of type '' @ [CHR 0x27] @ ''int'' @ [CHR 0x27] @ '' is not iterable''))) \<and>
   (exc_type (mk_exn TypeError (py (''argument of type '' @ [CHR 0x27] @ ''int'' @ [CHR 0x27] @ '' is not iterable'')))
      \<in> {RecursionError, TypeError, AttributeError, UnicodeEncodeError} \<or>
    \<not> isinstance (mk_exn TypeError (py (''argument of type '' @ [CHR 0x27] @ ''int'' @ [CHR 0x27] @ '' is not iterable''))) Exception)"
proof -
  have r: "fst (run_state (main example_module (body_of ''5'')) (example_world completed_service)) =
     Inl (mk_exn TypeError (py (''argument of type '' @ [CHR 0x27] @ ''int'' @ [CHR 0x27] @ '' is not iterable'')))"
    using get_json_five
    by (simp add: main_ready [OF example_ready] parse_body_value extract_text_scalar scalar_def
          example_world_def)
  show ?thesis
    using main_escapes [OF r] r by simp
qed

text \<open>
  C9. A truthy JSON scalar body (a number or true) makes the membership test of line 42 raise
  TypeError, which the except ValueError of line 47 does not catch: the exception escapes
  the handler after one clock reading and no service call, instead of a 400 answer.
\<close>

theorem main_scalar_body_raises:
  assumes "speech_synthesizer ms = Some s"
    and "get_json (recursion_budget w) req = Inr b" and "py_truthy b" and "scalar b"
  shows "run_state (main ms req) w =
           (Inl (mk_exn TypeError
              (py (''argument of type '' @ [CHR 0x27] @ type_name b @ [CHR 0x27] @ '' is not iterable''))),
            w\<lparr>reads := Suc (reads w), events := events w @ [ClockRead (clock w (reads w))]\<rparr>)"
  using assms by (simp add: main_ready parse_body_value extract_text_scalar)

theorem main_scalar_body_raises_witness:
  "speech_synthesizer example_module = Some example_synth \<and>
   get_json 900 (body_of ''5'') = Inr (PInt 5) \<and> py_truthy (PInt 5) \<and> scalar (PInt 5) \<and>
   run_state (main example_module (body_of ''5'')) (example_world completed_service) =
     (Inl (mk_exn TypeError (py (''argument of type '' @ [CHR 0x27] @ ''int'' @ [CHR 0x27] @ '' is not iterable''))),
      (example_world completed_service)\<lparr>reads := 1, events := [ClockRead 0]\<rparr>)"
  using main_scalar_body_raises [OF example_ready, of "example_world completed_service"]
    get_json_five example_ready
  by (simp add: example_world_def scalar_def)

text \<open>
  C10. A JSON list or string that contains "text" passes the test of line 42, and the call
  req_body.get of line 45 raises AttributeError, which escapes the handler.
\<close>

theorem main_no_get_raises:
  assumes "speech_synthesizer ms = Some s"
    and "get_json (recursion_budget w) req = Inr b" and "py_contains (py ''text'') b = Inr True"
    and "\<forall>d. b \<noteq> PDict d"
  shows "fst (run_state (main ms req) w) =
           Inl (mk_exn AttributeError
              (py ([CHR 0x27] @ type_name b @ [CHR 0x27] @ '' object has no attribute '' @
                   [CHR 0x27] @ ''get'' @ [CHR 0x27])))"
  using assms by (simp add: main_ready parse_body_value extract_text_no_get)

theorem main_no_get_raises_witness:
  \<open>speech_synthesizer example_module = Some example_synth \<and>
   get_json 900 (body_of ''["text"]'') = Inr (PList [PStr (py ''text'')]) \<and>
   py_contains (py ''text'') (PList [PStr (py ''text'')]) = Inr True \<and>
   (\<forall>d. PList [PStr (py ''text'')] \<noteq> PDict d) \<and>
   fst (run_state (main example_module (body_of ''["text"]'')) (example_world completed_service)) =
     Inl (mk_exn AttributeError (py ([CHR 0x27] @ ''list'' @ [CHR 0x27] @ '' object has no attribute '' @
                   [CHR 0x27] @ ''get'' @ [CHR 0x27])))\<close>
  using main_no_get_raises [OF example_ready, of "example_world completed_service"]
    get_json_list example_ready
  by (simp add: example_world_def)

text \<open>
  C11. A body of more opening brackets than the remaining recursion budget makes get_json
  raise RecursionError, which is not a ValueError: it escapes the handler after one clock
  reading instead of a 400 answer.
\<close>

theorem main_deep_nesting_raises:
  assumes "speech_synthesizer ms = Some s"
    and "recursion_budget w \<le> n" and "req_body req = replicate (Suc n) 91"
  shows "run_state (main ms req) w =
           (Inl (depth_error (FArr [])),
            w\<lparr>reads := Suc (reads w), events := events w @ [ClockRead (clock w (reads w))]\<rparr>)"
proof -
  have "utf8_decode (req_body req) = Inr (replicate (Suc n) 91)"
    using utf8_decode_ascii [of "replicate (Suc n) 91"] assms(3) by simp
  then have "get_json (recursion_budget w) req = Inl (depth_error (FArr []))"
    using json_loads_nested [OF assms(2)] by (simp add: get_json_def)
  then show ?thesis
    using assms(1) by (simp add: main_ready parse_body_def depth_error_def)
qed

theorem main_deep_nesting_raises_witness:
  "speech_synthesizer example_module = Some example_synth \<and>
   recursion_budget (example_world completed_service) \<le> 900 \<and>
   req_body \<lparr>req_body = replicate 901 91\<rparr> = replicate (Suc 900) 91 \<and>
   run_state (main example_module \<lparr>req_body = replicate 901 91\<rparr>) (example_world completed_service) =
     (Inl (depth_error (FArr [])),
      (example_world completed_service)\<lparr>reads := 1, events := [ClockRead 0]\<rparr>)"
  using main_deep_nesting_raises [OF example_ready, of "example_world completed_service" 900
      "\<lparr>req_body = replicate 901 91\<rparr>"] example_ready
  by (simp add: example_world_def del: replicate_Suc)

end
