(* ===== verification/Process.thy ===== *)
theory Process
  imports Handler
begin

text \<open>
  The life of one worker process of the Function App: the module body runs once at import
  (\<open>module_init\<close>, lines 7--25); if it raises, the import is aborted; otherwise the host
  invokes \<open>main\<close> (lines 28--81) on any sequence of requests, each against the module state
  the import left, which no invocation changes. The step relation \<open>proc_step\<close> has one rule
  per transition and \<open>reachable\<close> closes it from the initial world; the invariants of the
  reachable configurations are proved by rule induction from what one invocation does to
  the world (\<open>invocation_effect\<close>).
\<close>

datatype proc = Importing | Aborted exn | Serving module_state

inductive proc_step :: "sdk \<Rightarrow> environ \<Rightarrow> proc \<times> world \<Rightarrow> proc \<times> world \<Rightarrow> bool" where
  init_ok: "run_state (module_init k env) w = (Inr ms, w') \<Longrightarrow>
              proc_step k env (Importing, w) (Serving ms, w')"
| init_abort: "run_state (module_init k env) w = (Inl e, w') \<Longrightarrow>
              proc_step k env (Importing, w) (Aborted e, w')"
| request: "run_state (main ms req) w = (r, w') \<Longrightarrow>
              proc_step k env (Serving ms, w) (Serving ms, w')"

inductive reachable :: "sdk \<Rightarrow> environ \<Rightarrow> world \<Rightarrow> proc \<times> world \<Rightarrow> bool" where
  start: "reachable k env w0 (Importing, w0)"
| step: "reachable k env w0 c \<Longrightarrow> proc_step k env c c' \<Longrightarrow> reachable k env w0 c'"

text \<open>What one invocation of the handler does to the world.\<close>

definition invocation_effect :: "world \<Rightarrow> world \<Rightarrow> bool" where
  "invocation_effect w w' \<longleftrightarrow>
     (\<exists>new. events w' = events w @ new \<and> handler_trace new \<and>
            readings new = map (clock w) [reads w..<reads w'] \<and> reads w \<le> reads w') \<and>
     clock w' = clock w \<and> service w' = service w \<and> recursion_budget w' = recursion_budget w"

text \<open>Example processes: one whose import succeeds, one whose SDK refuses the missing region.\<close>

definition ready_module :: module_state where
  "ready_module = fst (build_synthesizer never_raises (load_settings example_env))"

definition failed_module :: module_state where
  "failed_module = (load_settings Map.empty)\<lparr>speech_synthesizer := None\<rparr>"

section \<open>Lemmas\<close>

inductive_cases proc_step_ServingE: "proc_step k env (Serving ms, w) c'"
inductive_cases proc_step_ImportingE: "proc_step k env (Importing, w) c'"

inductive_simps proc_step_Aborted: "proc_step k env (Aborted e, w) c'"

text \<open>An aborted import is final: the process never serves.\<close>

lemma aborted_final: "\<not> proc_step k env (Aborted e, w) c"
  by (simp add: proc_step_Aborted)

lemma invocation_effect_intro:
  "handler_trace new \<Longrightarrow> readings new = map (clock w) [reads w..<n] \<Longrightarrow> reads w \<le> n \<Longrightarrow>
   invocation_effect w (w\<lparr>reads := n, events := events w @ new\<rparr>)"
  unfolding invocation_effect_def by auto

lemma invocation_effect_refl: "invocation_effect w w"
  unfolding invocation_effect_def by (auto intro: exI [of _ "[]"])

lemma main_effect: "run_state (main ms req) w = (r, w') \<Longrightarrow> invocation_effect w w'"
proof (cases "speech_synthesizer ms")
  case None
  moreover assume "run_state (main ms req) w = (r, w')"
  ultimately have "w' = w"
    by (simp add: main_def)
  then show ?thesis
    by (simp add: invocation_effect_refl)
next
  case (Some s)
  assume run: "run_state (main ms req) w = (r, w')"
  show ?thesis
  proof (cases "parse_body (recursion_budget w) req")
    case (Raise e)
    with run Some have "w' = w\<lparr>reads := Suc (reads w), events := events w @ [ClockRead (clock w (reads w))]\<rparr>"
      by (simp add: main_ready)
    then show ?thesis
      by (simp add: invocation_effect_intro)
  next
    case (Return x)
    with run Some have "w' = w\<lparr>reads := Suc (reads w), events := events w @ [ClockRead (clock w (reads w))]\<rparr>"
      by (simp add: main_ready)
    then show ?thesis
      by (simp add: invocation_effect_intro)
  next
    case (Next t)
    let ?w1 = "w\<lparr>reads := Suc (reads w), events := events w @ [ClockRead (clock w (reads w))]\<rparr>"
    show ?thesis
    proof (cases ?w1 s t rule: synthesize_cases)
      case (raises e)
      with run Some Next have "w' = w\<lparr>reads := Suc (Suc (reads w)),
          events := events w @ [ClockRead (clock w (reads w)), ClockRead (clock w (Suc (reads w))), SpeakCall t]\<rparr>"
        by (simp add: main_ready synthesize_raises)
      then show ?thesis
        by (simp add: invocation_effect_intro upt_rec)
    next
      case (reason res)
      with run Some Next have "w' = w\<lparr>reads := Suc (Suc (Suc (reads w))),
          events := events w @ [ClockRead (clock w (reads w)), ClockRead (clock w (Suc (reads w))), SpeakCall t,
                                ClockRead (clock w (Suc (Suc (reads w))))]\<rparr>"
        by (simp add: main_ready synthesize_reason)
      then show ?thesis
        by (simp add: invocation_effect_intro upt_rec)
    next
      case (completed res)
      with run Some Next have "w' = w\<lparr>reads := Suc (Suc (Suc (Suc (reads w)))),
          events := events w @ [ClockRead (clock w (reads w)), ClockRead (clock w (Suc (reads w))), SpeakCall t,
                                ClockRead (clock w (Suc (Suc (reads w)))),
                                ClockRead (clock w (Suc (Suc (Suc (reads w)))))]\<rparr>"
        by (simp add: main_ready synthesize_completed)
      then show ?thesis
        by (simp add: invocation_effect_intro upt_rec)
    qed
  qed
qed

subsection \<open>Invariants of the reachable configurations\<close>

lemma reachable_invocations:
  "reachable k env w0 c \<Longrightarrow>
   readings (events (snd c)) = readings (events w0) @ map (clock w0) [reads w0..<reads (snd c)] \<and>
   reads w0 \<le> reads (snd c) \<and> clock (snd c) = clock w0 \<and> service (snd c) = service w0"
proof (induction rule: reachable.induct)
  case (start k env w0)
  then show ?case by simp
next
  case (step k env w0 c c')
  from step.hyps(2) step.IH show ?case
  proof cases
    case (init_ok w ms w')
    then show ?thesis
      using step.IH module_init_effect [of k env w "Inr ms" w'] by auto
  next
    case (init_abort w e w')
    then show ?thesis
      using step.IH module_init_effect [of k env w "Inl e" w'] by auto
  next
    case (request ms req w r w')
    then have "invocation_effect w w'"
      by (intro main_effect)
    then obtain new where "events w' = events w @ new" "readings new = map (clock w) [reads w..<reads w']"
      "reads w \<le> reads w'" "clock w' = clock w" "service w' = service w"
      unfolding invocation_effect_def by blast
    with request step.IH show ?thesis
      by (auto simp: upt_append simp flip: map_append)
  qed
qed

lemma main_not_ready_world:
  "speech_synthesizer ms = None \<Longrightarrow> run_state (main ms req) w = (r, w') \<Longrightarrow> w' = w"
  by (simp add: main_def)

lemma reachable_failed_world:
  "reachable k env w0 c \<Longrightarrow>
   (case c of
      (Importing, w) \<Rightarrow> w = w0
    | (Serving ms, w) \<Rightarrow> speech_synthesizer ms = None \<longrightarrow>
         w = w0 \<or> (\<exists>m. w = w0\<lparr>events := events w0 @ [Stdout m]\<rparr>)
    | (Aborted e, w) \<Rightarrow> True)"
proof (induction rule: reachable.induct)
  case (start k env w0)
  then show ?case by simp
next
  case (step k env w0 c c')
  from step.hyps(2) step.IH show ?case
  proof cases
    case (init_ok w ms w')
    then show ?thesis
      using step.IH module_init_effect [of k env w "Inr ms" w'] by auto
  next
    case (init_abort w e w')
    then show ?thesis by simp
  next
    case (request ms req w r w')
    then show ?thesis
      using step.IH main_not_ready_world [of ms req w r w'] by auto
  qed
qed

lemma reachable_synthesizer:
  "reachable k env w0 c \<Longrightarrow>
   (case fst c of Serving ms \<Rightarrow> \<forall>s. speech_synthesizer ms = Some s \<longrightarrow> synthesizer_ok env s
    | _ \<Rightarrow> True)"
proof (induction rule: reachable.induct)
  case (start k env w0)
  then show ?case by simp
next
  case (step k env w0 c c')
  from step.hyps(2) step.IH show ?case
  proof cases
    case (init_ok w ms w')
    then show ?thesis
      using module_init_synthesizer_ok [of k env w ms] by simp
  qed simp_all
qed

lemma reachable_trace_segments:
  "reachable k env w0 c \<Longrightarrow>
   (case fst c of
      Importing \<Rightarrow> events (snd c) = events w0
    | _ \<Rightarrow> \<exists>pre segs. events (snd c) = events w0 @ pre @ concat segs \<and> length pre \<le> 1 \<and>
            (\<forall>ev\<in>set pre. \<exists>m. ev = Stdout m) \<and> (\<forall>x\<in>set segs. handler_trace x))"
proof (induction rule: reachable.induct)
  case (start k env w0)
  then show ?case by simp
next
  case (step k env w0 c c')
  from step.hyps(2) step.IH show ?case
  proof cases
    case (init_ok w ms w')
    then have "events w = events w0"
      using step.IH by simp
    moreover from init_ok have "w' = w \<or> (\<exists>m. w' = w\<lparr>events := events w @ [Stdout m]\<rparr>)"
      by (intro module_init_effect)
    ultimately show ?thesis
      using init_ok by (fastforce intro: exI [of _ "[]"])
  next
    case (init_abort w e w')
    then have "events w = events w0"
      using step.IH by simp
    moreover from init_abort have "w' = w \<or> (\<exists>m. w' = w\<lparr>events := events w @ [Stdout m]\<rparr>)"
      by (intro module_init_effect)
    ultimately show ?thesis
      using init_abort by (fastforce intro: exI [of _ "[]"])
  next
    case (request ms req w r w')
    then obtain pre segs where ih: "events w = events w0 @ pre @ concat segs" "length pre \<le> 1"
      "\<forall>ev\<in>set pre. \<exists>m. ev = Stdout m" "\<forall>x\<in>set segs. handler_trace x"
      using step.IH by auto
    from request have "invocation_effect w w'"
      by (intro main_effect)
    then obtain new where "events w' = events w @ new" "handler_trace new"
      unfolding invocation_effect_def by blast
    with ih request show ?thesis
      by (auto intro!: exI [of _ pre] exI [of _ "segs @ [new]"])
  qed
qed

subsection \<open>Example runs\<close>

lemma ready_module_synth: "speech_synthesizer ready_module = Some example_synth"
  by (simp add: ready_module_def build_synthesizer_def never_raises_def SpeechConfig_def
        AudioOutputConfig_def SpeechSynthesizer_def Let_def load_settings_def example_env_def
        example_synth_def)

lemma reachable_ready:
  "reachable never_raises example_env w (Serving ready_module, w)"
proof -
  have "build_synthesizer never_raises (load_settings example_env) = (ready_module, None)"
    by (simp add: ready_module_def build_synthesizer_def never_raises_def SpeechConfig_def
          AudioOutputConfig_def SpeechSynthesizer_def Let_def)
  then have "run_state (module_init never_raises example_env) w = (Inr ready_module, w)"
    by (simp add: module_init_cases)
  then show ?thesis
    by (rule reachable.step [OF reachable.start proc_step.init_ok])
qed

lemma reachable_ready_request:
  "reachable never_raises example_env w
     (Serving ready_module, snd (run_state (main ready_module req) w))"
proof -
  have "run_state (main ready_module req) w =
          (fst (run_state (main ready_module req) w), snd (run_state (main ready_module req) w))"
    by simp
  then show ?thesis
    by (rule reachable.step [OF reachable_ready proc_step.request])
qed

lemma reachable_failed_request:
  "reachable bad_region Map.empty w
     (Serving failed_module,
      snd (run_state (main failed_module req)
        (w\<lparr>events := events w @ [Stdout (init_error_message (mk_exn ValueError (py ''invalid region'')))]\<rparr>)))"
proof -
  have "build_synthesizer bad_region (load_settings Map.empty) =
     (load_settings Map.empty, Some (mk_exn ValueError (py ''invalid region'')))"
    by (simp add: build_synthesizer_def bad_region_def never_raises_def SpeechConfig_def load_settings_def)
  then have "run_state (module_init bad_region Map.empty) w =
     (Inr failed_module,
      w\<lparr>events := events w @ [Stdout (init_error_message (mk_exn ValueError (py ''invalid region'')))]\<rparr>)"
    by (simp add: module_init_cases failed_module_def)
  then have "reachable bad_region Map.empty w
     (Serving failed_module,
      w\<lparr>events := events w @ [Stdout (init_error_message (mk_exn ValueError (py ''invalid region'')))]\<rparr>)"
    by (rule reachable.step [OF reachable.start proc_step.init_ok])
  then show ?thesis
    by (rule reachable.step) (rule proc_step.request, rule prod.collapse [symmetric])
qed

text \<open>
  C15. A failed initialisation is permanent and silent: once the process serves with no
  synthesizer, no number of requests ever reads the clock or calls the speech service;
  the world differs from the initial one at most by the one line initialisation printed.
\<close>

theorem serving_failed_silent:
  "reachable k env w0 (Serving ms, w) \<Longrightarrow> speech_synthesizer ms = None \<Longrightarrow>
   w = w0 \<or> (\<exists>m. w = w0\<lparr>events := events w0 @ [Stdout m]\<rparr>)"
  using reachable_failed_world by fastforce

theorem serving_failed_silent_witness:
  "reachable bad_region Map.empty (example_world completed_service)
     (Serving failed_module,
      snd (run_state (main failed_module (body_of ''{}''))
        ((example_world completed_service)\<lparr>events := [Stdout (init_error_message (mk_exn ValueError (py ''invalid region'')))]\<rparr>))) \<and>
   speech_synthesizer failed_module = None \<and>
   (snd (run_state (main failed_module (body_of ''{}''))
        ((example_world completed_service)\<lparr>events := [Stdout (init_error_message (mk_exn ValueError (py ''invalid region'')))]\<rparr>))
      = example_world completed_service \<or>
    (\<exists>m. snd (run_state (main failed_module (body_of ''{}''))
        ((example_world completed_service)\<lparr>events := [Stdout (init_error_message (mk_exn ValueError (py ''invalid region'')))]\<rparr>))
      = (example_world completed_service)\<lparr>events := events (example_world completed_service) @ [Stdout m]\<rparr>))"
proof -
  have r: "reachable bad_region Map.empty (example_world completed_service)
     (Serving failed_module,
      snd (run_state (main failed_module (body_of ''{}''))
        ((example_world completed_service)\<lparr>events := [Stdout (init_error_message (mk_exn ValueError (py ''invalid region'')))]\<rparr>)))"
    using reachable_failed_request [of "example_world completed_service" "body_of ''{}''"]
    by (simp add: example_world_def)
  have n: "speech_synthesizer failed_module = None"
    by (simp add: failed_module_def)
  show ?thesis
    using serving_failed_silent [OF r n] r n by blast
qed

text \<open>
  C16. The trace of a serving process is the optional line printed by initialisation followed
  by one segment per request, each of the shape handler_trace: no reading, the start
  reading, or two readings, the one service call, and at most two readings after it.
\<close>

theorem serving_trace_shape:
  assumes "reachable k env w0 (Serving ms, w)"
  shows "\<exists>pre segs. events w = events w0 @ pre @ concat segs \<and> length pre \<le> 1 \<and>
           (\<forall>ev\<in>set pre. \<exists>m. ev = Stdout m) \<and> (\<forall>x\<in>set segs. handler_trace x)"
  using reachable_trace_segments [OF assms] by simp

theorem serving_trace_shape_witness:
  "reachable never_raises example_env (example_world completed_service)
     (Serving ready_module, snd (run_state (main ready_module (body_of ''{}'')) (example_world completed_service))) \<and>
   (\<exists>pre segs. events (snd (run_state (main ready_module (body_of ''{}'')) (example_world completed_service))) =
        events (example_world completed_service) @ pre @ concat segs \<and> length pre \<le> 1 \<and>
      (\<forall>ev\<in>set pre. \<exists>m. ev = Stdout m) \<and> (\<forall>x\<in>set segs. handler_trace x))"
  using serving_trace_shape [OF reachable_ready_request] reachable_ready_request by blast

end
