(* ===== verification/JsonRoundtrip.thy ===== *)
theory JsonRoundtrip
  imports JsonLoads JsonDumps
begin

text \<open>
  The decoder reads back what the encoder writes: \<open>json.loads(json.dumps(v)) == v\<close> for
  every value \<open>json.dumps\<close> renders faithfully (\<open>dumpable\<close>: strings of encodable code
  points, dictionaries without repeated keys, integers within the 4300-digit limit, floats
  that are multiples of one hundredth below \<open>2^46\<close>) and whose nesting fits the recursion
  budget (\<open>fits\<close>). The proof follows the scanner: a generalised lemma states that scanning
  \<open>json_dumps v\<close> followed by any admissible continuation, with any stack of open
  containers, ends by reducing \<open>v\<close> into that stack (\<open>json_run_dumps\<close>), by structural
  induction on \<open>v\<close> with inner inductions over the elements of arrays and the members of
  objects; strings, numbers and escapes are read back by lemmas on \<open>lex_str\<close>,
  \<open>lex_number\<close> and \<open>hex4\<close>.
\<close>

text \<open>What may follow a value in the output of \<open>json.dumps\<close>: nothing, a comma or a closing bracket.\<close>

definition value_end :: "pystr \<Rightarrow> bool" where
  "value_end r \<longleftrightarrow> r = [] \<or> hd r = 44 \<or> hd r = 93 \<or> hd r = 125"

definition digit_free_start :: "pystr \<Rightarrow> bool" where
  "digit_free_start r \<longleftrightarrow> r = [] \<or> \<not> is_digit (hd r)"

definition frac_digits :: "nat \<Rightarrow> pystr" where
  "frac_digits fr = (if fr mod 10 = 0 then [48 + fr div 10] else [48 + fr div 10, 48 + fr mod 10])"

definition json_cont :: "nat \<Rightarrow> jerr + step \<Rightarrow> jerr + (pyval \<times> pystr \<times> nat)" where
  "json_cont dl r =
     (case r of
        Inl e \<Rightarrow> Inl e
      | Inr (Finished v r q) \<Rightarrow> Inr (v, r, q)
      | Inr (Continue m st r q) \<Rightarrow> json_run dl m st r q)"

fun dumpable :: "pyval \<Rightarrow> bool" where
  "dumpable (PInt i) = (length (show_nat (nat \<bar>i\<bar>)) \<le> 4300)"
| "dumpable (PFloat (Finite q)) = (is_hundredths q \<and> \<bar>q\<bar> < 2 ^ 46)"
| "dumpable (PStr s) = (\<forall>c\<in>set s. encodable c)"
| "dumpable (PList xs) = (\<forall>x\<in>set xs. dumpable x)"
| "dumpable (PDict d) =
     (distinct (map fst d) \<and> (\<forall>kv\<in>set d. (\<forall>c\<in>set (fst kv). encodable c) \<and> dumpable (snd kv)))"
| "dumpable _ = True"

fun fits :: "nat \<Rightarrow> pyval \<Rightarrow> bool" where
  "fits n (PList xs) = (0 < n \<and> (\<forall>x\<in>set xs. fits (n - 1) x))"
| "fits n (PDict d) = (0 < n \<and> (\<forall>kv\<in>set d. fits (n - 1) (snd kv)))"
| "fits n _ = True"

definition member_str :: "pystr \<times> pyval \<Rightarrow> pystr" where
  "member_str kv = json_str (fst kv) @ 58 # 32 # json_dumps (snd kv)"

section \<open>Lemmas\<close>

lemma hex_val_hex_digit [simp]: "d < 16 \<Longrightarrow> hex_val (hex_digit d) = Some d"
  by (simp add: hex_val_def hex_digit_def)

lemma split_hex4:
  assumes "(n::nat) < 65536"
  shows "n = 4096 * (n div 4096 mod 16) + 256 * (n div 256 mod 16) + 16 * (n div 16 mod 16) + n mod 16"
proof -
  have a: "n = 16 * (n div 16) + n mod 16"
    by simp
  have "n div 16 div 16 = n div 256"
    by (simp add: div_mult2_eq [symmetric])
  then have b: "n div 16 = 16 * (n div 256) + n div 16 mod 16"
    by (metis mult_div_mod_eq)
  have "n div 256 div 16 = n div 4096"
    by (simp add: div_mult2_eq [symmetric])
  then have c: "n div 256 = 16 * (n div 4096) + n div 256 mod 16"
    by (metis mult_div_mod_eq)
  have "n div 4096 < 16"
    using assms by (simp add: less_mult_imp_div_less)
  then have d: "n div 4096 mod 16 = n div 4096"
    by simp
  from a b c d show ?thesis
    by linarith
qed

lemma hex4_hex4_digits:
  assumes "n < 65536"
  shows "hex4 (hex4_digits n @ r) = Some n"
proof -
  have fold: "foldl (\<lambda>acc d. 16 * acc + d) 0 [n div 4096 mod 16, n div 256 mod 16, n div 16 mod 16, n mod 16] = n"
  proof -
    have "foldl (\<lambda>acc d. 16 * acc + d) 0 [n div 4096 mod 16, n div 256 mod 16, n div 16 mod 16, n mod 16] =
            4096 * (n div 4096 mod 16) + 256 * (n div 256 mod 16) + 16 * (n div 16 mod 16) + n mod 16"
      by (simp add: algebra_simps)
    also have "\<dots> = n"
      by (rule split_hex4 [OF assms, symmetric])
    finally show ?thesis .
  qed
  have "hex4 (hex4_digits n @ r) =
          Some (foldl (\<lambda>acc d. 16 * acc + d) 0 [n div 4096 mod 16, n div 256 mod 16, n div 16 mod 16, n mod 16])"
    by (simp add: hex4_def hex4_digits_def del: foldl_Cons foldl_Nil)
  also have "\<dots> = Some n"
    by (simp only: fold)
  finally show ?thesis .
qed

lemma length_hex4_digits [simp]: "length (hex4_digits n) = 4"
  by (simp add: hex4_digits_def)

lemma lex_str_u_escape:
  assumes "u < 65536" "\<not> is_surrogate u"
  shows "lex_str st acc (u_escape u @ ys) p = lex_str st (u # acc) ys (p + 6)"
proof -
  have "\<not> (55296 \<le> u \<and> u \<le> 56319)"
    using assms(2) by (auto simp: is_surrogate_def)
  then show ?thesis
    using hex4_hex4_digits [OF assms(1), of ys] by (auto simp: u_escape_def)
qed

lemma lex_str_surrogate_pair:
  assumes "65536 \<le> c" "c < 1114112"
  shows "lex_str st acc (u_escape (55296 + (c - 65536) div 1024) @ u_escape (56320 + (c - 65536) mod 1024) @ ys) p =
           lex_str st (c # acc) ys (p + 12)"
proof -
  define hi lo where "hi = 55296 + (c - 65536) div 1024" and "lo = 56320 + (c - 65536) mod 1024"
  have "(c - 65536) div 1024 < 1024"
    using assms by (simp add: less_mult_imp_div_less)
  then have h: "55296 \<le> hi" "hi \<le> 56319" "hi < 65536"
    by (simp_all add: hi_def)
  have l: "56320 \<le> lo" "lo \<le> 57343" "lo < 65536"
    by (simp_all add: lo_def)
  have j: "65536 + (hi - 55296) * 1024 + (lo - 56320) = c"
    using assms by (simp add: hi_def lo_def)
  have "hex4 (hex4_digits hi @ u_escape lo @ ys) = Some hi"
    by (rule hex4_hex4_digits [OF h(3)])
  moreover have "hex4 (hex4_digits lo @ ys) = Some lo"
    by (rule hex4_hex4_digits [OF l(3)])
  ultimately show ?thesis
    unfolding hi_def [symmetric] lo_def [symmetric]
    using h l j by (simp add: u_escape_def)
qed

lemma lex_str_escape:
  assumes "encodable c"
  shows "lex_str st acc (json_escape c @ ys) p = lex_str st (c # acc) ys (p + length (json_escape c))"
proof -
  have c: "c < 1114112" "\<not> is_surrogate c"
    using assms by (simp_all add: encodable_def)
  consider "c = 92" | "c = 34" | "c = 8" | "c = 12" | "c = 10" | "c = 13" | "c = 9"
    | "c \<notin> {92, 34, 8, 12, 10, 13, 9}" "32 \<le> c \<and> c \<le> 126"
    | "c \<notin> {92, 34, 8, 12, 10, 13, 9}" "\<not> (32 \<le> c \<and> c \<le> 126)" "c < 65536"
    | "c \<notin> {92, 34, 8, 12, 10, 13, 9}" "\<not> (32 \<le> c \<and> c \<le> 126)" "\<not> c < 65536"
    by blast
  then show ?thesis
  proof cases
    case 8
    then show ?thesis
      by (simp add: json_escape_def)
  next
    case 9
    then have "json_escape c = u_escape c"
      by (auto simp: json_escape_def)
    then show ?thesis
      using lex_str_u_escape [OF 9(3) c(2)] by (simp add: u_escape_def)
  next
    case 10
    then have "json_escape c = u_escape (55296 + (c - 65536) div 1024) @ u_escape (56320 + (c - 65536) mod 1024)"
      by (auto simp: json_escape_def)
    then show ?thesis
      using lex_str_surrogate_pair [of c st acc ys p] 10(3) c(1) by (simp add: u_escape_def)
  qed (simp_all add: json_escape_def simple_escape_def)
qed

lemma lex_str_json_str:
  "\<forall>c\<in>set s. encodable c \<Longrightarrow>
   lex_str st acc (concat (map json_escape s) @ 34 # rest) p =
     Inr (rev acc @ s, rest, p + length (concat (map json_escape s)) + 1)"
proof (induction s arbitrary: acc p)
  case Nil
  then show ?case by simp
next
  case (Cons c s)
  then show ?case
    by (simp add: lex_str_escape del: lex_str.simps)
qed

lemma value_end_not_digit: "value_end r \<Longrightarrow> r = c # r' \<Longrightarrow> \<not> is_digit c \<and> c \<noteq> 46 \<and> c \<noteq> 101 \<and> c \<noteq> 69"
  by (auto simp: value_end_def is_digit_def)

lemma num_frac_part_end: "value_end r \<Longrightarrow> num_frac_part r = ([], r)"
  by (auto simp: num_frac_part_def value_end_def split: list.split)

lemma num_exp_part_end: "value_end r \<Longrightarrow> num_exp_part r = (None, r)"
  by (auto simp: num_exp_part_def value_end_def split: list.split)

lemma show_nat_Cons: "\<exists>d ds. show_nat n = d # ds"
  by (cases "show_nat n") simp_all

lemma show_nat_hd_zero: "show_nat n = 48 # ds \<Longrightarrow> n = 0 \<and> ds = []"
proof -
  assume a: "show_nat n = 48 # ds"
  show ?thesis
  proof (cases "n < 10")
    case True
    with a show ?thesis
      by (simp add: show_nat_def digits10.simps [of n])
  next
    case False
    then have "1 < length (show_nat n)"
      by (simp add: show_nat_def digits10.simps [of n])
    with a show ?thesis
      using show_nat_hd_nonzero [of n] by simp
  qed
qed

lemma value_end_digit_free: "value_end r \<Longrightarrow> digit_free_start r"
  by (auto simp: value_end_def digit_free_start_def is_digit_def)

lemma takeWhile_digits:
  "\<forall>c\<in>set ds. is_digit c \<Longrightarrow> digit_free_start r \<Longrightarrow>
   takeWhile is_digit (ds @ r) = ds \<and> dropWhile is_digit (ds @ r) = r"
proof -
  assume d: "\<forall>c\<in>set ds. is_digit c" and e: "digit_free_start r"
  have "takeWhile is_digit r = [] \<and> dropWhile is_digit r = r"
    using e by (cases r) (auto simp: digit_free_start_def)
  with d show ?thesis
    by (simp add: takeWhile_append2 dropWhile_append2 takeWhile_eq_all_conv dropWhile_eq_Nil_conv)
qed

lemma takeWhile_digits_show_nat:
  "digit_free_start r \<Longrightarrow> takeWhile is_digit (show_nat n @ r) = show_nat n \<and>
                     dropWhile is_digit (show_nat n @ r) = r"
proof -
  assume e: "digit_free_start r"
  have d: "\<forall>c\<in>set (show_nat n). is_digit c"
    using show_nat_digits by blast
  from d e show ?thesis
    by (rule takeWhile_digits)
qed

lemma num_int_part_show_nat:
  "digit_free_start r \<Longrightarrow> num_int_part (show_nat n @ r) = Some (show_nat n, r)"
proof -
  assume e: "digit_free_start r"
  obtain d ds where sn: "show_nat n = d # ds"
    using show_nat_Cons by blast
  show ?thesis
  proof (cases "d = 48")
    case True
    with sn have "n = 0 \<and> ds = []"
      using show_nat_hd_zero by blast
    with sn True show ?thesis
      by (simp add: num_int_part_def)
  next
    case False
    have "is_digit d"
      using show_nat_digits [of d n] sn by simp
    with False sn takeWhile_digits_show_nat [OF e, of n] show ?thesis
      by (simp add: num_int_part_def)
  qed
qed

lemma digits_of_show_nat [simp]: "digits_value (digits_of (show_nat n)) = n"
  by (simp add: digits_of_def)

lemma length_show_int: "length (show_int i) = (if i < 0 then 1 else 0) + length (show_nat (nat \<bar>i\<bar>))"
  by (simp add: show_int_def)

lemma lex_number_show_int:
  assumes "value_end r" "length (show_nat (nat \<bar>i\<bar>)) \<le> 4300"
  shows "lex_number (show_int i @ r) p = Some (Inr (PInt i, r, p + length (show_int i)))"
proof (cases "i < 0")
  case True
  then show ?thesis
    using assms num_int_part_show_nat [OF value_end_digit_free [OF assms(1)], of "nat (- i)"]
    by (simp add: lex_number_def show_int_def num_frac_part_end num_exp_part_end num_value_def
          int_max_str_digits_def)
next
  case False
  obtain d ds where sn: "show_nat (nat i) = d # ds"
    using show_nat_Cons by blast
  have "d \<noteq> 45"
    using show_nat_digits [of d "nat i"] sn by (simp add: is_digit_def)
  with False sn show ?thesis
    using assms num_int_part_show_nat [OF value_end_digit_free [OF assms(1)], of "nat i"] digits_of_show_nat [of "nat i"]
    by (simp add: lex_number_def show_int_def num_frac_part_end num_exp_part_end num_value_def
          int_max_str_digits_def)
qed

lemma rat_hundredths_sign:
  assumes "is_hundredths q"
  shows "(if \<lfloor>q * 100\<rfloor> < 0 then - (of_nat (nat \<bar>\<lfloor>q * 100\<rfloor>\<bar>) / 100)
          else of_nat (nat \<bar>\<lfloor>q * 100\<rfloor>\<bar>) / 100) = q"
proof -
  have "of_int \<lfloor>q * 100\<rfloor> = q * 100"
    using assms by (simp add: is_hundredths_def)
  then show ?thesis
    by (auto simp: of_nat_nat)
qed

lemma frac_value:
  "(if (a::nat) mod 100 mod 10 = 0
    then (of_nat (10 * (a div 100) + a mod 100 div 10) / 10 :: rat)
    else of_nat (100 * (a div 100) + 10 * (a mod 100 div 10) + a mod 100 mod 10) / 100) = of_nat a / 100"
proof -
  have a: "a = 100 * (a div 100) + 10 * (a mod 100 div 10) + a mod 100 mod 10"
    by simp
  show ?thesis
  proof (cases "a mod 100 mod 10 = 0")
    case True
    then have "a = 10 * (10 * (a div 100) + a mod 100 div 10)"
      using a by simp
    then have "(of_nat a :: rat) = 10 * of_nat (10 * (a div 100) + a mod 100 div 10)"
      by (metis of_nat_mult of_nat_numeral)
    with True show ?thesis
      by simp
  next
    case False
    from a have "(of_nat a :: rat) = of_nat (100 * (a div 100) + 10 * (a mod 100 div 10) + a mod 100 mod 10)"
      by (metis of_nat_eq_iff)
    with False show ?thesis
      by simp
  qed
qed

lemma foldl_digits_acc:
  "foldl (\<lambda>acc d. 10 * acc + d) (acc::nat) es = acc * 10 ^ length es + foldl (\<lambda>acc d. 10 * acc + d) 0 es"
proof (induction es arbitrary: acc)
  case Nil
  then show ?case by simp
next
  case (Cons e es)
  have "foldl (\<lambda>acc d. 10 * acc + d) acc (e # es) = foldl (\<lambda>acc d. 10 * acc + d) (10 * acc + e) es"
    by simp
  also have "\<dots> = (10 * acc + e) * 10 ^ length es + foldl (\<lambda>acc d. 10 * acc + d) 0 es"
    by (rule Cons.IH)
  also have "\<dots> = acc * 10 ^ length (e # es) + (e * 10 ^ length es + foldl (\<lambda>acc d. 10 * acc + d) 0 es)"
    by (simp add: algebra_simps)
  also have "e * 10 ^ length es + foldl (\<lambda>acc d. 10 * acc + d) 0 es = foldl (\<lambda>acc d. 10 * acc + d) 0 (e # es)"
    using Cons.IH [of e] by simp
  finally show ?case .
qed

lemma digits_value_short [simp]: "digits_value [d] = d" "digits_value [d, e] = 10 * d + e"
  by (simp_all add: digits_value_def)

lemma digits_value_append:
  "digits_value (ds @ es) = digits_value ds * 10 ^ length es + digits_value es"
  unfolding digits_value_def foldl_append by (rule foldl_digits_acc)

lemma repr2_frac_digits:
  "repr2 q = (if \<lfloor>q * 100\<rfloor> < 0 then [45] else []) @ show_nat (nat \<bar>\<lfloor>q * 100\<rfloor>\<bar> div 100) @
               46 # frac_digits (nat \<bar>\<lfloor>q * 100\<rfloor>\<bar> mod 100)"
  by (simp add: repr2_def frac_digits_def Let_def)

lemma frac_digits_digits: "fr < 100 \<Longrightarrow> \<forall>c\<in>set (frac_digits fr). is_digit c"
  by (auto simp: frac_digits_def is_digit_def)

lemma frac_digits_value:
  "(of_nat (digits_value (digits_of (show_nat (a div 100) @ frac_digits (a mod 100)))) /
      10 ^ length (frac_digits (a mod 100)) :: rat) = of_nat a / 100"
proof -
  have dof: "digits_of (show_nat x @ ds) = digits10 x @ map (\<lambda>c. c - 48) ds" for x ds
    by (simp add: digits_of_def)
  show ?thesis
  proof (cases "a mod 100 mod 10 = 0")
    case True
    then have "(of_nat (digits_value (digits_of (show_nat (a div 100) @ frac_digits (a mod 100)))) /
      10 ^ length (frac_digits (a mod 100)) :: rat) = of_nat (10 * (a div 100) + a mod 100 div 10) / 10"
      by (simp add: frac_digits_def dof digits_value_append)
    also have "\<dots> = of_nat a / 100"
      using frac_value [of a] by (simp only: if_P [OF True])
    finally show ?thesis .
  next
    case False
    then have "(of_nat (digits_value (digits_of (show_nat (a div 100) @ frac_digits (a mod 100)))) /
      10 ^ length (frac_digits (a mod 100)) :: rat) =
        of_nat (100 * (a div 100) + 10 * (a mod 100 div 10) + a mod 100 mod 10) / 100"
      by (simp add: frac_digits_def dof digits_value_append)
    also have "\<dots> = of_nat a / 100"
      using frac_value [of a] by (simp only: if_not_P [OF False])
    finally show ?thesis .
  qed
qed

lemma py_float_of_rat_hundredths:
  assumes "is_hundredths q" "\<bar>q\<bar> < 2 ^ 46"
  shows "py_float_of_rat q = Finite q"
proof (cases "q = 0")
  case True
  then show ?thesis by (simp add: py_float_of_rat_def)
next
  case False
  have k: "of_int \<lfloor>q * 100\<rfloor> = q * 100"
    using assms(1) by (simp add: is_hundredths_def)
  have "\<lfloor>q * 100\<rfloor> \<noteq> 0"
    using k False by auto
  then have "1 \<le> \<bar>\<lfloor>q * 100\<rfloor>\<bar>"
    by linarith
  then have "(1::rat) \<le> \<bar>of_int \<lfloor>q * 100\<rfloor>\<bar>"
    by (metis of_int_1_le_iff of_int_abs)
  then have "1 / 100 \<le> \<bar>q\<bar>"
    using k by (simp add: abs_mult)
  moreover have "(1::rat) / 2 ^ 1075 < 1 / 100"
    by simp
  moreover have "(2::rat) ^ 46 < 2 ^ 1024 - 2 ^ 970"
    by simp
  ultimately show ?thesis
    using assms(2) by (simp add: py_float_of_rat_def)
qed

lemma lex_number_repr2:
  assumes "is_hundredths q" "\<bar>q\<bar> < 2 ^ 46" "value_end r"
  shows "lex_number (repr2 q @ r) p = Some (Inr (PFloat (Finite q), r, p + length (repr2 q)))"
proof -
  define k where "k = \<lfloor>q * 100\<rfloor>"
  define a where "a = nat \<bar>k\<bar>"
  define fd where "fd = frac_digits (a mod 100)"
  have fdd: "\<forall>c\<in>set fd. is_digit c"
    using frac_digits_digits [of "a mod 100"] by (simp add: fd_def)
  obtain d ds where fdc: "fd = d # ds"
    by (cases fd) (auto simp: fd_def frac_digits_def split: if_splits)
  have dfr: "digit_free_start r"
    using assms(3) by (rule value_end_digit_free)
  have i: "num_int_part (show_nat (a div 100) @ 46 # fd @ r) = Some (show_nat (a div 100), 46 # fd @ r)"
    by (rule num_int_part_show_nat) (simp add: digit_free_start_def is_digit_def)
  have f: "num_frac_part (46 # fd @ r) = (fd, r)"
    using takeWhile_digits [OF fdd dfr] fdd fdc by (simp add: num_frac_part_def)
  have e: "num_exp_part r = (None, r)"
    using assms(3) by (rule num_exp_part_end)
  have v: "(if k < 0 then - (of_nat (digits_value (digits_of (show_nat (a div 100) @ fd))) / 10 ^ length fd)
            else of_nat (digits_value (digits_of (show_nat (a div 100) @ fd))) / 10 ^ length fd) = q"
  proof -
    have dv: "of_nat (digits_value (digits_of (show_nat (a div 100) @ fd))) / 10 ^ length fd = (of_nat a / 100 :: rat)"
      unfolding fd_def by (rule frac_digits_value)
    show ?thesis
      using rat_hundredths_sign [OF assms(1), folded k_def, folded a_def] by (simp only: dv)
  qed
  have fl: "py_float_of_rat q = Finite q"
    using assms(1,2) by (rule py_float_of_rat_hundredths)
  have rp: "repr2 q = (if k < 0 then [45] else []) @ show_nat (a div 100) @ 46 # fd"
    by (simp add: repr2_frac_digits k_def a_def fd_def)
  obtain d0 ds0 where sn: "show_nat (a div 100) = d0 # ds0"
    using show_nat_Cons by blast
  have "d0 \<noteq> 45"
    using show_nat_digits [of d0 "a div 100"] sn by (simp add: is_digit_def)
  then show ?thesis
    using i f e v fl fdc sn
    by (auto simp: rp lex_number_def num_value_def Let_def)
qed

lemma json_run_unfold: "json_run dl m st s p = json_cont dl (json_step dl m st s p)"
  by (subst json_run.simps) (simp add: json_cont_def)

lemma json_step_Cons: "\<not> is_ws c \<Longrightarrow> json_step dl m st (c # r) p = dispatch dl m st c r p"
  by (simp add: json_step_def)

lemma is_ws_space: "is_ws 32"
  by (simp add: is_ws_def)

lemma json_step_space: "json_step dl m st (32 # s) p = json_step dl m st s (Suc p)"
proof (cases "dropWhile is_ws s")
  case Nil
  then show ?thesis
    by (simp add: json_step_def Let_def is_ws_space del: dropWhile_eq_Nil_conv)
next
  case (Cons c r)
  have "length (dropWhile is_ws s) \<le> length s"
    by (rule length_dropWhile_le)
  with Cons have "Suc (length r) \<le> length s"
    by simp
  then have "p + (length s - length r) = Suc (p + (length s - Suc (length r)))"
    by arith
  with Cons show ?thesis
    by (simp add: json_step_def Let_def is_ws_space Suc_diff_le)
qed

lemma json_run_space: "json_run dl m st (32 # s) p = json_run dl m st s (Suc p)"
  by (simp add: json_run_unfold json_step_space)

lemma json_cont_Continue [simp]:
  "json_cont dl (Inr (Continue m st r q)) = json_run dl m st r q"
  by (simp add: json_cont_def)

lemma join_with_Cons: "join_with sep (x # xs) = x @ concat (map (\<lambda>y. sep @ y) xs)"
  by (induction xs arbitrary: x) simp_all

lemma json_dumps_Cons:
  "\<exists>c r. json_dumps v = c # r \<and> \<not> is_ws c \<and> c \<noteq> 93 \<and> c \<noteq> 125 \<and> c < 128"
proof (cases v)
  case (PInt i)
  obtain d ds where "show_nat (nat \<bar>i\<bar>) = d # ds"
    using show_nat_Cons by blast
  moreover have "is_digit d" if "show_nat (nat \<bar>i\<bar>) = d # ds"
    using show_nat_digits [of d "nat \<bar>i\<bar>"] that by simp
  ultimately show ?thesis
    using PInt by (auto simp: show_int_def is_ws_def is_digit_def)
next
  case (PFloat f)
  show ?thesis
  proof (cases f)
    case (Finite q)
    obtain d ds where "show_nat (nat \<bar>\<lfloor>q * 100\<rfloor>\<bar> div 100) = d # ds"
      using show_nat_Cons by blast
    moreover have "is_digit d" if "show_nat (nat \<bar>\<lfloor>q * 100\<rfloor>\<bar> div 100) = d # ds"
      using show_nat_digits [of d] that by (metis list.set_intros(1))
    ultimately show ?thesis
      using PFloat Finite by (auto simp: repr2_frac_digits is_ws_def is_digit_def)
  qed (simp_all add: PFloat is_ws_def)
qed (simp_all add: json_str_def is_ws_def)

lemma num_int_part_not_digit: "\<not> is_digit c \<Longrightarrow> c \<noteq> 48 \<Longrightarrow> num_int_part (c # r) = None"
  by (simp add: num_int_part_def)

lemma lex_number_named:
  "lex_number (73 # r) p = None" "lex_number (78 # r) p = None" "lex_number (45 # 73 # r) p = None"
  by (simp_all add: lex_number_def num_int_part_def is_digit_def)

lemma value_start_scalar:
  assumes "dumpable v" "value_end rest" "json_dumps v = c # r"
    and "\<forall>xs. v \<noteq> PList xs" "\<forall>d. v \<noteq> PDict d"
  shows "value_start dl st c (r @ rest) p = reduce v st rest (p + length (json_dumps v))"
proof (cases v)
  case PNone
  with assms(3) show ?thesis
    by (auto simp: value_start_def eval_nat_numeral)
next
  case (PBool b)
  with assms(3) show ?thesis
    by (cases b) (auto simp: value_start_def eval_nat_numeral)
next
  case (PInt i)
  have l: "lex_number (show_int i @ rest) p = Some (Inr (PInt i, rest, p + length (show_int i)))"
    using assms(1,2) PInt by (intro lex_number_show_int) simp_all
  have "c = 45 \<or> is_digit c"
  proof (cases "i < 0")
    case False
    with assms(3) PInt have "show_nat (nat i) = c # r"
      by (simp add: show_int_def)
    then show ?thesis
      using show_nat_digits [of c "nat i"] by simp
  qed (use assms(3) PInt in \<open>simp add: show_int_def\<close>)
  then have "c \<noteq> 34 \<and> c \<noteq> 123 \<and> c \<noteq> 91 \<and> c \<noteq> 110 \<and> c \<noteq> 116 \<and> c \<noteq> 102"
    by (auto simp: is_digit_def)
  with l assms(3) PInt show ?thesis
    by (simp add: value_start_def)
next
  case (PFloat f)
  show ?thesis
  proof (cases f)
    case (Finite q)
    have l: "lex_number (repr2 q @ rest) p = Some (Inr (PFloat (Finite q), rest, p + length (repr2 q)))"
      using assms(1,2) PFloat Finite by (intro lex_number_repr2) simp_all
    have "c = 45 \<or> is_digit c"
    proof (cases "\<lfloor>q * 100\<rfloor> < 0")
      case False
      with assms(3) PFloat Finite have "show_nat (nat \<bar>\<lfloor>q * 100\<rfloor>\<bar> div 100) @ 46 #
          frac_digits (nat \<bar>\<lfloor>q * 100\<rfloor>\<bar> mod 100) = c # r"
        by (simp add: repr2_frac_digits)
      then have "c = hd (show_nat (nat \<bar>\<lfloor>q * 100\<rfloor>\<bar> div 100))"
        by (cases "show_nat (nat \<bar>\<lfloor>q * 100\<rfloor>\<bar> div 100)") simp_all
      then show ?thesis
        using show_nat_digits [of c "nat \<bar>\<lfloor>q * 100\<rfloor>\<bar> div 100"] by simp
    qed (use assms(3) PFloat Finite in \<open>simp add: repr2_frac_digits\<close>)
    then have "c \<noteq> 34 \<and> c \<noteq> 123 \<and> c \<noteq> 91 \<and> c \<noteq> 110 \<and> c \<noteq> 116 \<and> c \<noteq> 102"
      by (auto simp: is_digit_def)
    with l assms(3) PFloat Finite show ?thesis
      by (simp add: value_start_def)
  next
    case PosInf
    with assms(3) PFloat show ?thesis
      using lex_number_named(1) [of "r @ rest" p] by (auto simp: value_start_def eval_nat_numeral)
  next
    case NegInf
    with assms(3) PFloat show ?thesis
      using lex_number_named(3) [of "tl r @ rest" p] by (auto simp: value_start_def eval_nat_numeral)
  next
    case NaN
    with assms(3) PFloat show ?thesis
      using lex_number_named(2) [of "r @ rest" p] by (auto simp: value_start_def eval_nat_numeral)
  qed
next
  case (PStr s)
  have "lex_str p [] (concat (map json_escape s) @ 34 # rest) (Suc p) =
          Inr (s, rest, Suc p + length (concat (map json_escape s)) + 1)"
    using assms(1) PStr lex_str_json_str [of s p "[]" rest "Suc p"] by simp
  with assms(3) PStr show ?thesis
    by (auto simp: value_start_def json_str_def)
next
  case (PList xs)
  with assms(4) show ?thesis by simp
next
  case (PDict d)
  with assms(5) show ?thesis by simp
qed

lemma not_ws_chars [simp]:
  "\<not> is_ws 91" "\<not> is_ws 93" "\<not> is_ws 123" "\<not> is_ws 125" "\<not> is_ws 44" "\<not> is_ws 58"
  "\<not> is_ws 34"
  by (simp_all add: is_ws_def)

lemma dispatch_value:
  "m = MValue \<or> m = MArrFirst \<Longrightarrow> c \<noteq> 93 \<Longrightarrow> dispatch dl m st c r p = value_start dl st c r p"
  by (auto split: list.split frame.split)

lemma json_run_value:
  "m = MValue \<or> m = MArrFirst \<Longrightarrow> \<not> is_ws c \<Longrightarrow> c \<noteq> 93 \<Longrightarrow>
   json_run dl m st (c # s) p = json_cont dl (value_start dl st c s p)"
  by (simp add: json_run_unfold json_step_Cons dispatch_value)

lemma json_run_open_array:
  "m = MValue \<or> m = MArrFirst \<Longrightarrow> length st < dl \<Longrightarrow>
   json_run dl m st (91 # s) p = json_run dl MArrFirst (FArr [] # st) s (Suc p)"
  by (simp add: json_run_value value_start_def push_def)

lemma json_run_open_object:
  "m = MValue \<or> m = MArrFirst \<Longrightarrow> length st < dl \<Longrightarrow>
   json_run dl m st (123 # s) p = json_run dl MObjFirst (FObj [] # st) s (Suc p)"
  by (simp add: json_run_value value_start_def push_def)

lemma json_run_close_first_array:
  "json_run dl MArrFirst (FArr acc # st) (93 # rest) p = json_cont dl (reduce (PList acc) st rest (Suc p))"
  by (simp add: json_run_unfold json_step_Cons)

lemma json_run_close_array:
  "json_run dl MAfter (FArr acc # st) (93 # rest) p = json_cont dl (reduce (PList acc) st rest (Suc p))"
  by (simp add: json_run_unfold json_step_Cons)

lemma json_run_array_comma:
  "json_run dl MAfter (FArr acc # st) (44 # 32 # s) p = json_run dl MValue (FArr acc # st) s (p + 2)"
  by (simp add: json_run_unfold json_step_Cons json_step_space)

lemma json_run_close_first_object:
  "json_run dl MObjFirst (FObj acc # st) (125 # rest) p = json_cont dl (reduce (PDict acc) st rest (Suc p))"
  by (simp add: json_run_unfold json_step_Cons)

lemma json_run_close_object:
  "json_run dl MAfter (FObj acc # st) (125 # rest) p = json_cont dl (reduce (PDict acc) st rest (Suc p))"
  by (simp add: json_run_unfold json_step_Cons)

lemma key_start_json_str:
  "\<forall>c\<in>set k. encodable c \<Longrightarrow>
   key_start acc st (concat (map json_escape k) @ 34 # s) p =
     Inr (Continue MColon (FKey acc k # st) s (Suc p + length (concat (map json_escape k)) + 1))"
  by (simp add: key_start_def lex_str_json_str)

lemma json_run_colon:
  "json_run dl MColon st (58 # 32 # s) p = json_run dl MValue st s (p + 2)"
  by (simp add: json_run_unfold json_step_Cons json_step_space)

lemma json_run_first_key:
  "\<forall>c\<in>set k. encodable c \<Longrightarrow>
   json_run dl MObjFirst (FObj acc # st) (json_str k @ 58 # 32 # s) p =
     json_run dl MValue (FKey acc k # st) s (p + length (json_str k) + 2)"
  by (simp add: json_str_def json_run_unfold [of dl MObjFirst] json_step_Cons key_start_json_str
        json_run_colon)

lemma suc5: "Suc (Suc (Suc (Suc (Suc n)))) = 5 + n"
  by simp

lemma suc6: "Suc (Suc (Suc (Suc (Suc (Suc n))))) = 6 + n"
  by simp

lemma json_run_next_key:
  "\<forall>c\<in>set k. encodable c \<Longrightarrow>
   json_run dl MAfter (FObj acc # st) (44 # 32 # json_str k @ 58 # 32 # s) p =
     json_run dl MValue (FKey acc k # st) s (p + length (json_str k) + 4)"
  by (simp add: json_str_def json_run_unfold [of dl MAfter] json_run_unfold [of dl MKey]
        json_step_Cons json_step_space key_start_json_str json_run_colon suc6)

lemma json_run_scalar:
  assumes "\<forall>xs. v \<noteq> PList xs" "\<forall>d. v \<noteq> PDict d" "dumpable v" "value_end rest"
    and "m = MValue \<or> m = MArrFirst"
  shows "json_run dl m st (json_dumps v @ rest) p = json_cont dl (reduce v st rest (p + length (json_dumps v)))"
proof -
  obtain c r where d: "json_dumps v = c # r" "\<not> is_ws c" "c \<noteq> 93"
    using json_dumps_Cons [of v] by blast
  then show ?thesis
    using assms value_start_scalar [OF assms(3,4) d(1) assms(1,2)]
    by (simp add: json_run_value)
qed

lemma value_end_sep:
  "c = 93 \<or> c = 125 \<Longrightarrow> value_end (concat (map (\<lambda>y. 44 # 32 # f y) ys) @ c # rest)"
  by (cases ys) (auto simp: value_end_def)

lemma json_run_array_elems:
  assumes IH: "\<And>y m st' rest' p'. y \<in> set ys \<Longrightarrow> fits (dl - length st') y \<Longrightarrow> value_end rest' \<Longrightarrow>
                 m = MValue \<or> m = MArrFirst \<Longrightarrow>
                 json_run dl m st' (json_dumps y @ rest') p' =
                   json_cont dl (reduce y st' rest' (p' + length (json_dumps y)))"
    and f: "\<forall>y\<in>set ys. fits (dl - Suc (length st)) y"
  shows "json_run dl MAfter (FArr acc # st) (concat (map (\<lambda>y. 44 # 32 # json_dumps y) ys) @ 93 # rest) p =
           json_cont dl (reduce (PList (acc @ ys)) st rest
             (p + length (concat (map (\<lambda>y. 44 # 32 # json_dumps y) ys)) + 1))"
  using IH f
proof (induction ys arbitrary: acc p)
  case Nil
  then show ?case
    by (simp add: json_run_close_array)
next
  case (Cons y ys)
  let ?r2 = "concat (map (\<lambda>y. 44 # 32 # json_dumps y) ys) @ 93 # rest"
  have "json_run dl MAfter (FArr acc # st) (44 # 32 # json_dumps y @ ?r2) p =
          json_run dl MValue (FArr acc # st) (json_dumps y @ ?r2) (p + 2)"
    by (rule json_run_array_comma)
  also have "\<dots> = json_cont dl (reduce y (FArr acc # st) ?r2 (p + 2 + length (json_dumps y)))"
    using Cons.prems value_end_sep [of 93] by (intro Cons.prems(1)) auto
  also have "\<dots> = json_run dl MAfter (FArr (acc @ [y]) # st) ?r2 (p + 2 + length (json_dumps y))"
    by simp
  also have "\<dots> = json_cont dl (reduce (PList ((acc @ [y]) @ ys)) st rest
                     (p + 2 + length (json_dumps y) + length (concat (map (\<lambda>y. 44 # 32 # json_dumps y) ys)) + 1))"
    using Cons.prems by (intro Cons.IH) auto
  finally show ?case
    by (simp add: add.assoc)
qed

lemma dict_set_fresh: "k \<notin> set (map fst acc) \<Longrightarrow> dict_set acc k v = acc @ [(k, v)]"
  by (induction acc) auto

lemma value_end_members:
  "value_end (concat (map (\<lambda>kv. 44 # 32 # member_str kv) ds) @ 125 # rest)"
  by (cases ds) (auto simp: value_end_def)

lemma json_run_object_members:
  assumes IH: "\<And>kv m st' rest' p'. kv \<in> set ds \<Longrightarrow> fits (dl - length st') (snd kv) \<Longrightarrow>
                 value_end rest' \<Longrightarrow> m = MValue \<or> m = MArrFirst \<Longrightarrow>
                 json_run dl m st' (json_dumps (snd kv) @ rest') p' =
                   json_cont dl (reduce (snd kv) st' rest' (p' + length (json_dumps (snd kv))))"
    and f: "\<forall>kv\<in>set ds. (\<forall>c\<in>set (fst kv). encodable c) \<and> fits (dl - Suc (length st)) (snd kv)"
    and dst: "distinct (map fst (acc @ ds))"
  shows "json_run dl MAfter (FObj acc # st) (concat (map (\<lambda>kv. 44 # 32 # member_str kv) ds) @ 125 # rest) p =
           json_cont dl (reduce (PDict (acc @ ds)) st rest
             (p + length (concat (map (\<lambda>kv. 44 # 32 # member_str kv) ds)) + 1))"
  using IH f dst
proof (induction ds arbitrary: acc p)
  case Nil
  then show ?case
    by (simp add: json_run_close_object)
next
  case (Cons kv ds)
  obtain k v where kv: "kv = (k, v)"
    by fastforce
  let ?r2 = "concat (map (\<lambda>kv. 44 # 32 # member_str kv) ds) @ 125 # rest"
  have enc: "\<forall>c\<in>set k. encodable c"
    using Cons.prems(2) kv by simp
  have fresh: "k \<notin> set (map fst acc)"
    using Cons.prems(3) kv by auto
  have "json_run dl MAfter (FObj acc # st) (44 # 32 # json_str k @ 58 # 32 # json_dumps v @ ?r2) p =
          json_run dl MValue (FKey acc k # st) (json_dumps v @ ?r2) (p + length (json_str k) + 4)"
    using enc by (rule json_run_next_key)
  also have "\<dots> = json_cont dl (reduce v (FKey acc k # st) ?r2
                      (p + length (json_str k) + 4 + length (json_dumps v)))"
    using Cons.prems(1) [of kv] Cons.prems(2) kv value_end_members [of ds rest] by simp
  also have "\<dots> = json_run dl MAfter (FObj (acc @ [(k, v)]) # st) ?r2
                      (p + length (json_str k) + 4 + length (json_dumps v))"
    by (simp add: dict_set_fresh [OF fresh])
  also have "\<dots> = json_cont dl (reduce (PDict ((acc @ [(k, v)]) @ ds)) st rest
                      (p + length (json_str k) + 4 + length (json_dumps v) +
                       length (concat (map (\<lambda>kv. 44 # 32 # member_str kv) ds)) + 1))"
    using Cons.prems kv by (intro Cons.IH) auto
  finally show ?case
    using kv by (simp add: member_str_def add.assoc suc5)
qed

lemma json_run_dumps:
  "dumpable v \<Longrightarrow> fits (dl - length st) v \<Longrightarrow> value_end rest \<Longrightarrow> m = MValue \<or> m = MArrFirst \<Longrightarrow>
   json_run dl m st (json_dumps v @ rest) p = json_cont dl (reduce v st rest (p + length (json_dumps v)))"
proof (induction v arbitrary: m st rest p)
  case (PList xs)
  have lt: "length st < dl"
    using PList.prems(2) by simp
  have IH: "\<And>y m st' rest' p'. y \<in> set xs \<Longrightarrow> fits (dl - length st') y \<Longrightarrow> value_end rest' \<Longrightarrow>
                 m = MValue \<or> m = MArrFirst \<Longrightarrow>
                 json_run dl m st' (json_dumps y @ rest') p' =
                   json_cont dl (reduce y st' rest' (p' + length (json_dumps y)))"
    using PList.IH PList.prems(1) by simp
  have f: "\<forall>y\<in>set xs. fits (dl - Suc (length st)) y"
    using PList.prems(2) by simp
  show ?case
  proof (cases xs)
    case Nil
    then show ?thesis
      using PList.prems(4) lt by (simp add: json_run_open_array json_run_close_first_array)
  next
    case (Cons x xs')
    let ?r2 = "concat (map (\<lambda>y. 44 # 32 # json_dumps y) xs') @ 93 # rest"
    have dm: "json_dumps (PList xs) @ rest = 91 # json_dumps x @ ?r2"
      using Cons by (simp add: join_with_Cons comp_def)
    have "json_run dl m st (91 # json_dumps x @ ?r2) p =
            json_run dl MArrFirst (FArr [] # st) (json_dumps x @ ?r2) (Suc p)"
      using PList.prems(4) lt by (rule json_run_open_array)
    also have "\<dots> = json_cont dl (reduce x (FArr [] # st) ?r2 (Suc p + length (json_dumps x)))"
      using Cons f value_end_sep [of 93] by (intro IH) auto
    also have "\<dots> = json_run dl MAfter (FArr [x] # st) ?r2 (Suc p + length (json_dumps x))"
      by simp
    also have "\<dots> = json_cont dl (reduce (PList ([x] @ xs')) st rest
                        (Suc p + length (json_dumps x) +
                         length (concat (map (\<lambda>y. 44 # 32 # json_dumps y) xs')) + 1))"
      using Cons f by (intro json_run_array_elems) (auto intro: IH)
    finally show ?thesis
      using Cons dm by (simp add: join_with_Cons comp_def add.assoc)
  qed
next
  case (PDict d)
  have lt: "length st < dl"
    using PDict.prems(2) by simp
  have IH: "\<And>kv m st' rest' p'. kv \<in> set d \<Longrightarrow> fits (dl - length st') (snd kv) \<Longrightarrow>
                 value_end rest' \<Longrightarrow> m = MValue \<or> m = MArrFirst \<Longrightarrow>
                 json_run dl m st' (json_dumps (snd kv) @ rest') p' =
                   json_cont dl (reduce (snd kv) st' rest' (p' + length (json_dumps (snd kv))))"
  proof -
    fix kv m and st' :: "frame list" and rest' p'
    assume a: "kv \<in> set d" "fits (dl - length st') (snd kv)" "value_end rest'" "m = MValue \<or> m = MArrFirst"
    have "snd kv \<in> Basic_BNFs.snds kv"
      by (simp add: prod_set_defs)
    moreover have "dumpable (snd kv)"
      using PDict.prems(1) a(1) by simp
    ultimately show "json_run dl m st' (json_dumps (snd kv) @ rest') p' =
                   json_cont dl (reduce (snd kv) st' rest' (p' + length (json_dumps (snd kv))))"
      using PDict.IH a by blast
  qed
  have f: "\<forall>kv\<in>set d. (\<forall>c\<in>set (fst kv). encodable c) \<and> fits (dl - Suc (length st)) (snd kv)"
    using PDict.prems(1,2) by simp
  have dst: "distinct (map fst d)"
    using PDict.prems(1) by simp
  show ?case
  proof (cases d)
    case Nil
    then show ?thesis
      using PDict.prems(4) lt by (simp add: json_run_open_object json_run_close_first_object)
  next
    case (Cons kv d')
    obtain k v where kv: "kv = (k, v)"
      by fastforce
    let ?r2 = "concat (map (\<lambda>kv. 44 # 32 # member_str kv) d') @ 125 # rest"
    have dm: "json_dumps (PDict d) @ rest = 123 # json_str k @ 58 # 32 # json_dumps v @ ?r2"
      using Cons kv by (simp add: join_with_Cons comp_def member_str_def)
    have enc: "\<forall>c\<in>set k. encodable c"
      using f Cons kv by simp
    have "json_run dl m st (123 # json_str k @ 58 # 32 # json_dumps v @ ?r2) p =
            json_run dl MObjFirst (FObj [] # st) (json_str k @ 58 # 32 # json_dumps v @ ?r2) (Suc p)"
      using PDict.prems(4) lt by (rule json_run_open_object)
    also have "\<dots> = json_run dl MValue (FKey [] k # st) (json_dumps v @ ?r2) (Suc p + length (json_str k) + 2)"
      using enc by (rule json_run_first_key)
    also have "\<dots> = json_cont dl (reduce v (FKey [] k # st) ?r2
                        (Suc p + length (json_str k) + 2 + length (json_dumps v)))"
      using IH [of kv] Cons kv f value_end_members [of d' rest] by simp
    also have "\<dots> = json_run dl MAfter (FObj ([] @ [(k, v)]) # st) ?r2
                        (Suc p + length (json_str k) + 2 + length (json_dumps v))"
      by simp
    also have "\<dots> = json_cont dl (reduce (PDict (([] @ [(k, v)]) @ d')) st rest
                        (Suc p + length (json_str k) + 2 + length (json_dumps v) +
                         length (concat (map (\<lambda>kv. 44 # 32 # member_str kv) d')) + 1))"
      using Cons f dst kv by (intro json_run_object_members) (auto intro: IH)
    finally show ?thesis
      using Cons kv dm by (simp add: join_with_Cons comp_def member_str_def add.assoc)
  qed
next
  case PNone
  then show ?case by (intro json_run_scalar) simp_all
next
  case (PBool b)
  then show ?case by (intro json_run_scalar) simp_all
next
  case (PInt i)
  then show ?case by (intro json_run_scalar) simp_all
next
  case (PFloat f)
  then show ?case by (intro json_run_scalar) simp_all
next
  case (PStr s)
  then show ?case by (intro json_run_scalar) simp_all
qed

lemma json_loads_run:
  assumes "json_run dl MValue [] doc 0 = Inr (v, [], q)" "doc = c # r" "c < 128"
  shows "json_loads dl doc = Inr v"
  using assms by (simp add: json_loads_def)

text \<open>
  \<open>json.loads\<close> inverts \<open>json.dumps\<close>: for every value whose strings are encodable,
  whose dictionaries have distinct keys, whose integers have at most 4300 digits and whose
  floats are hundredths below \<open>2^46\<close>, and whose nesting fits the recursion budget, decoding
  the encoded document gives the value back.
\<close>

lemma json_loads_json_dumps:
  assumes "dumpable v" "fits dl v"
  shows "json_loads dl (json_dumps v) = Inr v"
proof -
  obtain c r where d: "json_dumps v = c # r" "c < 128"
    using json_dumps_Cons [of v] by blast
  have "json_run dl MValue [] (json_dumps v @ []) 0 = json_cont dl (reduce v [] [] (0 + length (json_dumps v)))"
    using assms by (intro json_run_dumps) (simp_all add: value_end_def)
  then have "json_run dl MValue [] (json_dumps v) 0 = Inr (v, [], length (json_dumps v))"
    by (simp add: json_cont_def)
  then show ?thesis
    using d by (rule json_loads_run)
qed

end
