(* ===== verification/JsonWf.thy ===== *)
theory JsonWf
  imports JsonLoads
begin

text \<open>
  The values \<open>json.loads\<close> builds are well-formed Python values (\<open>wf_pyval\<close>): every
  code point of every string is below \<open>U+110000\<close> and the keys of every dictionary are
  distinct, the invariant of a Python \<open>dict\<close> (a repeated key in the document overwrites
  the earlier member, \<open>dict_set\<close>). The proof is an invariant of the scanner loop: every
  frame of the stack holds well-formed members (\<open>wf_frame\<close>) and the rest of the input
  holds valid code points (\<open>wf_step\<close>); string escapes yield at most \<open>U+FFFF\<close>, or
  at most \<open>U+10FFFF\<close> for a surrogate pair. The strict UTF-8 decoder, which feeds
  \<open>json.loads\<close> in \<open>get_json\<close>, yields valid code points only (\<open>utf8_decode_valid\<close>).
\<close>

fun wf_frame :: "frame \<Rightarrow> bool" where
  "wf_frame (FArr xs) = (\<forall>x\<in>set xs. wf_pyval x)"
| "wf_frame (FObj d) = wf_pyval (PDict d)"
| "wf_frame (FKey d k) = (wf_pyval (PDict d) \<and> valid_str k)"

fun wf_step :: "step \<Rightarrow> bool" where
  "wf_step (Continue m st r q) = ((\<forall>f\<in>set st. wf_frame f) \<and> valid_str r)"
| "wf_step (Finished v r q) = (wf_pyval v \<and> valid_str r)"

section \<open>Lemmas\<close>

lemma valid_str_Cons [simp]: "valid_str (c # s) \<longleftrightarrow> c < 1114112 \<and> valid_str s"
  by (simp add: valid_str_def)

lemma valid_str_rev [simp]: "valid_str (rev s) \<longleftrightarrow> valid_str s"
  by (simp add: valid_str_def)

lemma hex_val_lt: "hex_val c = Some d \<Longrightarrow> d < 16"
  by (auto simp: hex_val_def split: if_splits)

lemma those_hex_val:
  "those (map hex_val xs) = Some ds \<Longrightarrow> length ds = length xs \<and> (\<forall>d\<in>set ds. d < 16)"
proof (induction xs arbitrary: ds)
  case (Cons x xs)
  then show ?case
    by (auto split: option.splits dest: hex_val_lt)
qed simp

lemma foldl_hex_bound:
  "\<forall>d\<in>set ds. d < 16 \<Longrightarrow> foldl (\<lambda>acc d. 16 * acc + d) a ds < (Suc a) * 16 ^ length ds"
proof (induction ds arbitrary: a)
  case (Cons d ds)
  have "foldl (\<lambda>acc d. 16 * acc + d) a (d # ds) = foldl (\<lambda>acc d. 16 * acc + d) (16 * a + d) ds"
    by simp
  also have "\<dots> < Suc (16 * a + d) * 16 ^ length ds"
    using Cons by simp
  also have "\<dots> \<le> (16 * Suc a) * 16 ^ length ds"
    using Cons.prems by (intro mult_right_mono) simp_all
  also have "\<dots> = Suc a * 16 ^ length (d # ds)"
    by (simp add: algebra_simps)
  finally show ?case .
qed simp

lemma hex4_bound: "hex4 s = Some u \<Longrightarrow> u < 65536"
proof -
  assume h: "hex4 s = Some u"
  then obtain ds where ds: "those (map hex_val (take 4 s)) = Some ds" "length s \<ge> 4"
    and u: "u = foldl (\<lambda>acc d. 16 * acc + d) 0 ds"
    by (auto simp: hex4_def split: if_splits option.splits)
  then have "length ds = 4" "\<forall>d\<in>set ds. d < 16"
    using those_hex_val [OF ds(1)] by simp_all
  then show ?thesis
    using foldl_hex_bound [of ds 0] u by simp
qed

lemma valid_str_drop [simp]: "valid_str s \<Longrightarrow> valid_str (drop n s)"
  by (auto simp: valid_str_def dest: in_set_dropD)

lemma simple_escape_lt: "simple_escape e = Some x \<Longrightarrow> x < 128"
  by (auto simp: simple_escape_def split: if_splits)

lemma lex_str_valid:
  "lex_str st acc s p = Inr (x, r, q) \<Longrightarrow> valid_str acc \<Longrightarrow> valid_str s \<Longrightarrow>
   valid_str x \<and> set r \<subseteq> set s"
proof (induction st acc s p arbitrary: x r q rule: lex_str.induct)
  case (1 st acc p)
  then show ?case by simp
next
  case (2 st acc c s p)
  note IH = "2.IH" and P = "2.prems"
  have sub: "set (drop n s') \<subseteq> set s'" for n and s' :: pystr
    by (rule set_drop_subset)
  show ?case
  proof (cases "c = 92")
    case False
    then show ?thesis
      using P IH(5) by (auto split: if_splits)
  next
    case bs: True
    show ?thesis
    proof (cases s)
      case Nil
      then show ?thesis using P bs by auto
    next
      case (Cons e s')
      show ?thesis
      proof (cases "e = 117")
        case False
        then obtain x0 where se: "simple_escape e = Some x0"
          using P bs Cons by (auto split: option.splits)
        then have "x0 < 1114112"
          using simple_escape_lt by fastforce
        then show ?thesis
          using P IH(4) bs Cons False se by fastforce
      next
        case u: True
        show ?thesis
        proof (cases "hex4 s'")
          case None
          then show ?thesis using P bs Cons u by auto
        next
          case (Some v)
          have v: "v < 65536"
            using Some by (rule hex4_bound)
          show ?thesis
          proof (cases "55296 \<le> v \<and> v \<le> 56319 \<and> take 2 (drop 4 s') = [92, 117]")
            case False
            then show ?thesis
              using P IH(3) bs Cons u Some v sub [of 4 s'] by fastforce
          next
            case hi: True
            show ?thesis
            proof (cases "hex4 (drop 6 s')")
              case None
              then show ?thesis using P bs Cons u Some hi by auto
            next
              case (Some v2)
              show ?thesis
              proof (cases "56320 \<le> v2 \<and> v2 \<le> 57343")
                case True
                have "v \<le> 56319"
                  using hi by simp
                then have "v - 55296 \<le> 1023"
                  by arith
                then have "(v - 55296) * 1024 \<le> 1023 * 1024"
                  by (rule mult_right_mono) simp
                then have "65536 + (v - 55296) * 1024 + (v2 - 56320) < (1114112::nat)"
                  using True by linarith
                then show ?thesis
                  using P IH(1) bs Cons u \<open>hex4 s' = Some v\<close> hi Some True sub [of 10 s'] by fastforce
              next
                case False
                then show ?thesis
                  using P IH(2) bs Cons u \<open>hex4 s' = Some v\<close> hi Some v sub [of 4 s'] by fastforce
              qed
            qed
          qed
        qed
      qed
    qed
  qed
qed

lemma valid_str_dropWhile [simp]: "valid_str s \<Longrightarrow> valid_str (dropWhile P s)"
  by (auto simp: valid_str_def dest: set_dropWhileD)

lemma valid_str_tl [simp]: "valid_str s \<Longrightarrow> valid_str (tl s)"
  by (cases s) simp_all

lemma num_int_part_valid: "num_int_part s = Some (ip, r) \<Longrightarrow> valid_str s \<Longrightarrow> valid_str r"
  by (auto simp: num_int_part_def split: list.splits if_splits)

lemma num_frac_part_valid: "num_frac_part s = (fp, r) \<Longrightarrow> valid_str s \<Longrightarrow> valid_str r"
  by (auto simp: num_frac_part_def split: list.splits if_splits)

lemma num_exp_part_valid: "num_exp_part s = (ex, r) \<Longrightarrow> valid_str s \<Longrightarrow> valid_str r"
  by (auto simp: num_exp_part_def Let_def split: list.splits if_splits)

lemma num_value_wf: "num_value neg ip fp ex = Inr v \<Longrightarrow> wf_pyval v"
  by (auto simp: num_value_def Let_def split: if_splits)

lemma lex_number_wf:
  assumes "lex_number s p = Some (Inr (v, r, q))" and "valid_str s"
  shows "wf_pyval v \<and> valid_str r"
proof -
  define neg where "neg = (s \<noteq> [] \<and> hd s = 45)"
  define s1 where "s1 = (if neg then tl s else s)"
  have s1: "valid_str s1"
    using assms(2) by (simp add: s1_def)
  from assms(1) obtain ip r1 where ip: "num_int_part s1 = Some (ip, r1)"
    by (auto simp: lex_number_def Let_def neg_def s1_def split: option.splits)
  obtain fp r2 where fp: "num_frac_part r1 = (fp, r2)"
    by fastforce
  obtain ex r3 where ex: "num_exp_part r2 = (ex, r3)"
    by fastforce
  from assms(1) ip fp ex have "r = r3" "num_value neg ip fp ex = Inr v"
    by (auto simp: lex_number_def Let_def neg_def s1_def split: sum.splits)
  moreover have "valid_str r3"
    using num_exp_part_valid [OF ex] num_frac_part_valid [OF fp] num_int_part_valid [OF ip s1] by simp
  ultimately show ?thesis
    using num_value_wf by simp
qed

lemma lex_str_wf:
  "lex_str st [] s p = Inr (x, r, q) \<Longrightarrow> valid_str s \<Longrightarrow> valid_str x \<and> valid_str r"
  using lex_str_valid [of st "[]" s p x r q] by (auto simp: valid_str_def)

lemma reduce_wf:
  assumes "reduce v st r q = Inr s'" "wf_pyval v" "\<forall>f\<in>set st. wf_frame f" "valid_str r"
  shows "wf_step s'"
proof (cases "(v, st, r, q)" rule: reduce.cases)
  case (3 v d k st' r q)
  then show ?thesis
    using assms wf_dict_set [of d k v] by auto
qed (use assms in auto)

lemma push_wf:
  "push dl f m st r q = Inr s' \<Longrightarrow> wf_frame f \<Longrightarrow> \<forall>f\<in>set st. wf_frame f \<Longrightarrow> valid_str r \<Longrightarrow>
   wf_step s'"
  by (auto simp: push_def split: if_splits)

lemma value_start_wf:
  "value_start dl st c r p = Inr s' \<Longrightarrow> \<forall>f\<in>set st. wf_frame f \<Longrightarrow> valid_str (c # r) \<Longrightarrow>
   wf_step s'"
  unfolding value_start_def
  by (auto split: if_split_asm sum.split_asm option.split_asm prod.split_asm
           dest: lex_str_wf lex_number_wf intro: reduce_wf push_wf)
     (metis lex_str_wf reduce_wf wf_pyval.simps(1))

lemma key_start_wf:
  "key_start d st r p = Inr s' \<Longrightarrow> wf_pyval (PDict d) \<Longrightarrow> \<forall>f\<in>set st. wf_frame f \<Longrightarrow>
   valid_str r \<Longrightarrow> wf_step s'"
  by (auto simp: key_start_def split: sum.split_asm prod.split_asm dest: lex_str_wf)

lemma dispatch_wf:
  "dispatch dl m st c r p = Inr s' \<Longrightarrow> \<forall>f\<in>set st. wf_frame f \<Longrightarrow> valid_str (c # r) \<Longrightarrow>
   wf_step s'"
  using value_start_wf [of dl st c r p s']
  by (cases "(dl, m, st, c, r, p)" rule: dispatch.cases)
     (auto dest: key_start_wf reduce_wf split: if_split_asm list.split_asm frame.split_asm)

lemma json_step_wf:
  "json_step dl m st s p = Inr s' \<Longrightarrow> \<forall>f\<in>set st. wf_frame f \<Longrightarrow> valid_str s \<Longrightarrow> wf_step s'"
proof -
  assume a: "json_step dl m st s p = Inr s'" and f: "\<forall>f\<in>set st. wf_frame f" and v: "valid_str s"
  then obtain c r0 where s1: "dropWhile is_ws s = c # r0"
    by (auto simp: json_step_def Let_def split: list.splits)
  with a have "dispatch dl m st c r0 (p + (length s - length (c # r0))) = Inr s'"
    by (simp add: json_step_def)
  moreover have "valid_str (c # r0)"
    using valid_str_dropWhile [OF v, of is_ws] s1 by simp
  ultimately show ?thesis
    by (rule dispatch_wf [OF _ f])
qed

lemma json_run_wf:
  "json_run dl m st s p = Inr (v, r, q) \<Longrightarrow> \<forall>f\<in>set st. wf_frame f \<Longrightarrow> valid_str s \<Longrightarrow>
   wf_pyval v"
proof (induction dl m st s p rule: json_run.induct)
  case (1 dl m st s p)
  show ?case
  proof (cases "json_step dl m st s p")
    case (Inl e)
    with "1.prems" show ?thesis
      by (subst (asm) json_run.simps) simp
  next
    case (Inr st1)
    then have w: "wf_step st1"
      using "1.prems" by (intro json_step_wf)
    show ?thesis
    proof (cases st1)
      case (Continue m' st' r' q')
      with "1.prems" Inr w show ?thesis
        by (subst (asm) json_run.simps) (auto intro: "1.IH")
    next
      case (Finished v' r' q')
      with "1.prems" Inr w show ?thesis
        by (subst (asm) json_run.simps) simp
    qed
  qed
qed

lemma json_loads_wf: "json_loads dl doc = Inr v \<Longrightarrow> valid_str doc \<Longrightarrow> wf_pyval v"
  by (auto simp: json_loads_def Let_def split: if_splits sum.splits prod.splits
           dest: json_run_wf)

lemma utf8_cp_bound:
  assumes "utf8_seq_len b = Suc (length cs)" and "utf8_conts_ok b 0 cs"
  shows "utf8_cp b cs < 1114112"
proof -
  have mod64: "x mod 64 \<le> 63" for x :: nat
    by simp
  have "length cs \<le> 3"
    using assms(1) by (auto simp: utf8_seq_len_def split: if_splits)
  then consider "cs = []" | c1 where "cs = [c1]" | c1 c2 where "cs = [c1, c2]"
    | c1 c2 c3 where "cs = [c1, c2, c3]"
    by (auto simp: le_Suc_eq numeral_eq_Suc length_Suc_conv)
  then show ?thesis
  proof cases
    case 1
    then show ?thesis by (simp add: utf8_cp_def)
  next
    case (2 c1)
    have "b mod 32 \<le> 31" by simp
    then show ?thesis
      using 2 mod64 [of c1] by (simp add: utf8_cp_def)
  next
    case (3 c1 c2)
    have "b mod 16 \<le> 15" by simp
    then show ?thesis
      using 3 mod64 [of c1] mod64 [of c2] by (simp add: utf8_cp_def)
  next
    case (4 c1 c2 c3)
    have b: "240 \<le> b" "b \<le> 244"
      using assms(1) 4 by (auto simp: utf8_seq_len_def split: if_splits)
    then have x: "b mod 8 = b - 240"
      by (simp add: mod_if)
    have y: "b mod 8 = 4 \<Longrightarrow> c1 mod 64 \<le> 15"
    proof -
      assume "b mod 8 = 4"
      then have "b = 244" using x by arith
      then have "128 \<le> c1" "c1 \<le> 143"
        using assms(2) 4 by (simp_all add: utf8_cont_ok_def)
      then show "c1 mod 64 \<le> 15"
        by (simp add: mod_if) arith
    qed
    have "b mod 8 \<le> 4"
      using x b by arith
    then show ?thesis
      using 4 y mod64 [of c1] mod64 [of c2] mod64 [of c3] by (simp add: utf8_cp_def) arith
  qed
qed

lemma utf8_dec_valid: "utf8_dec pos bs = Inr s \<Longrightarrow> valid_str s"
proof (induction pos bs arbitrary: s rule: utf8_dec.induct)
  case (1 pos)
  then show ?case by (simp add: valid_str_def)
next
  case (2 pos b bs)
  define n where "n = utf8_seq_len b"
  define cs where "cs = take (n - 1) bs"
  from "2.prems" have ok: "n \<noteq> 0" "utf8_conts_ok b 0 cs" "\<not> length cs < n - 1"
    by (auto simp: Let_def n_def cs_def split: if_splits)
  then have "utf8_seq_len b = Suc (length cs)"
    using length_take [of "n - 1" bs] by (simp add: n_def cs_def)
  then have "utf8_cp b cs < 1114112"
    using ok(2) by (rule utf8_cp_bound)
  with "2.prems" "2.IH" ok show ?case
    by (auto simp: Let_def n_def cs_def split: if_splits sum.splits)
qed

lemma utf8_decode_valid: "utf8_decode bs = Inr s \<Longrightarrow> valid_str s"
  by (simp add: utf8_decode_def utf8_dec_valid)

end
