(* ===== verification/Contract.thy ===== *)
theory Contract
  imports Handler JsonRoundtrip JsonWf
begin

text \<open>
  The contract of the handler as the specification states it, independent of the code's
  control flow: a \<open>verdict\<close> decided from three abstract facts (is the synthesizer present,
  what does the body decode to, what does the service answer for the text), the status of
  each verdict (the table of the specification) and the response that renders it. The
  refinement theorem shows that \<open>main\<close> implements the contract on the requests the code
  handles (\<open>handled\<close>); the requests outside it are exactly those whose exception escapes
  (theory \<open>Handler\<close>, claims on escaping exceptions). The durations the contract reports
  are the ones the handler measures in float arithmetic (\<open>api_ms\<close>, \<open>function_ms\<close> of
  theory \<open>Handler\<close>). Composed with the JSON round trip of theory \<open>JsonRoundtrip\<close>, a
  request serialised by \<open>json.dumps\<close> is decoded back by the first \<open>try\<close> block, and by
  the invariant of theory \<open>JsonWf\<close> the text handed to the service is well formed.
\<close>

datatype verdict =
    NotReady | InvalidJson | TextMissing | ApiFailure exn | SynthesisFailure result_reason
  | Synthesized

definition json_text :: "pyval \<Rightarrow> pyval option" where
  "json_text v = (case v of PDict d \<Rightarrow> map_of d (py ''text'') | _ \<Rightarrow> None)"

definition spec_verdict ::
  "(pyval \<Rightarrow> exn + synthesis_result) option \<Rightarrow> exn + pyval \<Rightarrow> verdict" where
  "spec_verdict svc body =
     (case svc of
        None \<Rightarrow> NotReady
      | Some call \<Rightarrow>
          (case body of
             Inl e \<Rightarrow> InvalidJson
           | Inr v \<Rightarrow>
               (case json_text v of
                  None \<Rightarrow> TextMissing
                | Some t \<Rightarrow>
                    (case call t of
                       Inl e \<Rightarrow> ApiFailure e
                     | Inr res \<Rightarrow> (if reason res = SynthesizingAudioCompleted then Synthesized
                                  else SynthesisFailure (reason res))))))"

fun spec_status :: "verdict \<Rightarrow> int" where
  "spec_status NotReady = 500"
| "spec_status InvalidJson = 400"
| "spec_status TextMissing = 400"
| "spec_status (ApiFailure e) = 500"
| "spec_status (SynthesisFailure r) = 500"
| "spec_status Synthesized = 200"

fun spec_response :: "verdict \<Rightarrow> rat \<Rightarrow> rat \<Rightarrow> http_response" where
  "spec_response NotReady a f = plain_response msg_not_initialized 500"
| "spec_response InvalidJson a f = plain_response msg_invalid_json 400"
| "spec_response TextMissing a f = plain_response msg_text_missing 400"
| "spec_response (ApiFailure e) a f = plain_response (msg_api_error e) 500"
| "spec_response (SynthesisFailure r) a f = plain_response (msg_synthesis_error r) 500"
| "spec_response Synthesized a f = json_response (json_dumps (metrics_payload a f))"

definition handled :: "module_state \<Rightarrow> http_request \<Rightarrow> world \<Rightarrow> bool" where
  "handled ms req w \<longleftrightarrow>
     (case speech_synthesizer ms of
        None \<Rightarrow> True
      | Some s \<Rightarrow>
          (case get_json (recursion_budget w) req of
             Inl e \<Rightarrow> isinstance e ValueError
           | Inr v \<Rightarrow>
               (case json_text v of
                  None \<Rightarrow> \<not> py_truthy v \<or> py_contains (py ''text'') v = Inr False
                | Some t \<Rightarrow>
                    (case service w s t of
                       Inl e \<Rightarrow> isinstance e Exception \<and> is_ascii (exn_str e)
                     | Inr res \<Rightarrow> True))))"

section \<open>Lemmas\<close>

lemma spec_response_status: "status_code (spec_response v a f) = spec_status v"
  by (cases v) (simp_all add: plain_response_def json_response_def)

lemma extract_text_missing:
  "\<not> py_truthy b \<or> py_contains (py ''text'') b = Inr False \<Longrightarrow>
   extract_text b = Return (plain_response msg_text_missing 400)"
  by (auto simp: extract_text_def resp_flow_def)

lemma extract_text_json_text:
  "json_text b = Some t \<Longrightarrow> extract_text b = Next t"
  by (cases b) (simp_all add: json_text_def extract_text_dict_text)

lemma api_error_ascii:
  "isinstance e Exception \<Longrightarrow> is_ascii (exn_str e) \<Longrightarrow>
   api_error e = Inr (plain_response (msg_api_error e) 500)"
  by (simp add: api_error_def msg_api_error_def text_response_ascii)

lemma get_json_dumps:
  "dumpable v \<Longrightarrow> fits dl v \<Longrightarrow> get_json dl \<lparr>req_body = map of_nat (json_dumps v)\<rparr> = Inr v"
  using json_dumps_ascii by (simp add: get_json_def utf8_decode_ascii json_loads_json_dumps)

lemma get_json_wf: "get_json dl req = Inr v \<Longrightarrow> wf_pyval v"
  by (auto simp: get_json_def split: sum.splits dest: utf8_decode_valid json_loads_wf)

lemma extract_text_next:
  "extract_text b = Next t \<Longrightarrow> \<exists>d. b = PDict d \<and> map_of d (py ''text'') = Some t"
  by (cases b) (auto simp: extract_text_def resp_flow_def split: if_splits sum.splits bool.splits
                     option.splits dest: weak_map_of_SomeI)

lemma get_json_empty:
  "get_json dl \<lparr>req_body = []\<rparr> = Inl (jerr_exn [] (Decode ''Expecting value'' 0))"
  by (simp add: get_json_def utf8_decode_def json_loads_def json_run.simps json_step_def eof_msg_def)

lemma empty_body_malformed: "req_body req = [] \<Longrightarrow> malformed_body dl req"
proof -
  assume "req_body req = []"
  then have "req = \<lparr>req_body = []\<rparr>"
    by simp
  then show ?thesis
    by (simp add: malformed_body_def get_json_empty jerr_exn_def Let_def)
qed

text \<open>
  An empty request body is answered 400 with the invalid-JSON message: \<open>get_json\<close> raises
  \<open>JSONDecodeError\<close> (Expecting value), a \<open>ValueError\<close>, after one clock reading and no
  service call.
\<close>

lemma main_empty_body:
  assumes "speech_synthesizer ms = Some s" and "req_body req = []"
  shows "run_state (main ms req) w =
           (Inr (plain_response msg_invalid_json 400),
            w\<lparr>reads := Suc (reads w), events := events w @ [ClockRead (clock w (reads w))]\<rparr>)"
  using assms by (simp add: main_ready parse_body_malformed empty_body_malformed)

text \<open>
  C17. On every request the code handles, main implements the contract: its response is the
  rendering of the verdict that the specification derives from the readiness of the
  synthesizer, the decoded body and the service's answer, with the status of the
  specification's table and the durations measured in float arithmetic, where these are
  below \<open>2^45\<close> ms (the range in which the reported decimals are the ones \<open>repr\<close> prints).
\<close>

theorem main_refines_spec:
  assumes "handled ms req w" and "\<bar>api_ms w\<bar> < 2 ^ 45" and "\<bar>function_ms w\<bar> < 2 ^ 45"
  shows "fst (run_state (main ms req) w) =
           Inr (spec_response
                  (spec_verdict (map_option (service w) (speech_synthesizer ms))
                     (get_json (recursion_budget w) req))
                  (api_ms w) (function_ms w))"
proof (cases "speech_synthesizer ms")
  case None
  then show ?thesis
    by (simp add: main_def spec_verdict_def)
next
  case (Some s)
  show ?thesis
  proof (cases "get_json (recursion_budget w) req")
    case (Inl e)
    with assms Some have "malformed_body (recursion_budget w) req"
      by (simp add: handled_def malformed_body_def)
    with Some Inl show ?thesis
      by (simp add: main_ready parse_body_malformed spec_verdict_def)
  next
    case (Inr v)
    show ?thesis
    proof (cases "json_text v")
      case None
      with assms Some Inr show ?thesis
        by (simp add: handled_def main_ready parse_body_value extract_text_missing spec_verdict_def)
    next
      case (Some t)
      note st = \<open>speech_synthesizer ms = Some s\<close>
      let ?w1 = "w\<lparr>reads := Suc (reads w), events := events w @ [ClockRead (clock w (reads w))]\<rparr>"
      show ?thesis
      proof (cases ?w1 s t rule: synthesize_cases)
        case (raises e)
        with assms st Inr Some show ?thesis
          by (simp add: handled_def main_ready parse_body_value extract_text_json_text
                synthesize_raises api_error_ascii spec_verdict_def)
      next
        case (reason res)
        with st Inr Some show ?thesis
          by (simp add: main_ready parse_body_value extract_text_json_text synthesize_reason
                spec_verdict_def)
      next
        case (completed res)
        with st Inr Some show ?thesis
          by (simp add: main_ready parse_body_value extract_text_json_text synthesize_completed
                spec_verdict_def api_ms_def function_ms_def)
      qed
    qed
  qed
qed

theorem main_refines_spec_witness:
  \<open>handled example_module (body_of ''{"text": "ab"}'') (example_world completed_service) \<and>
   \<bar>api_ms (example_world completed_service)\<bar> < 2 ^ 45 \<and>
   \<bar>function_ms (example_world completed_service)\<bar> < 2 ^ 45 \<and>
   fst (run_state (main example_module (body_of ''{"text": "ab"}'')) (example_world completed_service)) =
     Inr (spec_response
            (spec_verdict (map_option (service (example_world completed_service)) (speech_synthesizer example_module))
               (get_json (recursion_budget (example_world completed_service)) (body_of ''{"text": "ab"}'')))
            (api_ms (example_world completed_service)) (function_ms (example_world completed_service)))\<close>
proof -
  have h: \<open>handled example_module (body_of ''{"text": "ab"}'') (example_world completed_service)\<close>
    using get_json_text_ab
    by (simp add: handled_def example_ready json_text_def example_world_def completed_service_def)
  have b: "\<bar>api_ms (example_world completed_service)\<bar> < 2 ^ 45"
          "\<bar>function_ms (example_world completed_service)\<bar> < 2 ^ 45"
    by (simp_all add: example_api_ms example_function_ms)
  show ?thesis
    using main_refines_spec [OF h b] h b by simp
qed

text \<open>
  C18. A client that serialises its request with json.dumps is understood: for every
  dumpable value within the nesting budget whose 'text' member is t, the first try block
  (lines 39--48) decodes the body and goes on with t as the text to synthesize.
\<close>

theorem parse_body_client_request:
  assumes "dumpable v" and "fits dl v" and "json_text v = Some t"
  shows "parse_body dl \<lparr>req_body = map of_nat (json_dumps v)\<rparr> = Next t"
  using assms by (simp add: parse_body_value get_json_dumps extract_text_json_text)

theorem parse_body_client_request_witness:
  "dumpable (PDict [(py ''text'', PStr [79, 108, 225]), (py ''lang'', PList [PInt 1, PNone])]) \<and>
   fits 900 (PDict [(py ''text'', PStr [79, 108, 225]), (py ''lang'', PList [PInt 1, PNone])]) \<and>
   json_text (PDict [(py ''text'', PStr [79, 108, 225]), (py ''lang'', PList [PInt 1, PNone])]) =
     Some (PStr [79, 108, 225]) \<and>
   parse_body 900 \<lparr>req_body = map of_nat (json_dumps
     (PDict [(py ''text'', PStr [79, 108, 225]), (py ''lang'', PList [PInt 1, PNone])]))\<rparr> =
     Next (PStr [79, 108, 225])"
proof -
  have d: "dumpable (PDict [(py ''text'', PStr [79, 108, 225]), (py ''lang'', PList [PInt 1, PNone])])"
    by (simp add: encodable_def is_surrogate_def show_nat_def digits10.simps)
  have f: "fits 900 (PDict [(py ''text'', PStr [79, 108, 225]), (py ''lang'', PList [PInt 1, PNone])])"
    by simp
  have j: "json_text (PDict [(py ''text'', PStr [79, 108, 225]), (py ''lang'', PList [PInt 1, PNone])]) =
             Some (PStr [79, 108, 225])"
    by (simp add: json_text_def)
  show ?thesis
    using parse_body_client_request [OF d f j] d f j by blast
qed

text \<open>
  C21. The text handed to the service is a well-formed Python value taken from the body: when
  the first try block (lines 39--48) goes on, the body decoded to a dict whose member
  'text' is that value, and the value's strings hold valid code points and its dicts
  distinct keys. Its type is whatever the JSON document put there (any JSON value, not only
  a string).
\<close>

theorem parse_body_text_wf:
  assumes "parse_body dl req = Next t"
  shows "\<exists>d. get_json dl req = Inr (PDict d) \<and> map_of d (py ''text'') = Some t \<and> wf_pyval t"
proof -
  obtain b where b: "get_json dl req = Inr b" "extract_text b = Next t"
    using assms by (auto simp: parse_body_def resp_flow_def Let_def split: sum.splits flow.splits if_splits)
  then obtain d where d: "b = PDict d" "map_of d (py ''text'') = Some t"
    using extract_text_next by blast
  moreover have "wf_pyval (PDict d)"
    using get_json_wf [OF b(1)] d(1) by simp
  ultimately show ?thesis
    using b(1) by (auto dest: map_of_SomeD)
qed

theorem parse_body_text_wf_witness:
  \<open>parse_body 900 (body_of ''{"text": 5}'') = Next (PInt 5) \<and>
   (\<exists>d. get_json 900 (body_of ''{"text": 5}'') = Inr (PDict d) \<and>
        map_of d (py ''text'') = Some (PInt 5) \<and> wf_pyval (PInt 5))\<close>
proof -
  have g: \<open>get_json 900 (body_of ''{"text": 5}'') = Inr (PDict [(py ''text'', PInt 5)])\<close>
    by (simp add: get_json_def body_of_def utf8_eval json_eval)
  then have n: \<open>parse_body 900 (body_of ''{"text": 5}'') = Next (PInt 5)\<close>
    by (simp add: parse_body_value extract_text_dict_text)
  show ?thesis
    using parse_body_text_wf [OF n] n by blast
qed

text \<open>
  C22. Every body that decodes to a falsy JSON value (null, false, 0, 0.0, an empty string,
  list or object) is answered 400 with the missing-text message, by the not req_body test of
  line 42, after one clock reading and no service call.
\<close>

theorem main_falsy_body:
  assumes "speech_synthesizer ms = Some s" and "get_json (recursion_budget w) req = Inr v"
    and "\<not> py_truthy v"
  shows "run_state (main ms req) w =
           (Inr (plain_response msg_text_missing 400),
            w\<lparr>reads := Suc (reads w), events := events w @ [ClockRead (clock w (reads w))]\<rparr>)"
  using assms by (simp add: main_ready parse_body_value extract_text_missing)

theorem main_falsy_body_witness:
  "speech_synthesizer example_module = Some example_synth \<and>
   get_json (recursion_budget (example_world completed_service)) (body_of ''0'') = Inr (PInt 0) \<and>
   \<not> py_truthy (PInt 0) \<and>
   run_state (main example_module (body_of ''0'')) (example_world completed_service) =
     (Inr (plain_response msg_text_missing 400),
      (example_world completed_service)\<lparr>reads := Suc (reads (example_world completed_service)),
         events := events (example_world completed_service) @
           [ClockRead (clock (example_world completed_service) (reads (example_world completed_service)))]\<rparr>)"
proof -
  have g: "get_json (recursion_budget (example_world completed_service)) (body_of ''0'') = Inr (PInt 0)"
    by (simp add: example_world_def get_json_def body_of_def utf8_eval json_eval)
  have f: "\<not> py_truthy (PInt 0)"
    by simp
  show ?thesis
    using main_falsy_body [OF example_ready g f] example_ready g f by simp
qed

end
