(* ===== verification/Concurrent.thy ===== *)
theory Concurrent
  imports Handler
begin

text \<open>
  Concurrent invocations (specification, section 5): the host may run \<open>main\<close> for several
  requests at once on threads of one process. The module state is read-only after import, so
  invocations share only the world: the \<open>time.perf_counter\<close> clock and the speech service.
  \<open>thread_step\<close> is \<open>main\<close> (lines 28--81) cut at its shared accesses: each step performs
  one clock reading (lines 37, 51, 57, 64) or the service call (line 55) atomically, with
  the local computation that follows it up to the next shared access; the program counter
  \<open>pc\<close> holds the locals live at that point. \<open>conc_step\<close> interleaves the threads of a
  configuration and lets new requests arrive. The service is a function of the synthesizer
  and the text, i.e. the SDK object is assumed thread-safe, as the specification does.
\<close>

datatype pc =
    Begin
  | Parsed speech_synthesizer rat pyval
  | Calling speech_synthesizer rat rat pyval
  | Called rat rat synthesis_result
  | Timing rat rat rat
  | Finished "exn + http_response"

fun thread_step :: "module_state \<Rightarrow> http_request \<Rightarrow> pc \<Rightarrow> pc io" where
  "thread_step ms req Begin =
     (case speech_synthesizer ms of
        None \<Rightarrow> State_Monad.return (Finished (text_response msg_not_initialized 500))
      | Some s \<Rightarrow>
          do {
            t0 \<leftarrow> perf_counter;
            dl \<leftarrow> get_budget;
            State_Monad.return
              (case parse_body dl req of
                 Raise e \<Rightarrow> Finished (Inl e)
               | Return r \<Rightarrow> Finished (Inr r)
               | Next text \<Rightarrow> Parsed s t0 text)
          })"
| "thread_step ms req (Parsed s t0 text) =
     do {
       t1 \<leftarrow> perf_counter;
       State_Monad.return (Calling s t0 t1 text)
     }"
| "thread_step ms req (Calling s t0 t1 text) =
     do {
       r \<leftarrow> speak_text s text;
       State_Monad.return (case r of Inl e \<Rightarrow> Finished (api_error e) | Inr res \<Rightarrow> Called t0 t1 res)
     }"
| "thread_step ms req (Called t0 t1 res) =
     do {
       t2 \<leftarrow> perf_counter;
       State_Monad.return
         (if reason res \<noteq> SynthesizingAudioCompleted then
            Finished (catch_api (text_response (msg_synthesis_error (reason res)) 500))
          else Timing t0 t1 t2)
     }"
| "thread_step ms req (Timing t0 t1 t2) =
     do {
       t3 \<leftarrow> perf_counter;
       State_Monad.return
         (Finished (catch_api (success_response (ms_duration t2 t1) (ms_duration t3 t0))))
     }"
| "thread_step ms req (Finished r) = State_Monad.return (Finished r)"

text \<open>One invocation run alone for at most \<open>n\<close> steps.\<close>

fun run_thread :: "nat \<Rightarrow> module_state \<Rightarrow> http_request \<Rightarrow> pc \<Rightarrow> pc io" where
  "run_thread 0 ms req p = State_Monad.return p"
| "run_thread (Suc n) ms req p =
     do {
       p' \<leftarrow> thread_step ms req p;
       run_thread n ms req p'
     }"

type_synonym thread = "http_request \<times> pc"

text \<open>
  The host's scheduler: a request arrives (a new thread at \<open>Begin\<close>), or one thread takes
  its next atomic step on the shared world while the others keep their state.
\<close>

inductive conc_step :: "module_state \<Rightarrow> thread list \<times> world \<Rightarrow> thread list \<times> world \<Rightarrow> bool"
  for ms where
  arrive: "conc_step ms (ts, w) (ts @ [(req, Begin)], w)"
| run: "i < length ts \<Longrightarrow> ts ! i = (req, p) \<Longrightarrow> run_state (thread_step ms req p) w = (p', w') \<Longrightarrow>
        conc_step ms (ts, w) (ts[i := (req, p')], w')"

text \<open>
  Proof vocabulary: whether a step reads the clock, and the world in which an invocation that
  took the readings \<open>rs\<close> would have run alone (its clock returns \<open>rs\<close>, then stays at the
  last reading). \<open>seq_view\<close> is the invariant of every thread of a reachable configuration:
  some run alone from \<open>Begin\<close> on such a world, with sorted readings none later than the
  shared clock's next one, reaches the thread's program point.
\<close>

definition view_clock :: "rat list \<Rightarrow> nat \<Rightarrow> rat" where
  "view_clock rs n = (if n < length rs then rs ! n else if rs = [] then 0 else last rs)"

definition view :: "world \<Rightarrow> rat list \<Rightarrow> world" where
  "view w0 rs = w0\<lparr>clock := view_clock rs, reads := 0, events := []\<rparr>"

definition reads_clock :: "module_state \<Rightarrow> pc \<Rightarrow> bool" where
  "reads_clock ms p =
     (case p of Begin \<Rightarrow> speech_synthesizer ms \<noteq> None | Calling s t0 t1 text \<Rightarrow> False
      | Finished r \<Rightarrow> False | _ \<Rightarrow> True)"

definition seq_view :: "module_state \<Rightarrow> world \<Rightarrow> world \<Rightarrow> thread \<Rightarrow> bool" where
  "seq_view ms w0 w t \<longleftrightarrow>
     (\<exists>k rs. sorted rs \<and> (\<forall>x\<in>set rs. x \<le> clock w (reads w)) \<and>
        fst (run_state (run_thread k ms (fst t) Begin) (view w0 rs)) = snd t \<and>
        reads (snd (run_state (run_thread k ms (fst t) Begin) (view w0 rs))) = length rs)"

section \<open>Lemmas\<close>

lemma run_thread_Finished [simp]: "run_state (run_thread n ms req (Finished r)) w = (Finished r, w)"
  by (induction n) simp_all

lemma run_thread_main:
  "run_state (run_thread 5 ms req Begin) w =
     (Finished (fst (run_state (main ms req) w)), snd (run_state (main ms req) w))"
proof (cases "speech_synthesizer ms")
  case None
  then show ?thesis
    by (simp add: main_def numeral_eq_Suc)
next
  case (Some s)
  let ?w1 = "w\<lparr>reads := Suc (reads w), events := events w @ [ClockRead (clock w (reads w))]\<rparr>"
  show ?thesis
  proof (cases "parse_body (recursion_budget w) req")
    case (Next t)
    show ?thesis
    proof (cases ?w1 s t rule: synthesize_cases)
      case (raises e)
      with Some Next show ?thesis
        by (simp add: main_ready synthesize_raises numeral_eq_Suc get_budget_def)
    next
      case (reason res)
      with Some Next show ?thesis
        by (simp add: main_ready synthesize_reason numeral_eq_Suc get_budget_def catch_api_def)
    next
      case (completed res)
      with Some Next show ?thesis
        by (simp add: main_ready synthesize_completed numeral_eq_Suc get_budget_def catch_api_def
              success_response_ok)
    qed
  qed (simp_all add: Some main_ready numeral_eq_Suc get_budget_def)
qed

lemma run_thread_add:
  "run_state (run_thread (m + n) ms req p) w =
     (case run_state (run_thread m ms req p) w of (p', w') \<Rightarrow> run_state (run_thread n ms req p') w')"
  by (induction m arbitrary: p w) (simp_all split: prod.splits)

lemma thread_step_world:
  "run_state (thread_step ms req p) w = (p', w') \<Longrightarrow>
   clock w' = clock w \<and> service w' = service w \<and> recursion_budget w' = recursion_budget w \<and>
   (reads w' = reads w \<or> reads w' = Suc (reads w))"
  by (cases p) (auto simp: get_budget_def split: option.splits)

lemma thread_step_agree:
  assumes "run_state (thread_step ms req p) w = (p', w')" and "\<forall>n<reads w'. c n = clock w n"
  shows "run_state (thread_step ms req p) (w\<lparr>clock := c\<rparr>) = (p', w'\<lparr>clock := c\<rparr>)"
proof -
  have "c (reads w) = clock w (reads w)" if "reads w' = Suc (reads w)"
    using assms(2) that by simp
  with assms(1) show ?thesis
    by (cases p) (auto simp: get_budget_def split: option.splits flow.splits)
qed

lemma run_thread_reads:
  "run_state (run_thread k ms req p) w = (p', w') \<Longrightarrow> reads w \<le> reads w'"
proof (induction k arbitrary: p w)
  case (Suc k)
  then show ?case
    by (cases "run_state (thread_step ms req p) w")
       (fastforce dest: thread_step_world)
qed simp

lemma run_thread_agree:
  assumes "run_state (run_thread k ms req p) w = (p', w')" and "\<forall>n<reads w'. c n = clock w n"
  shows "run_state (run_thread k ms req p) (w\<lparr>clock := c\<rparr>) = (p', w'\<lparr>clock := c\<rparr>)"
  using assms
proof (induction k arbitrary: p w)
  case (Suc k)
  obtain p1 w1 where s: "run_state (thread_step ms req p) w = (p1, w1)"
    by fastforce
  with Suc.prems have r: "run_state (run_thread k ms req p1) w1 = (p', w')"
    by simp
  have "reads w1 \<le> reads w'" "clock w1 = clock w"
    using run_thread_reads [OF r] thread_step_world [OF s] by simp_all
  then have "run_state (thread_step ms req p) (w\<lparr>clock := c\<rparr>) = (p1, w1\<lparr>clock := c\<rparr>)"
    using Suc.prems(2) by (intro thread_step_agree [OF s]) auto
  moreover have "run_state (run_thread k ms req p1) (w1\<lparr>clock := c\<rparr>) = (p', w'\<lparr>clock := c\<rparr>)"
    using Suc.IH [OF r] Suc.prems(2) \<open>clock w1 = clock w\<close> by simp
  moreover have "w1\<lparr>clock := c\<rparr> = (w1\<lparr>clock := c\<rparr>)\<lparr>clock := c\<rparr>"
    by simp
  ultimately show ?case
    by simp
qed simp

lemma view_clock_mono: "sorted rs \<Longrightarrow> mono (view_clock rs)"
  by (auto simp: mono_def view_clock_def sorted_iff_nth_mono last_conv_nth)

lemma thread_step_reads:
  "run_state (thread_step ms req p) w = (p', w') \<Longrightarrow>
   reads w' = (if reads_clock ms p then Suc (reads w) else reads w)"
  by (cases p) (auto simp: reads_clock_def get_budget_def split: option.splits)

lemma thread_step_local:
  assumes "service v = service w" "recursion_budget v = recursion_budget w"
    and "reads_clock ms p \<Longrightarrow> clock v (reads v) = clock w (reads w)"
  shows "fst (run_state (thread_step ms req p) v) = fst (run_state (thread_step ms req p) w)"
  using assms by (cases p) (auto simp: reads_clock_def get_budget_def split: option.splits)

lemma run_thread_world:
  "run_state (run_thread k ms req p) w = (p', w') \<Longrightarrow>
   clock w' = clock w \<and> service w' = service w \<and> recursion_budget w' = recursion_budget w"
proof (induction k arbitrary: p w)
  case (Suc k)
  then show ?case
    by (cases "run_state (thread_step ms req p) w")
       (fastforce dest: thread_step_world)
qed simp

lemma run_thread_Suc_last:
  "run_state (run_thread (Suc k) ms req p) w =
     (case run_state (run_thread k ms req p) w of (p', w') \<Rightarrow> run_state (thread_step ms req p') w')"
  using run_thread_add [of k 1 ms req p w] by (simp split: prod.splits)

lemma seq_view_other:
  assumes "seq_view ms w0 w t" "clock w' = clock w" "reads w \<le> reads w'" "mono (clock w)"
  shows "seq_view ms w0 w' t"
proof -
  have "clock w (reads w) \<le> clock w' (reads w')"
    using assms(2-4) by (simp add: mono_def)
  with assms(1) show ?thesis
    unfolding seq_view_def by (meson order_trans)
qed

lemma seq_view_step:
  assumes inv: "seq_view ms w0 w (req, p)" and st: "run_state (thread_step ms req p) w = (p', w')"
    and m: "mono (clock w)" and sv: "service w = service w0"
    and bd: "recursion_budget w = recursion_budget w0"
  shows "seq_view ms w0 w' (req, p')"
proof -
  obtain k rs where so: "sorted rs" and le: "\<forall>x\<in>set rs. x \<le> clock w (reads w)"
    and f: "fst (run_state (run_thread k ms req Begin) (view w0 rs)) = p"
    and f': "reads (snd (run_state (run_thread k ms req Begin) (view w0 rs))) = length rs"
    using inv unfolding seq_view_def by auto
  obtain v where r: "run_state (run_thread k ms req Begin) (view w0 rs) = (p, v)" and rv: "reads v = length rs"
    using f f' by (cases "run_state (run_thread k ms req Begin) (view w0 rs)") auto
  have vw: "clock v = view_clock rs" "service v = service w0" "recursion_budget v = recursion_budget w0"
    using run_thread_world [OF r] by (simp_all add: view_def)
  have ww: "clock w' = clock w"
    using thread_step_world [OF st] by simp
  show ?thesis
  proof (cases "reads_clock ms p")
    case True
    let ?rs = "rs @ [clock w (reads w)]"
    have rw: "reads w' = Suc (reads w)"
      using thread_step_reads [OF st] True by simp
    have agree: "\<forall>n<reads v. view_clock ?rs n = clock (view w0 rs) n"
      using rv by (simp add: view_def view_clock_def nth_append)
    have "view w0 ?rs = (view w0 rs)\<lparr>clock := view_clock ?rs\<rparr>"
      by (simp add: view_def)
    then have r': "run_state (run_thread k ms req Begin) (view w0 ?rs) = (p, v\<lparr>clock := view_clock ?rs\<rparr>)"
      using run_thread_agree [OF r agree] by simp
    have "fst (run_state (thread_step ms req p) (v\<lparr>clock := view_clock ?rs\<rparr>)) = p'"
      using thread_step_local [of "v\<lparr>clock := view_clock ?rs\<rparr>" w ms p req] st vw sv bd rv
      by (simp add: view_clock_def)
    moreover have "reads (snd (run_state (thread_step ms req p) (v\<lparr>clock := view_clock ?rs\<rparr>))) = length ?rs"
      using thread_step_reads [of ms req p "v\<lparr>clock := view_clock ?rs\<rparr>"] True rv
      by (cases "run_state (thread_step ms req p) (v\<lparr>clock := view_clock ?rs\<rparr>)") simp
    moreover have "sorted ?rs"
      using so le by (simp add: sorted_append)
    moreover have "\<forall>x\<in>set ?rs. x \<le> clock w' (reads w')"
      using le m ww rw by (auto simp: mono_def intro: order_trans)
    moreover have "run_state (run_thread (Suc k) ms req Begin) (view w0 ?rs) =
        run_state (thread_step ms req p) (v\<lparr>clock := view_clock ?rs\<rparr>)"
      by (simp only: run_thread_Suc_last r' prod.case)
    ultimately show ?thesis
      unfolding seq_view_def by (intro exI [of _ "Suc k"] exI [of _ ?rs]) simp
  next
    case False
    have rw: "reads w' = reads w"
      using thread_step_reads [OF st] False by simp
    have "fst (run_state (thread_step ms req p) v) = p'"
      using thread_step_local [of v w ms p req] st vw sv bd False by simp
    moreover have "reads (snd (run_state (thread_step ms req p) v)) = length rs"
      using thread_step_reads [of ms req p v] False rv
      by (cases "run_state (thread_step ms req p) v") simp
    moreover have "run_state (run_thread (Suc k) ms req Begin) (view w0 rs) =
        run_state (thread_step ms req p) v"
      by (simp only: run_thread_Suc_last r prod.case)
    ultimately show ?thesis
      unfolding seq_view_def using so le ww rw
      by (intro exI [of _ "Suc k"] exI [of _ rs]) simp
  qed
qed

lemma seq_view_Begin: "seq_view ms w0 w (req, Begin)"
  unfolding seq_view_def by (intro exI [of _ 0] exI [of _ "[]"]) (simp add: view_def)

lemma conc_reach_inv:
  assumes "(conc_step ms)\<^sup>*\<^sup>* ([], w0) c" and "monotone_clock w0"
  shows "clock (snd c) = clock w0 \<and> service (snd c) = service w0 \<and>
         recursion_budget (snd c) = recursion_budget w0 \<and> (\<forall>t\<in>set (fst c). seq_view ms w0 (snd c) t)"
  using assms(1)
proof (induction rule: rtranclp_induct)
  case base
  then show ?case by simp
next
  case (step c c')
  from step.hyps(2) show ?case
  proof (cases rule: conc_step.cases)
    case (arrive ts w req)
    with step.IH show ?thesis
      by (auto simp: seq_view_Begin)
  next
    case (run i ts req p w p' w')
    have m: "mono (clock w)" and w0: "clock w = clock w0" "service w = service w0"
      "recursion_budget w = recursion_budget w0"
      using step.IH assms(2) run(1) by (simp_all add: monotone_clock_def)
    have ws: "clock w' = clock w" "service w' = service w" "recursion_budget w' = recursion_budget w"
      "reads w \<le> reads w'"
      using thread_step_world [OF run(5)] by auto
    have old: "\<forall>t\<in>set ts. seq_view ms w0 w t"
      using step.IH run(1) by simp
    have "seq_view ms w0 w (req, p)"
      using old run(3,4) nth_mem by fastforce
    then have "seq_view ms w0 w' (req, p')"
      using seq_view_step [OF _ run(5) m] w0 by simp
    moreover have "\<forall>t\<in>set ts. seq_view ms w0 w' t"
      using old ws m by (blast intro: seq_view_other)
    ultimately have "\<forall>t\<in>set (ts[i := (req, p')]). seq_view ms w0 w' t"
      using set_update_subset_insert [of ts i "(req, p')"] by blast
    with run(2) ws w0 show ?thesis
      by simp
  qed
qed

lemma run_thread_Finished_main:
  assumes "fst (run_state (run_thread k ms req Begin) w) = Finished r"
  shows "fst (run_state (main ms req) w) = r"
proof (cases "k \<le> 5")
  case True
  then have "run_thread 5 ms req Begin = run_thread (k + (5 - k)) ms req Begin"
    by simp
  then have "fst (run_state (run_thread 5 ms req Begin) w) = Finished r"
    using assms run_thread_add [of k "5 - k" ms req Begin w]
    by (cases "run_state (run_thread k ms req Begin) w") simp
  then show ?thesis
    by (simp add: run_thread_main)
next
  case False
  then have "run_thread k ms req Begin = run_thread (5 + (k - 5)) ms req Begin"
    by simp
  then have "fst (run_state (run_thread k ms req Begin) w) = Finished (fst (run_state (main ms req) w))"
    using run_thread_add [of 5 "k - 5" ms req Begin w] by (simp add: run_thread_main)
  with assms show ?thesis
    by simp
qed

lemma conc_finished_main:
  assumes "(conc_step ms)\<^sup>*\<^sup>* ([], w0) (ts, w)" and "monotone_clock w0"
    and "(req, Finished r) \<in> set ts"
  shows "\<exists>rs. sorted rs \<and> fst (run_state (main ms req) (view w0 rs)) = r"
proof -
  have "seq_view ms w0 w (req, Finished r)"
    using conc_reach_inv [OF assms(1,2)] assms(3) by simp
  then obtain k rs where "sorted rs" "fst (run_state (run_thread k ms req Begin) (view w0 rs)) = Finished r"
    unfolding seq_view_def by auto
  then show ?thesis
    using run_thread_Finished_main by blast
qed

lemma conc_run_thread:
  "run_state (run_thread n ms req p) w = (p', w') \<Longrightarrow> i < length ts \<Longrightarrow> ts ! i = (req, p) \<Longrightarrow>
   (conc_step ms)\<^sup>*\<^sup>* (ts, w) (ts[i := (req, p')], w')"
proof (induction n arbitrary: p w ts)
  case 0
  then have "p' = p" "w' = w"
    by simp_all
  moreover have "ts[i := (req, p)] = ts"
    using "0.prems"(3) by (metis list_update_id)
  ultimately show ?case
    by simp
next
  case (Suc n)
  obtain p1 w1 where s: "run_state (thread_step ms req p) w = (p1, w1)"
    by fastforce
  have "conc_step ms (ts, w) (ts[i := (req, p1)], w1)"
    using Suc.prems(2,3) s by (rule conc_step.run)
  moreover have "(conc_step ms)\<^sup>*\<^sup>* (ts[i := (req, p1)], w1) ((ts[i := (req, p1)])[i := (req, p')], w')"
    using Suc.prems s by (intro Suc.IH) simp_all
  ultimately show ?case
    by (simp add: converse_rtranclp_into_rtranclp)
qed

lemma example_success_fst:
  \<open>fst (run_state (main example_module (body_of ''{"text": "ab"}'')) (example_world completed_service)) =
     Inr (json_response (json_dumps (metrics_payload 125 375)))\<close>
  using example_success_run by (metis fst_conv)

lemma example_conc_run:
  \<open>(conc_step example_module)\<^sup>*\<^sup>* ([], example_world completed_service)
     ([(body_of ''{"text": "ab"}'', Finished (Inr (json_response (json_dumps (metrics_payload 125 375)))))],
      snd (run_state (main example_module (body_of ''{"text": "ab"}'')) (example_world completed_service)))\<close>
proof -
  have a: \<open>conc_step example_module ([], example_world completed_service)
             ([(body_of ''{"text": "ab"}'', Begin)], example_world completed_service)\<close>
    using conc_step.arrive [of example_module "[]" "example_world completed_service" "body_of ''{\"text\": \"ab\"}''"]
    by simp
  have \<open>run_state (run_thread 5 example_module (body_of ''{"text": "ab"}'') Begin) (example_world completed_service) =
          (Finished (Inr (json_response (json_dumps (metrics_payload 125 375)))),
           snd (run_state (main example_module (body_of ''{"text": "ab"}'')) (example_world completed_service)))\<close>
    using example_success_fst by (simp add: run_thread_main)
  from conc_run_thread [OF this, of 0 \<open>[(body_of ''{"text": "ab"}'', Begin)]\<close>]
  have \<open>(conc_step example_module)\<^sup>*\<^sup>* ([(body_of ''{"text": "ab"}'', Begin)], example_world completed_service)
          ([(body_of ''{"text": "ab"}'', Finished (Inr (json_response (json_dumps (metrics_payload 125 375)))))],
           snd (run_state (main example_module (body_of ''{"text": "ab"}'')) (example_world completed_service)))\<close>
    by simp
  with a show ?thesis
    by (rule converse_rtranclp_into_rtranclp)
qed

text \<open>
  C19. Concurrent invocations behave as isolated ones: under a monotonic clock, every response
  (or escaping exception) that an invocation produces in any interleaving with others is what
  \<open>main\<close> produces for the same request when run alone, on a world with the same
  service and recursion budget and a monotonic clock (the invocation's own readings).
\<close>

theorem conc_refines_sequential:
  assumes "(conc_step ms)\<^sup>*\<^sup>* ([], w0) (ts, w)" and "monotone_clock w0"
    and "(req, Finished r) \<in> set ts"
  shows "\<exists>wv. monotone_clock wv \<and> service wv = service w0 \<and>
              recursion_budget wv = recursion_budget w0 \<and> fst (run_state (main ms req) wv) = r"
proof -
  obtain rs where "sorted rs" "fst (run_state (main ms req) (view w0 rs)) = r"
    using conc_finished_main [OF assms] by blast
  then show ?thesis
    by (intro exI [of _ "view w0 rs"]) (simp add: view_def monotone_clock_def view_clock_mono)
qed

theorem conc_refines_sequential_witness:
  \<open>(conc_step example_module)\<^sup>*\<^sup>* ([], example_world completed_service)
     ([(body_of ''{"text": "ab"}'', Finished (Inr (json_response (json_dumps (metrics_payload 125 375)))))],
      snd (run_state (main example_module (body_of ''{"text": "ab"}'')) (example_world completed_service))) \<and>
   monotone_clock (example_world completed_service) \<and>
   (\<exists>wv. monotone_clock wv \<and> service wv = service (example_world completed_service) \<and>
      recursion_budget wv = recursion_budget (example_world completed_service) \<and>
      fst (run_state (main example_module (body_of ''{"text": "ab"}'')) wv) =
        Inr (json_response (json_dumps (metrics_payload 125 375))))\<close>
  using conc_refines_sequential [OF example_conc_run example_world_monotone] example_conc_run
    example_world_monotone
  by simp

text \<open>
  C20. Interleaving does not spoil the metrics: under a monotonic clock, every 200 answer of an
  invocation running concurrently with others reports non-negative rounded durations with
  the API duration at most the function duration.
\<close>

theorem conc_200_metrics:
  assumes "(conc_step ms)\<^sup>*\<^sup>* ([], w0) (ts, w)" and "monotone_clock w0"
    and "(req, Finished (Inr r)) \<in> set ts" and "status_code r = 200"
  shows "\<exists>a f. resp_body r = map of_nat (json_dumps (metrics_payload a f)) \<and>
               0 \<le> py_round2 a \<and> py_round2 a \<le> py_round2 f"
proof -
  obtain rs where so: "sorted rs" and m: "fst (run_state (main ms req) (view w0 rs)) = Inr r"
    using conc_finished_main [OF assms(1-3)] by blast
  have mv: "monotone_clock (view w0 rs)"
    using so by (simp add: view_def monotone_clock_def view_clock_mono)
  obtain w' where rm: "run_state (main ms req) (view w0 rs) = (Inr r, w')"
    using m by (cases "run_state (main ms req) (view w0 rs)") simp
  show ?thesis
    using main_200_shape [OF rm assms(4)] durations_ordered [OF mv]
    by (auto simp: json_response_def)
qed

theorem conc_200_metrics_witness:
  \<open>(conc_step example_module)\<^sup>*\<^sup>* ([], example_world completed_service)
     ([(body_of ''{"text": "ab"}'', Finished (Inr (json_response (json_dumps (metrics_payload 125 375)))))],
      snd (run_state (main example_module (body_of ''{"text": "ab"}'')) (example_world completed_service))) \<and>
   monotone_clock (example_world completed_service) \<and>
   status_code (json_response (json_dumps (metrics_payload 125 375))) = 200 \<and>
   (\<exists>a f. resp_body (json_response (json_dumps (metrics_payload 125 375))) =
            map of_nat (json_dumps (metrics_payload a f)) \<and>
          0 \<le> py_round2 a \<and> py_round2 a \<le> py_round2 f)\<close>
proof -
  have st: "status_code (json_response (json_dumps (metrics_payload 125 375))) = 200"
    by (simp add: json_response_def)
  show ?thesis
    using conc_200_metrics [OF example_conc_run example_world_monotone _ st] example_conc_run
      example_world_monotone st
    by simp
qed

end
