(* ===== verification/Spec2Isabelle.thy ===== *)
theory Spec2Isabelle
  imports Process Contract Concurrent
begin

text \<open>
  \<^bold>\<open>A verification development of \<open>function_app.py\<close>, the one source file under \<open>src/\<close>.\<close>

  \<^bold>\<open>The program.\<close> An Azure Function (Python) that measures the Azure Speech text-to-speech
  service. At import (lines 7--25) it reads \<open>SPEECH_KEY\<close> and \<open>SPEECH_REGION\<close> from the
  environment and builds one \<open>SpeechSynthesizer\<close> (voice \<open>pt-BR-FranciscaNeural\<close>, audio
  discarded) shared by all invocations; a failure sets it to \<open>None\<close> and prints the reason.
  The handler \<open>main(req)\<close> (lines 28--81) refuses to work without a synthesizer (500),
  reads the clock, parses the JSON body and extracts \<open>text\<close> (400 on bad JSON or a missing
  field), reads the clock again, calls the service, checks the result reason (500 on
  failure), reads the clock twice more and answers 200 with a JSON document of the two
  durations rounded to two decimals; an exception of the call becomes a 500.

  \<^bold>\<open>Theories and what they model.\<close>
  \<^item> \<open>Prelude\<close>: Python strings as lists of code points (\<open>pystr\<close>), bytes as \<open>8 word\<close> lists,
    decimal and hexadecimal printing, shared list and arithmetic lemmas.
  \<^item> \<open>PyRuntime\<close>: the Python semantics the code relies on: exception classes with their
    method resolution order (\<open>isinstance\<close>, how \<open>except C\<close> matches), JSON values
    \<open>pyval\<close>, truthiness (\<open>not req_body\<close>), the \<open>in\<close> operator with its \<open>TypeError\<close>,
    \<open>dict.get\<close> with its \<open>AttributeError\<close>, and dictionary insertion.
  \<^item> \<open>Utf8\<close>, \<open>JsonLoads\<close>, \<open>AzureHttp\<close>: \<open>req.get_json()\<close> (line 41), i.e. strict UTF-8
    decoding followed by CPython 3.12's \<open>json.loads\<close>, written as a scanner loop over an
    explicit stack (\<open>json_run\<close>, a \<open>function\<close> terminating on the length of the input),
    and \<open>HttpResponse\<close>, which encodes a \<open>str\<close> body in UTF-8.
  \<^item> \<open>SpeechSdk\<close>: the SDK objects the code builds and the \<open>ResultReason\<close> enumeration; the
    constructors' failures are an oracle \<open>sdk\<close>.
  \<^item> \<open>World\<close>: the effects, threaded with \<open>State_Monad\<close>: the \<open>time.perf_counter\<close> clock
    (the \<open>n\<close>-th reading of the process is \<open>clock w n\<close>), the service answering
    \<open>speak_text_async(text).get()\<close>, the recursion budget bounding JSON nesting, and the trace
    of events (readings, service calls, printed lines).
  \<^item> \<open>Init\<close>: lines 7--25 (\<open>load_settings\<close>, \<open>build_synthesizer\<close>, \<open>module_init\<close>).
  \<^item> \<open>PyRound\<close>, \<open>JsonDumps\<close>: \<open>round(x, 2)\<close> (ties to even on the exact value), \<open>repr\<close> of
    its result, and \<open>json.dumps\<close> (lines 67--75).
  \<^item> \<open>PyFloat\<close>: the float arithmetic of lines 57 and 64. A float is the rational it
    denotes, and every subtraction and multiplication returns the nearest IEEE 754 binary64
    value, ties to even (\<open>dbl\<close>, computed on a grid of \<open>2^-1074\<close> units with a 53-bit
    significand, \<open>grid_round\<close>). Lemmas: \<open>dbl\<close> is monotone and keeps signs, fixes every
    double (\<open>dbl_exact\<close>) and in the normal range is rounding of a 53-bit significand
    (\<open>dbl_normal\<close>).
  \<^item> \<open>Handler\<close>: lines 28--81 as \<open>main\<close>, composed of \<open>parse_body\<close> (the first \<open>try\<close>,
    with \<open>extract_text\<close> for lines 42--45) and \<open>synthesize\<close> (the second \<open>try\<close>); the
    control flow of a \<open>try\<close> block is the datatype \<open>flow\<close>, an exception escaping \<open>main\<close>
    is \<open>Inl\<close> of the result. \<open>ms_duration\<close> is the expression
    \<open>(time.perf_counter() - start) * 1000\<close> of lines 57 and 64 in float arithmetic;
    \<open>api_ms\<close> and \<open>function_ms\<close> are the two durations a run from a world measures. The
    lemma \<open>float_duration_example\<close> shows the effect of the floats: readings 3.5 and
    3.539215 give 39.22 ms, as CPython reports, where exact arithmetic gives 39.21.
  \<^item> \<open>Process\<close>: the life of a worker process as the step relation \<open>proc_step\<close> (import,
    then any sequence of invocations) and its \<open>reachable\<close> configurations.
  \<^item> \<open>JsonWf\<close>: the well-formedness of decoded values (\<open>wf_pyval\<close>: valid code
    points, dictionaries with distinct keys) as an invariant of the scanner's stack.
  \<^item> \<open>JsonRoundtrip\<close>: the reading back by \<open>json_loads\<close> of what \<open>json_dumps\<close> writes,
    with the conditions under which \<open>json.dumps\<close> output is faithful (\<open>dumpable\<close>) and
    the nesting fits the budget (\<open>fits\<close>).
  \<^item> \<open>Contract\<close>: the specification's contract as an abstract \<open>verdict\<close> computed from the
    readiness of the synthesizer, the decoded body and the service's answer, its status
    table \<open>spec_status\<close> and rendering \<open>spec_response\<close>, reporting the measured durations.
  \<^item> \<open>Concurrent\<close>: concurrent invocations (specification, section 5). \<open>thread_step\<close> is
    \<open>main\<close> cut at its shared accesses (the clock readings of lines 37, 51, 57, 64 and the
    service call of line 55), with the program counter \<open>pc\<close> holding the live locals;
    \<open>conc_step\<close> is the host: requests arrive and any thread takes its next atomic step.

  \<^bold>\<open>What is proved.\<close> \<open>Handler\<close>: the answer of \<open>main\<close> on every path of the source (not
  ready, success with the exact metrics document of the float durations, bad JSON,
  missing field, service exception, failed reason), that every 200 answer carries
  non-negative ordered durations under a monotonic clock (the float rounding is monotone,
  so it cannot reverse them), and exactly which exceptions escape the handler, with the
  three inputs that make one escape (a scalar body, a list containing \<open>"text"\<close>, too deep a
  nesting). \<open>Init\<close>: no \<open>Exception\<close> escapes the import, a created synthesizer is the
  configured one, a failure prints exactly one line. \<open>Process\<close>, by rule induction: the
  permanence and silence of a failed initialisation and the shape of the trace of each
  request (helper invariants: the configured synthesizer, the successive clock readings).
  \<open>JsonLoads\<close>: the scanner terminates and raises only \<open>ValueError\<close> or \<open>RecursionError\<close>.
  \<open>Utf8\<close>: decoding inverts encoding on every string of encodable code points.
  \<open>JsonRoundtrip\<close>: \<open>json_loads\<close> inverts \<open>json_dumps\<close> on every faithfully dumpable value,
  by induction on the value over the scanner's generalised run (\<open>json_run_dumps\<close>).
  \<open>Contract\<close>: \<open>main\<close> refines the contract on every request it handles (those outside
  are exactly the escaping exceptions above); a request written by \<open>json.dumps\<close> is
  understood by the first \<open>try\<close> block; the value handed to the service is the well-formed
  \<open>'text'\<close> member of a decoded dict, of any JSON type; every falsy JSON body gets the
  missing-text 400 (and, as a lemma, an empty body the invalid-JSON 400).
  \<open>Concurrent\<close>: the thread machine run alone is \<open>main\<close> (\<open>run_thread_main\<close>, same response,
  same world); by rule induction over \<open>conc_step\<close> with the invariant \<open>seq_view\<close>, every
  result produced in an interleaving is one \<open>main\<close> produces alone on a monotonic clock with
  the same service, so the ordered-durations guarantee survives concurrency.

  \<^bold>\<open>Bounds and choices.\<close> Floats are the exact rationals they denote, and the two float
  operations of each duration round to binary64 (\<open>dbl\<close>); overflow to infinity (beyond
  \<open>2^1024\<close>) and the sign of zero are not represented, neither is reachable by a duration
  in milliseconds. \<open>round(x, 2)\<close> rounds the exact value of the float, as CPython does, and
  \<open>repr2\<close> prints the resulting multiple of one hundredth exactly, which is \<open>repr\<close> of the
  float CPython returns while it is below \<open>2^46\<close> (the floats there are spaced closer than
  0.01); so the theorems that state the body of a 200 answer ask the durations to be
  below \<open>2^45\<close> ms (about 1100 years). JSON literals outside the double range read as
  \<open>0.0\<close> or an infinity. The nesting limit is the world's recursion budget, an abstraction
  of the interpreter's remaining stack; the integer-digit limit is CPython's 4300. The
  example world reads the clock every 0.125 s, a double, so its durations (125 ms and
  375 ms) are computed without rounding.

  \<^bold>\<open>Not modelled.\<close> The speech service and the native SDK are outside the repository: only
  their observable outcomes enter (a result reason and audio bytes, or an exception; a
  constructor that may raise). The audio is never inspected by the code. The SDK object is
  assumed thread-safe, as the specification does: the service's answer is a function of the
  synthesizer and the text, whatever runs concurrently. The call
  \<open>speak_text_async(...).get()\<close> has no timeout in the code; the model takes the service's
  answer as given, so a call that never returns is not represented. Whether the SDK's
  \<open>AudioOutputConfig(use_default_speaker=False, filename=None)\<close> succeeds is left to the
  oracle: the SDK's Python source raises \<open>ValueError\<close> for an output with no target, in
  which case every initialisation fails and every request gets the 500 of the first
  claim. The module global \<open>speech_synthesizer\<close> is an option (\<open>None\<close> or a synthesizer):
  a completed import always binds it, since either the \<open>try\<close> block or its \<open>except\<close>
  clause assigns it, and an import aborted by a non-\<open>Exception\<close> never runs \<open>main\<close>; so
  an unbound global (a \<open>NameError\<close> in \<open>main\<close>) is not a state the handler can observe. The
  host's own answer to an escaping exception is outside the code.
\<close>

end
